theory Spec2Isabelle
  imports Main "HOL-Library.Word"
begin

section \<open>The savegame engine used by \<^verbatim>\<open>ai_sl.cpp\<close>\<close>

text \<open>
  \<^verbatim>\<open>src/saveload/ai_sl.cpp\<close> is the chunk handler \<^verbatim>\<open>AIPL\<close>. The engine it
  calls (\<^verbatim>\<open>saveload.h\<close>: \<^verbatim>\<open>SlObject\<close>, \<^verbatim>\<open>SlTableHeader\<close>,
  \<^verbatim>\<open>SlCompatTableHeader\<close>, \<^verbatim>\<open>SlIterateArray\<close>, \<^verbatim>\<open>SlSetArrayIndex\<close>,
  \<^verbatim>\<open>SlAutolength\<close>, \<^verbatim>\<open>SlErrorCorrupt\<close>) is not part of the sources at hand;
  this section models it from the specification, sections 3, 4 and 6. The handler itself
  is embedded from its source in the sections after this one.
\<close>

type_synonym byte = "8 word"

text \<open>A C++ \<^verbatim>\<open>int\<close>: 32 bits, \<open>- 1\<close> is the word of all ones.\<close>

type_synonym cint = "32 word"

text \<open>
  Modelled from the spec: section 7, the fatal condition corrupt-data, raised in the source
  by \<^verbatim>\<open>SlErrorCorrupt(msg)\<close>.
\<close>

datatype sl_error = SlErrorCorrupt string

subsection \<open>Primitive encodings\<close>

text \<open>
  Modelled from the spec: "fixed-width integers in canonical byte order" (section 6). The
  canonical order is taken to be big-endian: \<open>be_bytes n v\<close> are the \<open>n\<close> low bytes
  of \<open>v\<close>, most significant first, and \<open>be_nat\<close> reads them back.
\<close>

fun be_bytes :: "nat \<Rightarrow> nat \<Rightarrow> byte list" where
  "be_bytes 0 v = []"
| "be_bytes (Suc n) v = be_bytes n (v div 256) @ [of_nat (v mod 256)]"

definition be_nat :: "byte list \<Rightarrow> nat" where
  "be_nat bs = foldl (\<lambda>a b. a * 256 + unat b) 0 bs"

text \<open>
  Modelled from the spec: "a primitive read that runs past the chunk's declared byte
  length fails with a corrupt-data condition" (section 4.1). The bytes a reader may
  still consume are the list it is given.
\<close>

definition SlReadBytes :: "nat \<Rightarrow> byte list \<Rightarrow> sl_error + (byte list \<times> byte list)" where
  "SlReadBytes n bs =
     (if length bs < n then Inl (SlErrorCorrupt ''read past the declared length'')
      else Inr (take n bs, drop n bs))"

definition SlReadUint :: "nat \<Rightarrow> byte list \<Rightarrow> sl_error + (nat \<times> byte list)" where
  "SlReadUint n bs =
     (case SlReadBytes n bs of
        Inl e \<Rightarrow> Inl e
      | Inr (xs, rest) \<Rightarrow> Inr (be_nat xs, rest))"

text \<open>
  Modelled from the spec: "strings as length-prefixed byte sequences bounded by a maximum
  configured length" (section 6); "a string field exceeding the configured maximum length
  fails with a corrupt-data condition that aborts the entire load" (section 4.1). The spec
  gives the prefix no width: it is taken to be four bytes, like every other length and
  index of this model. A \<^verbatim>\<open>std::string\<close> is a \<open>string\<close>, one \<open>char\<close> per byte.
\<close>

definition byte_of_char :: "char \<Rightarrow> byte" where
  "byte_of_char c = of_nat (of_char c)"

definition char_of_byte :: "byte \<Rightarrow> char" where
  "char_of_byte b = char_of (unat b)"

definition SlWriteString :: "string \<Rightarrow> byte list" where
  "SlWriteString s = be_bytes 4 (length s) @ map byte_of_char s"

definition SlReadString :: "nat \<Rightarrow> byte list \<Rightarrow> sl_error + (string \<times> byte list)" where
  "SlReadString maxlen bs =
     (case SlReadUint 4 bs of
        Inl e \<Rightarrow> Inl e
      | Inr (n, rest) \<Rightarrow>
          if maxlen < n then Inl (SlErrorCorrupt ''string exceeds the maximum length'')
          else (case SlReadBytes n rest of
                  Inl e \<Rightarrow> Inl e
                | Inr (xs, rest') \<Rightarrow> Inr (map char_of_byte xs, rest')))"

text \<open>
  Modelled from the spec: the primitive types of a field descriptor (section 3), of which
  the handler uses \<^verbatim>\<open>SLE_STR\<close>, \<^verbatim>\<open>SLE_UINT32\<close> and \<^verbatim>\<open>SLE_BOOL\<close>; the value a
  field holds; and the bytes of each: "booleans as single bytes with only 0/1 valid"
  (any other byte is read as corrupt-data), integers big-endian in their width.
\<close>

datatype VarType = SLE_BOOL | SLE_UINT8 | SLE_UINT16 | SLE_UINT32 | SLE_UINT64 | SLE_STR

datatype sl_value = VBool bool | VInt nat | VStr string

fun var_width :: "VarType \<Rightarrow> nat" where
  "var_width SLE_BOOL = 1"
| "var_width SLE_UINT8 = 1"
| "var_width SLE_UINT16 = 2"
| "var_width SLE_UINT32 = 4"
| "var_width SLE_UINT64 = 8"
| "var_width SLE_STR = 0"

fun SlWriteValue :: "VarType \<Rightarrow> sl_value \<Rightarrow> byte list" where
  "SlWriteValue SLE_BOOL v = (case v of VBool b \<Rightarrow> [if b then 1 else 0] | _ \<Rightarrow> [])"
| "SlWriteValue SLE_STR v = (case v of VStr s \<Rightarrow> SlWriteString s | _ \<Rightarrow> [])"
| "SlWriteValue ty v = (case v of VInt n \<Rightarrow> be_bytes (var_width ty) n | _ \<Rightarrow> [])"

fun SlReadValue :: "nat \<Rightarrow> VarType \<Rightarrow> byte list \<Rightarrow> sl_error + (sl_value \<times> byte list)" where
  "SlReadValue maxlen SLE_BOOL bs =
     (case SlReadUint 1 bs of
        Inl e \<Rightarrow> Inl e
      | Inr (n, rest) \<Rightarrow>
          if n = 0 then Inr (VBool False, rest)
          else if n = 1 then Inr (VBool True, rest)
          else Inl (SlErrorCorrupt ''invalid boolean''))"
| "SlReadValue maxlen SLE_STR bs =
     (case SlReadString maxlen bs of
        Inl e \<Rightarrow> Inl e
      | Inr (s, rest) \<Rightarrow> Inr (VStr s, rest))"
| "SlReadValue maxlen ty bs =
     (case SlReadUint (var_width ty) bs of
        Inl e \<Rightarrow> Inl e
      | Inr (n, rest) \<Rightarrow> Inr (VInt n, rest))"

text \<open>
  A value a field of type \<open>ty\<close> can hold and the stream can carry: the right kind, an
  integer within its width, a string within the maximum length.
\<close>

fun value_ok :: "nat \<Rightarrow> VarType \<Rightarrow> sl_value \<Rightarrow> bool" where
  "value_ok maxlen SLE_BOOL v = (case v of VBool b \<Rightarrow> True | _ \<Rightarrow> False)"
| "value_ok maxlen SLE_STR v = (case v of VStr s \<Rightarrow> length s \<le> maxlen | _ \<Rightarrow> False)"
| "value_ok maxlen ty v = (case v of VInt n \<Rightarrow> n < 256 ^ var_width ty | _ \<Rightarrow> False)"

subsection \<open>Field descriptors and the record engine\<close>

text \<open>
  Modelled from the spec: the FieldDescriptor of section 3, \<^verbatim>\<open>SaveLoad\<close> in the source:
  a name, a kind, a storage location (a typed accessor pair into the record, as section 9
  proposes), a primitive type and a version range. \<open>SL_NULL\<close> is the placeholder a
  removed field is bound to (section 4.2).
\<close>

datatype SaveLoadType = SL_VAR | SL_CONDVAR | SL_SSTR | SL_CONDSSTR | SL_NULL

record 'r SaveLoad =
  sl_name :: string
  sl_cmd :: SaveLoadType
  sl_conv :: VarType
  sl_get :: "'r \<Rightarrow> sl_value"
  sl_set :: "sl_value \<Rightarrow> 'r \<Rightarrow> 'r"
  version_from :: nat
  version_to :: nat

text \<open>
  Modelled from the spec: what the orchestrator supplies to a pass (section 6): the active
  version marker (the target version on save, the file's recorded version on load) and the
  configured maximum string length.
\<close>

record SaveLoadParams =
  sl_version :: nat
  sl_max_length :: nat

text \<open>
  Modelled from the spec: the gating rule of section 4.5, "a field is active iff
  validFrom \<le> activeVersion \<le> validUntil"; a plain field and a bound placeholder are
  always transcoded.
\<close>

definition is_conditional :: "'r SaveLoad \<Rightarrow> bool" where
  "is_conditional d = (sl_cmd d = SL_CONDVAR \<or> sl_cmd d = SL_CONDSSTR)"

definition SlIsObjectValidInSavegame :: "SaveLoadParams \<Rightarrow> 'r SaveLoad \<Rightarrow> bool" where
  "SlIsObjectValidInSavegame sl d =
     (if is_conditional d
      then version_from d \<le> sl_version sl \<and> sl_version sl \<le> version_to d
      else True)"

text \<open>
  Modelled from the spec: \<open>applyRecord\<close> of section 4.1, \<^verbatim>\<open>SlObject\<close> in the source,
  in its two directions. Save appends the bytes of every active field in table order;
  load overwrites the record's field from the stream. A field outside the active range is
  skipped in both. A placeholder writes nothing and, on load, consumes the bytes of its
  type and discards the value. A failing load leaves the fields read so far in the record.
\<close>

definition SlObjectMember_save :: "SaveLoadParams \<Rightarrow> 'r SaveLoad \<Rightarrow> 'r \<Rightarrow> byte list" where
  "SlObjectMember_save sl d r =
     (if SlIsObjectValidInSavegame sl d \<and> sl_cmd d \<noteq> SL_NULL
      then SlWriteValue (sl_conv d) (sl_get d r)
      else [])"

fun SlObject_save :: "SaveLoadParams \<Rightarrow> 'r SaveLoad list \<Rightarrow> 'r \<Rightarrow> byte list" where
  "SlObject_save sl [] r = []"
| "SlObject_save sl (d # ds) r = SlObjectMember_save sl d r @ SlObject_save sl ds r"

definition SlObjectMember_load ::
  "SaveLoadParams \<Rightarrow> 'r SaveLoad \<Rightarrow> 'r \<Rightarrow> byte list \<Rightarrow> sl_error + ('r \<times> byte list)" where
  "SlObjectMember_load sl d r bs =
     (if \<not> SlIsObjectValidInSavegame sl d then Inr (r, bs)
      else (case SlReadValue (sl_max_length sl) (sl_conv d) bs of
              Inl e \<Rightarrow> Inl e
            | Inr (v, rest) \<Rightarrow> Inr (if sl_cmd d = SL_NULL then r else sl_set d v r, rest)))"

fun SlObject_load ::
  "SaveLoadParams \<Rightarrow> 'r SaveLoad list \<Rightarrow> 'r \<Rightarrow> byte list \<Rightarrow> (sl_error \<times> 'r) + ('r \<times> byte list)" where
  "SlObject_load sl [] r bs = Inr (r, bs)"
| "SlObject_load sl (d # ds) r bs =
     (case SlObjectMember_load sl d r bs of
        Inl e \<Rightarrow> Inl (e, r)
      | Inr (r', rest) \<Rightarrow> SlObject_load sl ds r' rest)"

text \<open>
  Modelled from the spec: the descriptor macros of \<^verbatim>\<open>saveload.h\<close> the handler's tables
  are written with, by their kind in section 3 (plain string, conditional string,
  conditional variable), over an accessor pair for the global variable they name.
\<close>

definition SLEG_CONDSSTR ::
  "string \<Rightarrow> ('r \<Rightarrow> string) \<Rightarrow> (string \<Rightarrow> 'r \<Rightarrow> 'r) \<Rightarrow> nat \<Rightarrow> nat \<Rightarrow> 'r SaveLoad" where
  "SLEG_CONDSSTR name getv setv from to =
     \<lparr>sl_name = name, sl_cmd = SL_CONDSSTR, sl_conv = SLE_STR,
      sl_get = (\<lambda>r. VStr (getv r)),
      sl_set = (\<lambda>v r. case v of VStr s \<Rightarrow> setv s r | _ \<Rightarrow> r),
      version_from = from, version_to = to\<rparr>"

definition SLEG_SSTR ::
  "string \<Rightarrow> ('r \<Rightarrow> string) \<Rightarrow> (string \<Rightarrow> 'r \<Rightarrow> 'r) \<Rightarrow> 'r SaveLoad" where
  "SLEG_SSTR name getv setv = (SLEG_CONDSSTR name getv setv 0 0)\<lparr>sl_cmd := SL_SSTR\<rparr>"

definition SLEG_CONDVAR_UINT32 ::
  "string \<Rightarrow> ('r \<Rightarrow> cint) \<Rightarrow> (cint \<Rightarrow> 'r \<Rightarrow> 'r) \<Rightarrow> nat \<Rightarrow> nat \<Rightarrow> 'r SaveLoad" where
  "SLEG_CONDVAR_UINT32 name getv setv from to =
     \<lparr>sl_name = name, sl_cmd = SL_CONDVAR, sl_conv = SLE_UINT32,
      sl_get = (\<lambda>r. VInt (unat (getv r))),
      sl_set = (\<lambda>v r. case v of VInt n \<Rightarrow> setv (of_nat n) r | _ \<Rightarrow> r),
      version_from = from, version_to = to\<rparr>"

definition SLEG_CONDVAR_BOOL ::
  "string \<Rightarrow> ('r \<Rightarrow> bool) \<Rightarrow> (bool \<Rightarrow> 'r \<Rightarrow> 'r) \<Rightarrow> nat \<Rightarrow> nat \<Rightarrow> 'r SaveLoad" where
  "SLEG_CONDVAR_BOOL name getv setv from to =
     \<lparr>sl_name = name, sl_cmd = SL_CONDVAR, sl_conv = SLE_BOOL,
      sl_get = (\<lambda>r. VBool (getv r)),
      sl_set = (\<lambda>v r. case v of VBool b \<Rightarrow> setv b r | _ \<Rightarrow> r),
      version_from = from, version_to = to\<rparr>"

subsection \<open>Table headers and their resolution\<close>

text \<open>
  Modelled from the spec: the table header of section 6,
  \<^verbatim>\<open>[field_count][ for each: name_len, name, type_tag ]\<close>, written by
  \<^verbatim>\<open>SlTableHeader\<close> from the current descriptor table (section 4.3). The count is
  four bytes, a name is a string as above and the type tag is one byte; a tag that names no
  primitive type is corrupt-data.
\<close>

fun type_tag :: "VarType \<Rightarrow> nat" where
  "type_tag SLE_BOOL = 0"
| "type_tag SLE_UINT8 = 1"
| "type_tag SLE_UINT16 = 2"
| "type_tag SLE_UINT32 = 3"
| "type_tag SLE_UINT64 = 4"
| "type_tag SLE_STR = 5"

definition tag_type :: "nat \<Rightarrow> VarType option" where
  "tag_type t =
     (if t = 0 then Some SLE_BOOL else if t = 1 then Some SLE_UINT8
      else if t = 2 then Some SLE_UINT16 else if t = 3 then Some SLE_UINT32
      else if t = 4 then Some SLE_UINT64 else if t = 5 then Some SLE_STR else None)"

definition SlWriteTableField :: "string \<times> VarType \<Rightarrow> byte list" where
  "SlWriteTableField f = SlWriteString (fst f) @ be_bytes 1 (type_tag (snd f))"

definition SlTableHeader :: "'r SaveLoad list \<Rightarrow> byte list" where
  "SlTableHeader slt =
     be_bytes 4 (length slt) @ concat (map (\<lambda>d. SlWriteTableField (sl_name d, sl_conv d)) slt)"

fun SlReadTableFields ::
  "nat \<Rightarrow> nat \<Rightarrow> byte list \<Rightarrow> sl_error + ((string \<times> VarType) list \<times> byte list)" where
  "SlReadTableFields maxlen 0 bs = Inr ([], bs)"
| "SlReadTableFields maxlen (Suc n) bs =
     (case SlReadString maxlen bs of
        Inl e \<Rightarrow> Inl e
      | Inr (name, rest) \<Rightarrow>
          (case SlReadUint 1 rest of
             Inl e \<Rightarrow> Inl e
           | Inr (t, rest') \<Rightarrow>
               (case tag_type t of
                  None \<Rightarrow> Inl (SlErrorCorrupt ''unknown type tag'')
                | Some ty \<Rightarrow>
                    (case SlReadTableFields maxlen n rest' of
                       Inl e \<Rightarrow> Inl e
                     | Inr (fs, rest'') \<Rightarrow> Inr ((name, ty) # fs, rest'')))))"

definition SlReadTableHeader ::
  "nat \<Rightarrow> byte list \<Rightarrow> sl_error + ((string \<times> VarType) list \<times> byte list)" where
  "SlReadTableHeader maxlen bs =
     (case SlReadUint 4 bs of
        Inl e \<Rightarrow> Inl e
      | Inr (n, rest) \<Rightarrow> SlReadTableFields maxlen n rest)"

text \<open>
  Modelled from the spec: the compatibility history (sections 3 and 6), "a static,
  code-level table mapping old field name to removed-field placeholder",
  \<^verbatim>\<open>SaveLoadCompat\<close> in the source. An entry names a removed field; a field that still
  exists needs no entry. The placeholder a removed field is bound to takes its encoding
  from the header, which lists the encodings as they are in the save.
\<close>

datatype SaveLoadCompat = SLC_NULL (slc_name: string)

definition SlNullField :: "string \<Rightarrow> VarType \<Rightarrow> 'r SaveLoad" where
  "SlNullField name ty =
     \<lparr>sl_name = name, sl_cmd = SL_NULL, sl_conv = ty,
      sl_get = (\<lambda>r. VInt 0), sl_set = (\<lambda>v r. r),
      version_from = 0, version_to = 0\<rparr>"

text \<open>
  Modelled from the spec: \<open>resolveHeader\<close> of section 4.2. "For each listed name: if it
  matches a current descriptor, bind it; if it matches a known-removed historical name
  (looked up in compatHistory), bind it to a placeholder that consumes the correct byte
  width but discards the value; if it matches neither, fail with corrupt-data."
\<close>

definition SlResolveField ::
  "'r SaveLoad list \<Rightarrow> SaveLoadCompat list \<Rightarrow> string \<times> VarType \<Rightarrow> sl_error + 'r SaveLoad" where
  "SlResolveField slt slct f =
     (case find (\<lambda>d. sl_name d = fst f) slt of
        Some d \<Rightarrow> Inr d
      | None \<Rightarrow>
          if fst f \<in> set (map slc_name slct) then Inr (SlNullField (fst f) (snd f))
          else Inl (SlErrorCorrupt ''unknown field''))"

fun SlResolveHeader ::
  "'r SaveLoad list \<Rightarrow> SaveLoadCompat list \<Rightarrow> (string \<times> VarType) list \<Rightarrow>
   sl_error + 'r SaveLoad list" where
  "SlResolveHeader slt slct [] = Inr []"
| "SlResolveHeader slt slct (f # fs) =
     (case SlResolveField slt slct f of
        Inl e \<Rightarrow> Inl e
      | Inr d \<Rightarrow>
          (case SlResolveHeader slt slct fs of
             Inl e \<Rightarrow> Inl e
           | Inr ds \<Rightarrow> Inr (d # ds)))"

text \<open>
  Modelled from the spec: \<^verbatim>\<open>SlCompatTableHeader\<close>, the compatibility resolver of
  section 4.2 as the handler's \<^verbatim>\<open>Load()\<close> calls it: it reads the header off the
  stream and resolves it against the current table and the compatibility history.
\<close>

definition SlCompatTableHeader ::
  "SaveLoadParams \<Rightarrow> 'r SaveLoad list \<Rightarrow> SaveLoadCompat list \<Rightarrow> byte list \<Rightarrow>
   sl_error + ('r SaveLoad list \<times> byte list)" where
  "SlCompatTableHeader sp slt slct bs =
     (case SlReadTableHeader (sl_max_length sp) bs of
        Inl e \<Rightarrow> Inl e
      | Inr (fs, rest) \<Rightarrow>
          (case SlResolveHeader slt slct fs of
             Inl e \<Rightarrow> Inl e
           | Inr ds \<Rightarrow> Inr (ds, rest)))"

subsection \<open>Array iteration and length-prefixed records\<close>

text \<open>
  Modelled from the spec: section 4.4 and the layout of section 6: each record of an array
  chunk is \<^verbatim>\<open>[array_index][record_byte_length]\<close> followed by the body, and the
  reserved index \<open>- 1\<close> ends the array. Index and length are four bytes; the index
  \<open>- 1\<close> is the four bytes \<^verbatim>\<open>FF FF FF FF\<close>. \<^verbatim>\<open>SlSetArrayIndex\<close> and
  \<^verbatim>\<open>SlAutolength\<close> write one record; \<^verbatim>\<open>SlIterateArray\<close> reads the next index and
  hands out the record's body, so that reads of the record cannot run past its declared
  length and the next call continues after it whatever was consumed. The caller of
  \<^verbatim>\<open>SlIterateArray\<close> (line 88) receives an \<^verbatim>\<open>int\<close>: \<open>index_as_int\<close> is the four
  bytes read, taken as a signed 32-bit value.
\<close>

definition SL_ARRAY_END :: nat where
  "SL_ARRAY_END = 2 ^ 32 - 1"

definition SlSetArrayIndex :: "nat \<Rightarrow> byte list" where
  "SlSetArrayIndex index = be_bytes 4 index"

definition SlAutolength :: "byte list \<Rightarrow> byte list" where
  "SlAutolength body = be_bytes 4 (length body) @ body"

definition SlArrayEnd :: "byte list" where
  "SlArrayEnd = be_bytes 4 SL_ARRAY_END"

definition index_as_int :: "nat \<Rightarrow> int" where
  "index_as_int n = sint (word_of_nat n :: 32 word)"

definition SlIterateArray :: "byte list \<Rightarrow> sl_error + (int \<times> byte list \<times> byte list)" where
  "SlIterateArray bs =
     (case SlReadUint 4 bs of
        Inl e \<Rightarrow> Inl e
      | Inr (index, rest) \<Rightarrow>
          if index = SL_ARRAY_END then Inr (- 1, [], rest)
          else (case SlReadUint 4 rest of
                  Inl e \<Rightarrow> Inl e
                | Inr (len, rest') \<Rightarrow>
                    (case SlReadBytes len rest' of
                       Inl e \<Rightarrow> Inl e
                     | Inr (body, rest'') \<Rightarrow> Inr (index_as_int index, body, rest''))))"

lemma SlReadBytes_length:
  "SlReadBytes n bs = Inr (xs, rest) \<Longrightarrow> length xs = n \<and> length rest + n = length bs"
  by (auto simp: SlReadBytes_def split: if_splits)

lemma SlReadUint_length:
  "SlReadUint n bs = Inr (v, rest) \<Longrightarrow> length rest + n = length bs"
  by (auto simp: SlReadUint_def split: sum.splits dest: SlReadBytes_length)

lemma SlIterateArray_shorter:
  "SlIterateArray bs = Inr (index, body, rest) \<Longrightarrow> length rest < length bs"
  by (auto simp: SlIterateArray_def split: sum.splits if_splits
      dest!: SlReadUint_length SlReadBytes_length)

text \<open>
  The bytes of a sequence of records, each written as \<^verbatim>\<open>SlSetArrayIndex\<close> and
  \<^verbatim>\<open>SlAutolength\<close> write one, in the order of the list.
\<close>

fun SlWriteArray :: "(nat \<times> byte list) list \<Rightarrow> byte list" where
  "SlWriteArray [] = []"
| "SlWriteArray (r # rs) = SlSetArrayIndex (fst r) @ SlAutolength (snd r) @ SlWriteArray rs"

subsection \<open>Well-formed tables and populated records\<close>

text \<open>
  Modelled from the spec: the storage locations of a table are the fields of one record
  (section 3). Two descriptors are independent when writing through the first leaves what
  the second reads unchanged; in a well-formed table each descriptor reads back what was
  written through it, no descriptor is a placeholder, and the descriptors are pairwise
  independent. A record is populated when every active field holds a value its primitive
  type can carry.
\<close>

definition independent :: "'r SaveLoad \<Rightarrow> 'r SaveLoad \<Rightarrow> bool" where
  "independent d d' = (\<forall>v r. sl_get d' (sl_set d v r) = sl_get d' r)"

fun table_ok :: "nat \<Rightarrow> 'r SaveLoad list \<Rightarrow> bool" where
  "table_ok maxlen [] = True"
| "table_ok maxlen (d # ds) =
     (sl_cmd d \<noteq> SL_NULL \<and>
      (\<forall>v r. value_ok maxlen (sl_conv d) v \<longrightarrow> sl_get d (sl_set d v r) = v) \<and>
      (\<forall>d' \<in> set ds. independent d d' \<and> independent d' d) \<and>
      table_ok maxlen ds)"

definition populated :: "SaveLoadParams \<Rightarrow> 'r SaveLoad list \<Rightarrow> 'r \<Rightarrow> bool" where
  "populated sl ds r =
     (\<forall>d \<in> set ds. SlIsObjectValidInSavegame sl d \<longrightarrow> value_ok (sl_max_length sl) (sl_conv d) (sl_get d r))"

section \<open>The handler's tables (\<^verbatim>\<open>ai_sl.cpp\<close>, lines 26 to 42)\<close>

text \<open>The four staging variables \<^verbatim>\<open>_ai_saveload_*\<close> of lines 26 to 29.\<close>

record ai_saveload =
  ai_saveload_name :: string
  ai_saveload_version :: cint
  ai_saveload_settings :: string
  ai_saveload_is_random :: bool

text \<open>
  Modelled from the spec: the version constants of \<^verbatim>\<open>saveload.h\<close>. \<^verbatim>\<open>SLV_108\<close> and
  \<^verbatim>\<open>SLV_136\<close> are the versions their names carry ("a field introduced in version 108",
  section 4.1). The values of \<^verbatim>\<open>SLV_AI_LOCAL_CONFIG\<close> and \<^verbatim>\<open>SL_MAX_VERSION\<close> are
  parameters.
\<close>

definition SLV_108 :: nat where
  "SLV_108 = 108"

definition SLV_136 :: nat where
  "SLV_136 = 136"

record saveload_h =
  SLV_AI_LOCAL_CONFIG :: nat
  SL_MAX_VERSION :: nat

text \<open>\<^verbatim>\<open>_ai_company_desc\<close>, lines 31 to 36.\<close>

definition ai_company_desc :: "'a saveload_h_scheme \<Rightarrow> ai_saveload SaveLoad list" where
  "ai_company_desc h =
     [SLEG_SSTR ''name'' ai_saveload_name (\<lambda>x r. r\<lparr>ai_saveload_name := x\<rparr>),
      SLEG_SSTR ''settings'' ai_saveload_settings (\<lambda>x r. r\<lparr>ai_saveload_settings := x\<rparr>),
      SLEG_CONDVAR_UINT32 ''version'' ai_saveload_version (\<lambda>x r. r\<lparr>ai_saveload_version := x\<rparr>)
        SLV_108 (SL_MAX_VERSION h),
      SLEG_CONDVAR_BOOL ''is_random'' ai_saveload_is_random (\<lambda>x r. r\<lparr>ai_saveload_is_random := x\<rparr>)
        SLV_136 (SLV_AI_LOCAL_CONFIG h)]"

text \<open>\<^verbatim>\<open>_ai_running_desc\<close>, lines 38 to 42.\<close>

definition ai_running_desc :: "'a saveload_h_scheme \<Rightarrow> ai_saveload SaveLoad list" where
  "ai_running_desc h =
     [SLEG_CONDSSTR ''running_name'' ai_saveload_name (\<lambda>x r. r\<lparr>ai_saveload_name := x\<rparr>)
        (SLV_AI_LOCAL_CONFIG h) (SL_MAX_VERSION h),
      SLEG_CONDSSTR ''running_settings'' ai_saveload_settings (\<lambda>x r. r\<lparr>ai_saveload_settings := x\<rparr>)
        (SLV_AI_LOCAL_CONFIG h) (SL_MAX_VERSION h),
      SLEG_CONDVAR_UINT32 ''running_version'' ai_saveload_version (\<lambda>x r. r\<lparr>ai_saveload_version := x\<rparr>)
        (SLV_AI_LOCAL_CONFIG h) (SL_MAX_VERSION h)]"

section \<open>The handler's collaborators\<close>

text \<open>
  Modelled from the spec: the collaborator \<^verbatim>\<open>AIConfig\<close> (\<^verbatim>\<open>ai/ai_config.hpp\<close>, not
  among the sources), "a configuration object and its string-encoded settings blob"
  (section 1), reduced to what the handler calls and what its comments say of it: a
  configuration names a script and a version and may or may not hold a script
  (\<^verbatim>\<open>HasScript\<close>); \<^verbatim>\<open>Change(nullopt)\<close> makes it "a random AI" (line 105);
  \<^verbatim>\<open>Change(name, version)\<close> configures the script the scanner finds under that
  name and version, and version \<open>- 1\<close> asks for "the latest version of the AI"
  (lines 110 and 111); every \<^verbatim>\<open>Change\<close> drops the settings and the data to load.
  A script is known by its name and version; the scanner is the parameter
  \<open>FindInfo\<close> of the environment below.
\<close>

type_synonym ScriptInfo = "string \<times> cint"

type_synonym ScriptData = "byte list"

record AIConfig =
  cfg_name :: string
  cfg_version :: cint
  cfg_info :: "ScriptInfo option"
  cfg_settings :: string
  cfg_to_load_data :: "ScriptData option"

definition new_AIConfig :: AIConfig where
  "new_AIConfig =
     \<lparr>cfg_name = [], cfg_version = - 1, cfg_info = None, cfg_settings = [],
      cfg_to_load_data = None\<rparr>"

definition Change ::
  "(string \<Rightarrow> cint \<Rightarrow> bool \<Rightarrow> ScriptInfo option) \<Rightarrow>
   string option \<Rightarrow> cint \<Rightarrow> bool \<Rightarrow> AIConfig \<Rightarrow> AIConfig" where
  "Change find_info name version force_exact_match config =
     (case name of
        Some n \<Rightarrow>
          (let info = find_info n version force_exact_match in
           \<lparr>cfg_name = n,
            cfg_version = (case info of None \<Rightarrow> - 1 | Some i \<Rightarrow> snd i),
            cfg_info = info, cfg_settings = [], cfg_to_load_data = None\<rparr>)
      | None \<Rightarrow>
          \<lparr>cfg_name = cfg_name config, cfg_version = - 1, cfg_info = None,
           cfg_settings = [], cfg_to_load_data = None\<rparr>)"

definition HasScript :: "AIConfig \<Rightarrow> bool" where
  "HasScript config = (cfg_info config \<noteq> None)"




definition StringToSettings :: "string \<Rightarrow> AIConfig \<Rightarrow> AIConfig" where
  "StringToSettings s config = config\<lparr>cfg_settings := s\<rparr>"

definition SetToLoadData :: "ScriptData option \<Rightarrow> AIConfig \<Rightarrow> AIConfig" where
  "SetToLoadData d config = config\<lparr>cfg_to_load_data := d\<rparr>"

text \<open>
  Modelled from the spec: a company as the handler sees it (\<^verbatim>\<open>company_base.h\<close>, not
  among the sources): whether it is run by an AI, and its own configuration, a
  \<^verbatim>\<open>unique_ptr\<close> that may be null.
\<close>

record Company =
  is_ai :: bool
  ai_config :: "AIConfig option"

text \<open>The lines \<^verbatim>\<open>Debug(script, 0, ...)\<close> of the handler, one constructor each.\<close>

datatype debug_msg =
    Dbg_no_longer_available string cint
  | Dbg_switched_to_random
  | Dbg_latest_configured
  | Dbg_random_other_loaded
  | Dbg_no_ais_at_saving
  | Dbg_random_available_loaded
  | Dbg_latest_loaded_without_data

text \<open>
  The process-wide state the handler reads and writes: the staging variables, the game's
  configuration slots \<^verbatim>\<open>AIConfig::GetConfig(c, SSS_FORCE_GAME)\<close>, one per company
  index, the companies, and the debug output so far.
\<close>

record world =
  staged :: ai_saveload
  script_config_ai :: "nat \<Rightarrow> AIConfig"
  companies :: "nat \<Rightarrow> Company option"
  debug_out :: "debug_msg list"

text \<open>
  What the handler takes from its surroundings and does not change: the constants
  \<^verbatim>\<open>SLV_AI_LOCAL_CONFIG\<close>, \<^verbatim>\<open>SL_MAX_VERSION\<close> and \<^verbatim>\<open>MAX_COMPANIES\<close>, the
  width in bits of the type \<^verbatim>\<open>CompanyID\<close>, taken to be an unsigned integer type
  (\<^verbatim>\<open>company_type.h\<close>) that holds \<^verbatim>\<open>MAX_COMPANIES\<close> and counts from 0
  (\<^verbatim>\<open>CompanyID::Begin()\<close>), the parameters of the pass, \<^verbatim>\<open>_game_mode\<close>, \<^verbatim>\<open>_networking\<close> and
  \<^verbatim>\<open>_network_server\<close>, the script scanner, the AI instance's own reader and writer
  of its nested data (\<^verbatim>\<open>AIInstance::Load\<close>, \<^verbatim>\<open>AIInstance::LoadEmpty\<close>,
  \<^verbatim>\<open>AI::Save\<close>; each sees the bytes left in the record) and the compatibility table
  \<^verbatim>\<open>_ai_company_sl_compat\<close> of \<^verbatim>\<open>compat/ai_sl_compat.h\<close>. None of them is among
  the sources, so they are parameters.
\<close>

datatype GameMode = GM_MENU | GM_NORMAL | GM_EDITOR

record env = saveload_h +
  sl_params :: SaveLoadParams
  MAX_COMPANIES :: nat
  CompanyID_bits :: nat
  game_mode :: GameMode
  networking :: bool
  network_server :: bool
  FindInfo :: "string \<Rightarrow> cint \<Rightarrow> bool \<Rightarrow> ScriptInfo option"
  AIInstance_Load :: "cint \<Rightarrow> byte list \<Rightarrow> sl_error + ScriptData option"
  AIInstance_LoadEmpty :: "byte list \<Rightarrow> sl_error + unit"
  AI_Save :: "nat \<Rightarrow> byte list"
  ai_company_sl_compat :: "SaveLoadCompat list"

text \<open>
  Modelled from the spec: the accessors of the collaborators that the handler calls
  (\<^verbatim>\<open>company_base.h\<close> and \<^verbatim>\<open>ai/ai_config.hpp\<close>, not among the sources).
  \<^verbatim>\<open>Company::IsValidAiID(index)\<close> holds of a company that exists and is run by an AI.
\<close>

definition IsValidAiID :: "world \<Rightarrow> nat \<Rightarrow> bool" where
  "IsValidAiID w index = (case companies w index of None \<Rightarrow> False | Some c \<Rightarrow> is_ai c)"


definition set_company_config :: "nat \<Rightarrow> AIConfig \<Rightarrow> world \<Rightarrow> world" where
  "set_company_config index config w =
     (case companies w index of
        None \<Rightarrow> w
      | Some c \<Rightarrow> w\<lparr>companies := (companies w)(index := Some (c\<lparr>ai_config := Some config\<rparr>))\<rparr>)"

section \<open>\<^verbatim>\<open>SaveReal_AIPL\<close> and \<^verbatim>\<open>AIPLChunkHandler::Save\<close> (lines 44 to 73 and 159 to 167)\<close>




section \<open>\<^verbatim>\<open>AIPLChunkHandler::Load\<close> (lines 78 to 157)\<close>

text \<open>
  A failing load is \<open>Inl (e, w)\<close>: the error thrown and the state at the throw, since
  the handler writes to global state as it goes and the exception undoes nothing.
\<close>

type_synonym load_result = "(sl_error \<times> world) + world"

text \<open>Lines 83 to 85: every slot below \<^verbatim>\<open>MAX_COMPANIES\<close> is changed to no script.\<close>

definition Load_free_all :: "env \<Rightarrow> world \<Rightarrow> world" where
  "Load_free_all env w =
     w\<lparr>script_config_ai :=
         (\<lambda>c. if c < MAX_COMPANIES env
              then Change (FindInfo env) None (- 1) False (script_config_ai w c)
              else script_config_ai w c)\<rparr>"

text \<open>Lines 91 to 93: the two defaults, then the record's fields by the resolved table.\<close>

definition Load_fields ::
  "env \<Rightarrow> ai_saveload SaveLoad list \<Rightarrow> byte list \<Rightarrow> world \<Rightarrow> (sl_error \<times> world) + (world \<times> byte list)" where
  "Load_fields env slt body w =
     (let st = (staged w)\<lparr>ai_saveload_is_random := False, ai_saveload_version := - 1\<rparr>
      in case SlObject_load (sl_params env) slt st body of
           Inl (e, st') \<Rightarrow> Inl (e, w\<lparr>staged := st'\<rparr>)
         | Inr (st', body') \<Rightarrow> Inr (w\<lparr>staged := st'\<rparr>, body'))"

text \<open>Lines 96 to 99: in the menu and on a network client, the running data is skipped.\<close>

definition Load_skip :: "env \<Rightarrow> nat \<Rightarrow> byte list \<Rightarrow> world \<Rightarrow> load_result" where
  "Load_skip env index body w =
     (if IsValidAiID w index
      then (case SlObject_load (sl_params env) (ai_running_desc env) (staged w) body of
              Inl (e, st) \<Rightarrow> Inl (e, w\<lparr>staged := st\<rparr>)
            | Inr (st, body') \<Rightarrow>
                (case AIInstance_LoadEmpty env body' of
                   Inl e \<Rightarrow> Inl (e, w\<lparr>staged := st\<rparr>)
                 | Inr u \<Rightarrow> Inr (w\<lparr>staged := st\<rparr>)))
      else Inr w)"

text \<open>Lines 103 to 124: the game's slot for the index is configured from the staged values.\<close>

definition Load_config :: "env \<Rightarrow> nat \<Rightarrow> world \<Rightarrow> world" where
  "Load_config env index w =
     (let name = ai_saveload_name (staged w);
          version = ai_saveload_version (staged w);
          config = script_config_ai w index;
          configured =
            (if name = [] \<or> ai_saveload_is_random (staged w)
             then (Change (FindInfo env) None (- 1) False config, [])
             else
               (let config1 = Change (FindInfo env) (Some name) version False config
                in if \<not> HasScript config1
                   then
                     (let config2 = Change (FindInfo env) (Some name) (- 1) False config1
                      in if \<not> HasScript config2
                         then (config2,
                               if name \<noteq> ''%_dummy''
                               then [Dbg_no_longer_available name version, Dbg_switched_to_random]
                               else [])
                         else (config2,
                               [Dbg_no_longer_available name version, Dbg_latest_configured]))
                   else (config1, [])))
      in w\<lparr>script_config_ai :=
             (script_config_ai w)
               (index := StringToSettings (ai_saveload_settings (staged w)) (fst configured)),
           debug_out := debug_out w @ snd configured\<rparr>)"

text \<open>
  Lines 129 to 155: the running AI's record, its company's fresh configuration, and the
  AI's own data, read by \<^verbatim>\<open>AIInstance::Load\<close> with the staged version.
\<close>

definition Load_running :: "env \<Rightarrow> nat \<Rightarrow> byte list \<Rightarrow> world \<Rightarrow> load_result" where
  "Load_running env index body w =
     (case SlObject_load (sl_params env) (ai_running_desc env) (staged w) body of
        Inl (e, st) \<Rightarrow> Inl (e, w\<lparr>staged := st\<rparr>)
      | Inr (st, body') \<Rightarrow>
          (let name = ai_saveload_name st;
               version = ai_saveload_version st;
               config1 = Change (FindInfo env) (Some name) version False new_AIConfig;
               config2 = Change (FindInfo env) (Some name) (- 1) False config1;
               config = (if \<not> HasScript config1 then config2 else config1);
               msgs =
                 (if \<not> HasScript config1
                  then (if \<not> HasScript config2
                        then (if name \<noteq> ''%_dummy''
                              then [Dbg_no_longer_available name version, Dbg_random_other_loaded]
                              else [Dbg_no_ais_at_saving, Dbg_random_available_loaded])
                        else [Dbg_no_longer_available name version, Dbg_latest_loaded_without_data])
                  else []);
               st' = (if \<not> HasScript config1 then st\<lparr>ai_saveload_version := - 1\<rparr> else st);
               config' = StringToSettings (ai_saveload_settings st') config;
               w' = (set_company_config index config' w)
                      \<lparr>staged := st', debug_out := debug_out w @ msgs\<rparr>
           in case AIInstance_Load env (ai_saveload_version st') body' of
                Inl e \<Rightarrow> Inl (e, w')
              | Inr d \<Rightarrow> Inr (set_company_config index (SetToLoadData d config') w')))"

text \<open>
  The cast \<^verbatim>\<open>(CompanyID)\<close> of line 88: an \<^verbatim>\<open>int\<close> is narrowed to the unsigned type of
  \<^verbatim>\<open>CompanyID_bits\<close> bits, so \<^verbatim>\<open>(CompanyID)-1\<close> is the largest value of the type.
\<close>

definition CompanyID_cast :: "env \<Rightarrow> int \<Rightarrow> nat" where
  "CompanyID_cast env i = nat (i mod 2 ^ CompanyID_bits env)"

text \<open>
  The body of the loop, lines 89 to 155, for the narrowed index and the record body that
  \<^verbatim>\<open>SlIterateArray\<close> handed out.
\<close>

definition Load_record ::
  "env \<Rightarrow> ai_saveload SaveLoad list \<Rightarrow> nat \<Rightarrow> byte list \<Rightarrow> world \<Rightarrow> load_result" where
  "Load_record env slt index body w =
     (if MAX_COMPANIES env \<le> index
      then Inl (SlErrorCorrupt ''Too many AI configs'', w)
      else (case Load_fields env slt body w of
              Inl ew \<Rightarrow> Inl ew
            | Inr (w1, body1) \<Rightarrow>
                if game_mode env = GM_MENU \<or> (networking env \<and> \<not> network_server env)
                then Load_skip env index body1 w1
                else
                  (let w2 = Load_config env index w1
                   in if \<not> IsValidAiID w2 index then Inr w2
                      else Load_running env index body1 w2)))"

text \<open>
  The loop of line 88: the value \<^verbatim>\<open>SlIterateArray\<close> returns is narrowed to
  \<^verbatim>\<open>CompanyID\<close>, and records are taken until the narrowed index is
  \<^verbatim>\<open>(CompanyID)-1\<close>.
\<close>

function Load_loop :: "env \<Rightarrow> ai_saveload SaveLoad list \<Rightarrow> byte list \<Rightarrow> world \<Rightarrow> load_result" where
  "Load_loop env slt bs w =
     (case SlIterateArray bs of
        Inl e \<Rightarrow> Inl (e, w)
      | Inr (i, body, rest) \<Rightarrow>
          if CompanyID_cast env i = CompanyID_cast env (- 1) then Inr w
          else (case Load_record env slt (CompanyID_cast env i) body w of
                  Inl ew \<Rightarrow> Inl ew
                | Inr w' \<Rightarrow> Load_loop env slt rest w'))"
  by pat_completeness auto
termination
  by (relation "measure (\<lambda>(env, slt, bs, w). length bs)") (auto dest: SlIterateArray_shorter)

declare Load_loop.simps [simp del]

text \<open>\<^verbatim>\<open>Load()\<close>: the header is resolved, every slot is freed, the records are read.\<close>

definition Load :: "env \<Rightarrow> byte list \<Rightarrow> world \<Rightarrow> load_result" where
  "Load env bs w =
     (case SlCompatTableHeader (sl_params env) (ai_company_desc env) (ai_company_sl_compat env) bs of
        Inl e \<Rightarrow> Inl (e, w)
      | Inr (slt, rest) \<Rightarrow> Load_loop env slt rest (Load_free_all env w))"

section \<open>Two runs of the loop side by side\<close>

text \<open>
  Notions used to compare a load with a second load of the same chunk. Two configurations
  agree apart from the name; two states are alike when they have the same companies, of
  the same kind, and their slots agree apart from the name. Two runs that start in
  \<open>a\<close> and \<open>b\<close> and reach \<open>a'\<close> and \<open>b'\<close> converge when the states reached are
  alike and each of the staging variables, the slots' names and the companies' own
  configurations is either the same in both or was left as it was in both.
\<close>

definition same_cfg_rest :: "AIConfig \<Rightarrow> AIConfig \<Rightarrow> bool" where
  "same_cfg_rest c c' = (c\<lparr>cfg_name := []\<rparr> = c'\<lparr>cfg_name := []\<rparr>)"

definition company_kind :: "world \<Rightarrow> nat \<Rightarrow> bool option" where
  "company_kind w i = map_option is_ai (companies w i)"

definition company_config :: "world \<Rightarrow> nat \<Rightarrow> AIConfig option" where
  "company_config w i = (case companies w i of None \<Rightarrow> None | Some c \<Rightarrow> ai_config c)"

definition alike :: "world \<Rightarrow> world \<Rightarrow> bool" where
  "alike a b =
     ((\<forall>i. company_kind a i = company_kind b i) \<and>
      (\<forall>c. same_cfg_rest (script_config_ai a c) (script_config_ai b c)))"

definition converge :: "world \<Rightarrow> world \<Rightarrow> world \<Rightarrow> world \<Rightarrow> bool" where
  "converge a b a' b' =
     (alike a' b' \<and>
      (staged a' = staged b' \<or> (staged a' = staged a \<and> staged b' = staged b)) \<and>
      (\<forall>c. cfg_name (script_config_ai a' c) = cfg_name (script_config_ai b' c) \<or>
           (cfg_name (script_config_ai a' c) = cfg_name (script_config_ai a c) \<and>
            cfg_name (script_config_ai b' c) = cfg_name (script_config_ai b c))) \<and>
      (\<forall>i. company_config a' i = company_config b' i \<or>
           (company_config a' i = company_config a i \<and>
            company_config b' i = company_config b i)))"

text \<open>
  A resolved table loads the fields \<^verbatim>\<open>name\<close> and \<^verbatim>\<open>settings\<close> when it holds the
  current descriptors of these names, as every table resolved from a header written by
  \<^verbatim>\<open>Save()\<close> does.
\<close>

definition loads_field :: "'a saveload_h_scheme \<Rightarrow> ai_saveload SaveLoad list \<Rightarrow> string \<Rightarrow> bool" where
  "loads_field h slt name = (\<exists>d \<in> set slt. d \<in> set (ai_company_desc h) \<and> sl_name d = name)"

section \<open>Records applied one after another\<close>


text \<open>The state a load leaves, failed or not.\<close>

definition state_after :: "load_result \<Rightarrow> world" where
  "state_after r = (case r of Inl ew \<Rightarrow> snd ew | Inr w \<Rightarrow> w)"
section \<open>Sample inputs\<close>

text \<open>Concrete values the theorems below are evaluated at.\<close>

definition sample_h :: saveload_h where
  "sample_h = \<lparr>SLV_AI_LOCAL_CONFIG = 332, SL_MAX_VERSION = 65535\<rparr>"

definition sample_staging :: ai_saveload where
  "sample_staging = \<lparr>ai_saveload_name = ''AdmiralAI'', ai_saveload_version = 25,
     ai_saveload_settings = ''a=1'', ai_saveload_is_random = True\<rparr>"

definition empty_staging :: ai_saveload where
  "empty_staging = \<lparr>ai_saveload_name = [], ai_saveload_version = - 1,
     ai_saveload_settings = [], ai_saveload_is_random = False\<rparr>"

definition sample_FindInfo :: "string \<Rightarrow> cint \<Rightarrow> bool \<Rightarrow> ScriptInfo option" where
  "sample_FindInfo name version force_exact_match =
     (if name = ''AdmiralAI'' \<and> (version = 25 \<or> version = - 1)
      then Some (''AdmiralAI'', 25) else None)"

definition sample_env :: env where
  "sample_env =
     \<lparr>SLV_AI_LOCAL_CONFIG = 332, SL_MAX_VERSION = 65535,
      sl_params = \<lparr>sl_version = 340, sl_max_length = 255\<rparr>,
      MAX_COMPANIES = 15, CompanyID_bits = 8, game_mode = GM_NORMAL, networking = False, network_server = False,
      FindInfo = sample_FindInfo,
      AIInstance_Load = (\<lambda>version bs. Inr (if version = - 1 then None else Some bs)),
      AIInstance_LoadEmpty = (\<lambda>bs. Inr ()),
      AI_Save = (\<lambda>index. []),
      ai_company_sl_compat = [SLC_NULL ''difficulty'']\<rparr>"

definition sample_world :: world where
  "sample_world =
     \<lparr>staged = sample_staging,
      script_config_ai = (\<lambda>c. new_AIConfig\<lparr>cfg_name := ''Old''\<rparr>),
      companies = (\<lambda>c. if c = 1 then Some \<lparr>is_ai = True, ai_config = None\<rparr> else None),
      debug_out = []\<rparr>"

definition sample_running_staging :: ai_saveload where
  "sample_running_staging = \<lparr>ai_saveload_name = ''AdmiralAI'', ai_saveload_version = 7,
     ai_saveload_settings = ''a=1'', ai_saveload_is_random = False\<rparr>"

definition sample_running_body :: "byte list" where
  "sample_running_body =
     SlObject_save (sl_params sample_env) (ai_running_desc sample_env) sample_running_staging @ [1, 2, 3]"

definition menu_env :: env where
  "menu_env = sample_env\<lparr>game_mode := GM_MENU\<rparr>"

definition sample_old_staging :: ai_saveload where
  "sample_old_staging = \<lparr>ai_saveload_name = ''AdmiralAI'', ai_saveload_version = 7,
     ai_saveload_settings = ''a=1'', ai_saveload_is_random = False\<rparr>"

definition sample_company_body :: "byte list" where
  "sample_company_body =
     SlObject_save (sl_params sample_env) (ai_company_desc sample_env) sample_old_staging"

definition sample_chunk :: "byte list" where
  "sample_chunk =
     SlTableHeader (ai_company_desc sample_env) @
     SlSetArrayIndex 0 @ SlAutolength sample_company_body @ SlArrayEnd"

definition old_env :: env where
  "old_env = sample_env\<lparr>sl_params := \<lparr>sl_version = 100, sl_max_length = 255\<rparr>\<rparr>"

definition old_company_body :: "byte list" where
  "old_company_body = SlObject_save (sl_params old_env) (ai_company_desc old_env) sample_old_staging"

definition bad_chunk :: "byte list" where
  "bad_chunk =
     SlTableHeader (ai_company_desc sample_env) @
     SlWriteArray [(0, sample_company_body)] @ SlSetArrayIndex 15 @ SlAutolength [] @ SlArrayEnd"

definition sample_loaded :: world where
  "sample_loaded =
     (Load_free_all sample_env sample_world)
       \<lparr>staged := sample_old_staging,
        script_config_ai := (script_config_ai (Load_free_all sample_env sample_world))
          (0 := \<lparr>cfg_name = ''AdmiralAI'', cfg_version = 25,
                 cfg_info = Some (''AdmiralAI'', 25), cfg_settings = ''a=1'',
                 cfg_to_load_data = None\<rparr>),
        debug_out := [Dbg_no_longer_available ''AdmiralAI'' 7, Dbg_latest_configured]\<rparr>"

text \<open>
  A chunk whose header lists the field \<^verbatim>\<open>settings\<close> only, with one record for
  company 1 and its running data.
\<close>

definition settings_desc :: "ai_saveload SaveLoad" where
  "settings_desc = SLEG_SSTR ''settings'' ai_saveload_settings (\<lambda>x r. r\<lparr>ai_saveload_settings := x\<rparr>)"

definition stale_header :: "byte list" where
  "stale_header = be_bytes 4 1 @ SlWriteTableField (''settings'', SLE_STR)"

definition stale_running :: ai_saveload where
  "stale_running = \<lparr>ai_saveload_name = ''AdmiralAI'', ai_saveload_version = 25,
     ai_saveload_settings = ''b=2'', ai_saveload_is_random = False\<rparr>"

definition stale_body :: "byte list" where
  "stale_body =
     SlWriteString ''a=1'' @
     SlObject_save (sl_params sample_env) (ai_running_desc sample_env) stale_running @ [1, 2, 3]"

definition stale_chunk :: "byte list" where
  "stale_chunk = stale_header @ SlSetArrayIndex 1 @ SlAutolength stale_body @ SlArrayEnd"

definition stale_world :: world where
  "stale_world = sample_world\<lparr>staged := sample_staging\<lparr>ai_saveload_name := ''Zed''\<rparr>\<rparr>"

definition stale_once :: world where
  "stale_once = state_after (Load sample_env stale_chunk stale_world)"

definition stale_twice :: world where
  "stale_twice = state_after (Load sample_env stale_chunk stale_once)"

definition bogus_chunk :: "byte list" where
  "bogus_chunk =
     be_bytes 4 2 @ SlWriteTableField (''name'', SLE_STR) @ SlWriteTableField (''bogus'', SLE_BOOL) @
     SlSetArrayIndex 0 @ SlAutolength sample_company_body @ SlArrayEnd"

text \<open>
  A network client, a record for company 1 with its running data, a record under the index
  256, and records under the indices 0, 3 and 7 followed by a byte that is not read.
\<close>

definition client_env :: env where
  "client_env = sample_env\<lparr>networking := True, network_server := False\<rparr>"

definition running_record :: "byte list" where
  "running_record = sample_company_body @ sample_running_body"






section \<open>Properties of the encodings and of the record engine\<close>

lemma length_be_bytes [simp]: "length (be_bytes n v) = n"
  by (induction n arbitrary: v) auto

lemma be_nat_snoc: "be_nat (xs @ [b]) = be_nat xs * 256 + unat b"
  by (simp add: be_nat_def)

lemma be_nat_be_bytes: "be_nat (be_bytes n v) = v mod 256 ^ n"
proof (induction n arbitrary: v)
  case 0
  then show ?case by (simp add: be_nat_def)
next
  case (Suc n)
  have "unat (of_nat (v mod 256) :: byte) = v mod 256"
    by (simp add: unat_of_nat)
  then show ?case
    using Suc mod_mult2_eq[of v 256 "256 ^ n"] by (simp add: be_nat_snoc)
qed

lemma char_of_byte_of_char [simp]: "char_of_byte (byte_of_char c) = c"
  by (simp add: char_of_byte_def byte_of_char_def unat_of_nat)

lemma SlReadBytes_append: "SlReadBytes (length xs) (xs @ ys) = Inr (xs, ys)"
  by (simp add: SlReadBytes_def)

lemma SlReadUint_be_bytes:
  "v < 256 ^ n \<Longrightarrow> SlReadUint n (be_bytes n v @ ys) = Inr (v, ys)"
  using SlReadBytes_append[of "be_bytes n v" ys]
  by (simp add: SlReadUint_def be_nat_be_bytes)

lemma SlReadString_SlWriteString:
  "length s \<le> maxlen \<Longrightarrow> length s < 256 ^ 4 \<Longrightarrow>
   SlReadString maxlen (SlWriteString s @ ys) = Inr (s, ys)"
  using SlReadBytes_append[of "map byte_of_char s" ys]
  by (simp add: SlReadString_def SlWriteString_def SlReadUint_be_bytes comp_def)

lemma SlReadValue_SlWriteValue:
  assumes "value_ok maxlen ty v" and "maxlen < 256 ^ 4"
  shows "SlReadValue maxlen ty (SlWriteValue ty v @ ys) = Inr (v, ys)"
proof (cases v)
  case (VBool b)
  then show ?thesis using assms
    by (cases ty) (simp_all add: SlReadUint_def SlReadBytes_def be_nat_def)
next
  case (VStr s)
  then show ?thesis using assms
    by (cases ty) (simp_all add: SlReadString_SlWriteString)
next
  case (VInt n)
  then show ?thesis using assms
    by (cases ty) (simp_all add: SlReadUint_be_bytes del: be_bytes.simps)
qed

lemma be_bytes_4:
  "be_bytes 4 v = [of_nat (v div 256 div 256 div 256 mod 256), of_nat (v div 256 div 256 mod 256),
     of_nat (v div 256 mod 256), of_nat (v mod 256)]"
proof -
  have "(4::nat) = Suc (Suc (Suc (Suc 0)))" by simp
  then show ?thesis by (simp only: be_bytes.simps append.simps)
qed

lemma SlObject_load_frame:
  assumes "SlObject_load sl ds r0 bs = Inr (r', rest)"
    and "\<forall>d \<in> set ds. SlIsObjectValidInSavegame sl d \<and> sl_cmd d \<noteq> SL_NULL \<longrightarrow> (\<forall>v r. f (sl_set d v r) = f r)"
  shows "f r' = f r0"
  using assms
proof (induction ds arbitrary: r0 bs)
  case Nil
  then show ?case by simp
next
  case (Cons d ds)
  from Cons.prems(1) obtain r1 bs1 where
    m: "SlObjectMember_load sl d r0 bs = Inr (r1, bs1)" and
    l: "SlObject_load sl ds r1 bs1 = Inr (r', rest)"
    by (auto split: sum.splits)
  have "f r1 = f r0"
    using m Cons.prems(2)
    by (auto simp: SlObjectMember_load_def split: if_splits sum.splits)
  moreover have "f r' = f r1"
    using Cons.IH[OF l] Cons.prems(2) by simp
  ultimately show ?case by simp
qed

lemma SlObject_load_frame_error:
  assumes "SlObject_load sl ds r0 bs = Inl (e, r')"
    and "\<forall>d \<in> set ds. SlIsObjectValidInSavegame sl d \<and> sl_cmd d \<noteq> SL_NULL \<longrightarrow> (\<forall>v r. f (sl_set d v r) = f r)"
  shows "f r' = f r0"
  using assms
proof (induction ds arbitrary: r0 bs)
  case Nil
  then show ?case by simp
next
  case (Cons d ds)
  show ?case
  proof (cases "SlObjectMember_load sl d r0 bs")
    case (Inl e')
    with Cons.prems(1) show ?thesis by simp
  next
    case (Inr p)
    obtain r1 bs1 where p: "p = (r1, bs1)" by (cases p)
    have "f r1 = f r0"
      using Inr p Cons.prems(2)
      by (auto simp: SlObjectMember_load_def split: if_splits sum.splits)
    moreover have "f r' = f r1"
      using Cons.IH[of r1 bs1] Cons.prems Inr p by simp
    ultimately show ?thesis by simp
  qed
qed

lemma SlObject_save_then_load:
  assumes "table_ok (sl_max_length sl) ds" and "populated sl ds r" and "sl_max_length sl < 256 ^ 4"
  shows "\<exists>r'. SlObject_load sl ds r0 (SlObject_save sl ds r @ ys) = Inr (r', ys) \<and>
           (\<forall>d \<in> set ds. sl_get d r' =
              (if SlIsObjectValidInSavegame sl d then sl_get d r else sl_get d r0))"
  using assms(1,2)
proof (induction ds arbitrary: r0)
  case Nil
  then show ?case by simp
next
  case (Cons d ds)
  let ?act = "SlIsObjectValidInSavegame sl d"
  define r1 where "r1 = (if ?act then sl_set d (sl_get d r) r0 else r0)"
  have notnull: "sl_cmd d \<noteq> SL_NULL" using Cons.prems(1) by simp
  have vok: "?act \<Longrightarrow> value_ok (sl_max_length sl) (sl_conv d) (sl_get d r)"
    using Cons.prems(2) by (simp add: populated_def)
  have m: "SlObjectMember_load sl d r0 (SlObject_save sl (d # ds) r @ ys)
             = Inr (r1, SlObject_save sl ds r @ ys)"
    using notnull vok assms(3)
    by (simp add: SlObjectMember_load_def SlObjectMember_save_def r1_def
        SlReadValue_SlWriteValue)
  have tok: "table_ok (sl_max_length sl) ds" using Cons.prems(1) by simp
  have pop: "populated sl ds r" using Cons.prems(2) by (simp add: populated_def)
  from Cons.IH[OF tok pop, of r1] obtain r' where
    l: "SlObject_load sl ds r1 (SlObject_save sl ds r @ ys) = Inr (r', ys)" and
    g: "\<forall>d' \<in> set ds. sl_get d' r' =
          (if SlIsObjectValidInSavegame sl d' then sl_get d' r else sl_get d' r1)"
    by blast
  have indep: "\<forall>d' \<in> set ds. independent d d' \<and> independent d' d"
    using Cons.prems(1) by simp
  have keep: "sl_get d r' = sl_get d r1"
    using SlObject_load_frame[OF l, of "sl_get d"] indep
    by (simp add: independent_def)
  have head: "sl_get d r' = (if ?act then sl_get d r else sl_get d r0)"
    using keep vok Cons.prems(1) by (simp add: r1_def)
  have tail: "\<forall>d' \<in> set ds. sl_get d' r1 = sl_get d' r0"
    using indep by (simp add: r1_def independent_def)
  have "SlObject_load sl (d # ds) r0 (SlObject_save sl (d # ds) r @ ys) = Inr (r', ys)"
    using m l by simp
  moreover have "\<forall>d' \<in> set (d # ds). sl_get d' r' =
      (if SlIsObjectValidInSavegame sl d' then sl_get d' r else sl_get d' r0)"
    using head g tail by simp
  ultimately show ?case by blast
qed

lemma ai_company_desc_ok: "table_ok maxlen (ai_company_desc h)"
  by (simp add: ai_company_desc_def SLEG_SSTR_def SLEG_CONDSSTR_def SLEG_CONDVAR_UINT32_def
      SLEG_CONDVAR_BOOL_def independent_def unat_of_nat split: sl_value.splits)

lemma ai_company_desc_valid:
  "map (SlIsObjectValidInSavegame sl) (ai_company_desc h) =
     [True, True, 108 \<le> sl_version sl \<and> sl_version sl \<le> SL_MAX_VERSION h,
      136 \<le> sl_version sl \<and> sl_version sl \<le> SLV_AI_LOCAL_CONFIG h]"
  by (simp add: ai_company_desc_def SLEG_SSTR_def SLEG_CONDSSTR_def SLEG_CONDVAR_UINT32_def
      SLEG_CONDVAR_BOOL_def SlIsObjectValidInSavegame_def is_conditional_def SLV_108_def SLV_136_def)

lemma ai_company_desc_populated:
  "length (ai_saveload_name st) \<le> sl_max_length sl \<Longrightarrow>
   length (ai_saveload_settings st) \<le> sl_max_length sl \<Longrightarrow>
   populated sl (ai_company_desc h) st"
  using unsigned_less[of "ai_saveload_version st", where 'a = nat]
  by (simp add: populated_def ai_company_desc_def SLEG_SSTR_def SLEG_CONDSSTR_def
      SLEG_CONDVAR_UINT32_def SLEG_CONDVAR_BOOL_def)

lemma ai_company_desc_get:
  "map (\<lambda>d. sl_get d st) (ai_company_desc h) =
     [VStr (ai_saveload_name st), VStr (ai_saveload_settings st),
      VInt (unat (ai_saveload_version st)), VBool (ai_saveload_is_random st)]"
  by (simp add: ai_company_desc_def SLEG_SSTR_def SLEG_CONDSSTR_def SLEG_CONDVAR_UINT32_def
      SLEG_CONDVAR_BOOL_def)

lemma ai_company_desc_names:
  "map sl_name (ai_company_desc h) = [''name'', ''settings'', ''version'', ''is_random'']"
  by (simp add: ai_company_desc_def SLEG_SSTR_def SLEG_CONDSSTR_def SLEG_CONDVAR_UINT32_def
      SLEG_CONDVAR_BOOL_def)

lemma SlObject_save_ai_company_desc:
  "SlObject_save sl (ai_company_desc h) st =
     SlWriteString (ai_saveload_name st) @ SlWriteString (ai_saveload_settings st) @
     (if 108 \<le> sl_version sl \<and> sl_version sl \<le> SL_MAX_VERSION h
      then be_bytes 4 (unat (ai_saveload_version st)) else []) @
     (if 136 \<le> sl_version sl \<and> sl_version sl \<le> SLV_AI_LOCAL_CONFIG h
      then [if ai_saveload_is_random st then 1 else 0] else [])"
  by (simp add: ai_company_desc_def SLEG_SSTR_def SLEG_CONDSSTR_def SLEG_CONDVAR_UINT32_def
      SLEG_CONDVAR_BOOL_def SlObjectMember_save_def SlIsObjectValidInSavegame_def
      is_conditional_def SLV_108_def SLV_136_def del: be_bytes.simps)

lemma ai_company_desc_save_then_load:
  assumes "sl_max_length sl < 2 ^ 32"
    and "length (ai_saveload_name st) \<le> sl_max_length sl"
    and "length (ai_saveload_settings st) \<le> sl_max_length sl"
  shows "SlObject_load sl (ai_company_desc h) st0 (SlObject_save sl (ai_company_desc h) st @ ys) =
              Inr (st\<lparr>ai_saveload_version :=
                        if 108 \<le> sl_version sl \<and> sl_version sl \<le> SL_MAX_VERSION h
                        then ai_saveload_version st else ai_saveload_version st0,
                      ai_saveload_is_random :=
                        if 136 \<le> sl_version sl \<and> sl_version sl \<le> SLV_AI_LOCAL_CONFIG h
                        then ai_saveload_is_random st else ai_saveload_is_random st0\<rparr>, ys)"
proof -
  have m: "sl_max_length sl < 256 ^ 4" using assms(1) by simp
  let ?ds = "ai_company_desc h"
  from SlObject_save_then_load[OF ai_company_desc_ok ai_company_desc_populated m, of st h st0 ys] assms(2,3)
  obtain r' where
    l: "SlObject_load sl ?ds st0 (SlObject_save sl ?ds st @ ys) = Inr (r', ys)" and
    g: "\<forall>d \<in> set ?ds. sl_get d r' =
          (if SlIsObjectValidInSavegame sl d then sl_get d st else sl_get d st0)"
    by blast
  have g': "map (\<lambda>d. sl_get d r') ?ds =
          map (\<lambda>d. if SlIsObjectValidInSavegame sl d then sl_get d st else sl_get d st0) ?ds"
    using g by simp
  have v: "map (SlIsObjectValidInSavegame sl) ?ds =
     [True, True, 108 \<le> sl_version sl \<and> sl_version sl \<le> SL_MAX_VERSION h,
      136 \<le> sl_version sl \<and> sl_version sl \<le> SLV_AI_LOCAL_CONFIG h]"
    by (rule ai_company_desc_valid)
  have f: "ai_saveload_name r' = ai_saveload_name st"
      "ai_saveload_settings r' = ai_saveload_settings st"
      "ai_saveload_version r' = (if 108 \<le> sl_version sl \<and> sl_version sl \<le> SL_MAX_VERSION h
                        then ai_saveload_version st else ai_saveload_version st0)"
      "ai_saveload_is_random r' = (if 136 \<le> sl_version sl \<and> sl_version sl \<le> SLV_AI_LOCAL_CONFIG h
                        then ai_saveload_is_random st else ai_saveload_is_random st0)"
    using g' v
    by (auto simp: ai_company_desc_def SLEG_SSTR_def SLEG_CONDSSTR_def SLEG_CONDVAR_UINT32_def
      SLEG_CONDVAR_BOOL_def word_unat_eq_iff[symmetric] split: if_splits)
  have "r' = st\<lparr>ai_saveload_version :=
                        if 108 \<le> sl_version sl \<and> sl_version sl \<le> SL_MAX_VERSION h
                        then ai_saveload_version st else ai_saveload_version st0,
                      ai_saveload_is_random :=
                        if 136 \<le> sl_version sl \<and> sl_version sl \<le> SLV_AI_LOCAL_CONFIG h
                        then ai_saveload_is_random st else ai_saveload_is_random st0\<rparr>"
    by (rule ai_saveload.equality) (simp_all add: f)
  with l show ?thesis by simp
qed

lemma SlIterateArray_record:
  "i < SL_ARRAY_END \<Longrightarrow> length body < 2 ^ 32 \<Longrightarrow>
   SlIterateArray (SlSetArrayIndex i @ SlAutolength body @ rest) = Inr (index_as_int i, body, rest)"
  using SlReadBytes_append[of body rest]
  by (simp add: SlIterateArray_def SlSetArrayIndex_def SlAutolength_def SlReadUint_be_bytes
      SL_ARRAY_END_def)

lemma index_as_int_end [simp]: "index_as_int SL_ARRAY_END = - 1"
  by (simp add: index_as_int_def SL_ARRAY_END_def)

lemma narrow_index_as_int:
  "b \<le> 32 \<Longrightarrow> nat (index_as_int n mod 2 ^ b) = n mod 2 ^ b"
proof -
  assume b: "b \<le> 32"
  have "take_bit b (index_as_int n) = take_bit b (int n)"
    unfolding index_as_int_def sint_uint
    using b by (simp add: take_bit_signed_take_bit unsigned_of_nat take_bit_of_nat min_def)
  then have "index_as_int n mod 2 ^ b = int (n mod 2 ^ b)"
    by (simp add: take_bit_eq_mod zmod_int)
  then show ?thesis by simp
qed

lemma SlIterateArray_end: "SlIterateArray (SlArrayEnd @ rest) = Inr (- 1, [], rest)"
  using SlReadUint_be_bytes[of SL_ARRAY_END 4 rest]
  by (simp add: SlIterateArray_def SlArrayEnd_def SL_ARRAY_END_def del: be_bytes.simps)

lemma tag_type_type_tag [simp]: "tag_type (type_tag ty) = Some ty"
  by (cases ty) (simp_all add: tag_type_def)

lemma type_tag_less: "type_tag ty < 256"
  by (cases ty) simp_all

lemma be_bytes_1: "be_bytes 1 v = [of_nat (v mod 256)]"
  by simp

lemma SlReadTableFields_written:
  assumes "\<forall>f \<in> set fs. length (fst f) \<le> maxlen" and "maxlen < 2 ^ 32"
  shows "SlReadTableFields maxlen (length fs) (concat (map SlWriteTableField fs) @ rest) = Inr (fs, rest)"
  using assms(1)
proof (induction fs)
  case Nil
  then show ?case by simp
next
  case (Cons f fs)
  have s: "SlReadString maxlen (SlWriteString (fst f) @ ys) = Inr (fst f, ys)" for ys
    using Cons.prems assms(2) by (intro SlReadString_SlWriteString) auto
  have t: "SlReadUint 1 (be_bytes 1 (type_tag (snd f)) @ ys) = Inr (type_tag (snd f), ys)" for ys
    using type_tag_less[of "snd f"] by (intro SlReadUint_be_bytes) simp
  show ?case
    using Cons s t by (simp add: SlWriteTableField_def del: be_bytes.simps)
qed

lemma SlReadTableHeader_SlTableHeader:
  assumes "\<forall>d \<in> set slt. length (sl_name d) \<le> maxlen" and "maxlen < 2 ^ 32"
    and "length slt < 2 ^ 32"
  shows "SlReadTableHeader maxlen (SlTableHeader slt @ rest) =
           Inr (map (\<lambda>d. (sl_name d, sl_conv d)) slt, rest)"
proof -
  let ?fs = "map (\<lambda>d. (sl_name d, sl_conv d)) slt"
  have c: "concat (map (\<lambda>d. SlWriteTableField (sl_name d, sl_conv d)) slt) =
           concat (map SlWriteTableField ?fs)"
    by (simp add: comp_def)
  have "SlReadTableFields maxlen (length ?fs) (concat (map SlWriteTableField ?fs) @ rest) = Inr (?fs, rest)"
    using assms(1,2) by (intro SlReadTableFields_written) auto
  then show ?thesis
    using assms(3) SlReadUint_be_bytes[of "length slt" 4]
    by (simp add: SlReadTableHeader_def SlTableHeader_def c del: be_bytes.simps)
qed

lemma find_distinct_name:
  "distinct (map sl_name slt) \<Longrightarrow> d \<in> set slt \<Longrightarrow>
   find (\<lambda>d'. sl_name d' = sl_name d) slt = Some d"
  by (induction slt) (auto simp: image_iff)

lemma SlResolveHeader_own_aux:
  assumes "distinct (map sl_name slt)" and "set ds \<subseteq> set slt"
  shows "SlResolveHeader slt slct (map (\<lambda>d. (sl_name d, sl_conv d)) ds) = Inr ds"
  using assms(2)
  by (induction ds) (simp_all add: SlResolveField_def find_distinct_name[OF assms(1)])

lemma SlCompatTableHeader_SlTableHeader:
  assumes "distinct (map sl_name slt)" and "\<forall>d \<in> set slt. length (sl_name d) \<le> sl_max_length sp"
    and "sl_max_length sp < 2 ^ 32" and "length slt < 2 ^ 32"
  shows "SlCompatTableHeader sp slt slct (SlTableHeader slt @ rest) = Inr (slt, rest)"
  using SlReadTableHeader_SlTableHeader[OF assms(2,3,4), of rest]
    SlResolveHeader_own_aux[OF assms(1), of slt slct]
  by (simp add: SlCompatTableHeader_def)

lemma find_Some_member: "find P xs = Some x \<Longrightarrow> x \<in> set xs \<and> P x"
  by (induction xs) (auto split: if_splits)

lemma SlResolveField_cases:
  assumes "SlResolveField slt0 slct f = Inr d"
  shows "(d \<in> set slt0 \<and> sl_name d = fst f) \<or> d = SlNullField (fst f) (snd f)"
  using assms
  by (auto simp: SlResolveField_def split: option.splits if_splits dest: find_Some_member)

lemma SlResolveHeader_elements:
  "SlResolveHeader slt0 slct fs = Inr slt \<Longrightarrow>
   \<forall>d \<in> set slt. d \<in> set slt0 \<or> sl_cmd d = SL_NULL"
proof (induction fs arbitrary: slt)
  case Nil
  then show ?case by simp
next
  case (Cons f fs)
  then show ?case
    by (auto simp: SlNullField_def split: sum.splits dest!: SlResolveField_cases)
qed

lemmas sl_eval =
  SLEG_SSTR_def SLEG_CONDSSTR_def SLEG_CONDVAR_UINT32_def SLEG_CONDVAR_BOOL_def
  SlObjectMember_save_def SlObjectMember_load_def SlIsObjectValidInSavegame_def is_conditional_def
  SlWriteString_def SlReadString_def SlReadUint_def SlReadBytes_def be_nat_def be_bytes_4
  char_of_byte_of_char SLV_108_def SLV_136_def

lemma find_None_names: "find (\<lambda>d. sl_name d = n) slt = None \<longleftrightarrow> n \<notin> sl_name ` set slt"
  by (auto simp: find_None_iff)

lemma find_Some_names:
  "n \<in> sl_name ` set slt \<Longrightarrow> \<exists>d \<in> set slt. sl_name d = n \<and> find (\<lambda>d. sl_name d = n) slt = Some d"
  by (cases "find (\<lambda>d. sl_name d = n) slt") (auto simp: find_None_names dest: find_Some_member)

lemma SlResolveField_current:
  assumes "fst f \<in> sl_name ` set slt"
  shows "\<exists>d \<in> set slt. sl_name d = fst f \<and> SlResolveField slt slct f = Inr d"
  using find_Some_names[OF assms] by (auto simp: SlResolveField_def)

lemma SlResolveField_removed:
  assumes "fst f \<notin> sl_name ` set slt" and "fst f \<in> slc_name ` set slct"
  shows "SlResolveField slt slct f = Inr (SlNullField (fst f) (snd f))"
  using assms by (simp add: SlResolveField_def find_None_names[THEN iffD2])

lemma SlResolveField_unknown:
  assumes "fst f \<notin> sl_name ` set slt" and "fst f \<notin> slc_name ` set slct"
  shows "SlResolveField slt slct f = Inl (SlErrorCorrupt ''unknown field'')"
  using assms by (simp add: SlResolveField_def find_None_names[THEN iffD2])

lemma SlResolveHeader_ok_iff:
  "(\<exists>ds. SlResolveHeader slt slct fs = Inr ds) \<longleftrightarrow>
   (\<forall>f \<in> set fs. fst f \<in> sl_name ` set slt \<or> fst f \<in> slc_name ` set slct)"
proof (induction fs)
  case Nil
  then show ?case by simp
next
  case (Cons f fs)
  show ?case
  proof (cases "fst f \<in> sl_name ` set slt \<or> fst f \<in> slc_name ` set slct")
    case True
    then obtain d where "SlResolveField slt slct f = Inr d"
      using SlResolveField_current[of f slt slct] SlResolveField_removed[of f slt slct] by blast
    then show ?thesis using True Cons by (auto split: sum.splits)
  next
    case False
    then show ?thesis using SlResolveField_unknown[of f slt slct] by simp
  qed
qed

lemma SlResolveHeader_error:
  "SlResolveHeader slt slct fs = Inl e \<Longrightarrow> e = SlErrorCorrupt ''unknown field''"
proof (induction fs)
  case Nil
  then show ?case by simp
next
  case (Cons f fs)
  then show ?case
    by (auto simp: SlResolveField_def split: sum.splits option.splits if_splits)
qed

lemma SlResolveHeader_unknown:
  assumes "\<exists>g \<in> set fs. fst g \<notin> sl_name ` set slt \<and> fst g \<notin> slc_name ` set slct"
  shows "SlResolveHeader slt slct fs = Inl (SlErrorCorrupt ''unknown field'')"
proof (cases "SlResolveHeader slt slct fs")
  case (Inl e)
  then show ?thesis using SlResolveHeader_error by blast
next
  case (Inr ds)
  then show ?thesis using SlResolveHeader_ok_iff[of slt slct fs] assms by blast
qed

lemma SlNullField_load:
  "SlObjectMember_load sp (SlNullField n ty) r bs =
     (case SlReadValue (sl_max_length sp) ty bs of Inl e \<Rightarrow> Inl e | Inr (v, rest) \<Rightarrow> Inr (r, rest))"
  by (simp add: SlObjectMember_load_def SlNullField_def SlIsObjectValidInSavegame_def
      is_conditional_def split: sum.splits)

lemma SlReadValue_kind:
  assumes "SlReadValue maxlen ty bs = Inr (v, bs')"
  shows "case ty of SLE_BOOL \<Rightarrow> (\<exists>b. v = VBool b) | SLE_STR \<Rightarrow> (\<exists>s. v = VStr s)
         | _ \<Rightarrow> (\<exists>n. v = VInt n)"
  using assms by (cases ty) (auto split: sum.splits if_splits)

lemma SlResolveHeader_member:
  "SlResolveHeader slt0 slct fs = Inr ds \<Longrightarrow> f \<in> set fs \<Longrightarrow>
   \<exists>d \<in> set ds. SlResolveField slt0 slct f = Inr d"
proof (induction fs arbitrary: ds)
  case Nil
  then show ?case by simp
next
  case (Cons g fs)
  then show ?case by (auto split: sum.splits)
qed

lemma SlResolveHeader_loads_field:
  assumes "SlResolveHeader slt0 slct fs = Inr ds" and "n \<in> fst ` set fs"
    and "n \<in> sl_name ` set slt0"
  shows "\<exists>d \<in> set ds. d \<in> set slt0 \<and> sl_name d = n"
proof -
  from assms(2) obtain f where f: "f \<in> set fs" "fst f = n" by auto
  from SlResolveHeader_member[OF assms(1) f(1)] obtain d where
    d: "d \<in> set ds" "SlResolveField slt0 slct f = Inr d" by blast
  from SlResolveField_current[of f slt0 slct] assms(3) f(2) obtain d' where
    "d' \<in> set slt0" "sl_name d' = n" "SlResolveField slt0 slct f = Inr d'" by auto
  with d show ?thesis by auto
qed

section \<open>Properties of the handler\<close>

lemma Change_Some:
  "Change f (Some n) v x config =
     \<lparr>cfg_name = n, cfg_version = (case f n v x of None \<Rightarrow> - 1 | Some i \<Rightarrow> snd i),
      cfg_info = f n v x, cfg_settings = [], cfg_to_load_data = None\<rparr>"
  by (simp add: Change_def Let_def)

lemma Load_running_failure:
  assumes "Load_running env i b v = Inl (e, w')"
  shows "(\<exists>st. SlObject_load (sl_params env) (ai_running_desc env) (staged v) b = Inl (e, st)) \<or>
         (\<exists>st b' ver. SlObject_load (sl_params env) (ai_running_desc env) (staged v) b = Inr (st, b') \<and>
            AIInstance_Load env ver b' = Inl e)"
  using assms by (auto simp: Load_running_def Let_def split: sum.splits)

lemma IsValidAiID_Load_config [simp]:
  "IsValidAiID (Load_config env i w) j = IsValidAiID w j"
  by (simp add: Load_config_def IsValidAiID_def Let_def)

lemma CompanyID_cast_minus1: "CompanyID_cast env (- 1) = 2 ^ CompanyID_bits env - 1"
proof -
  have "(- 1 :: int) mod 2 ^ CompanyID_bits env = 2 ^ CompanyID_bits env - 1"
    by (simp add: zmod_minus1)
  then show ?thesis
    by (simp add: CompanyID_cast_def nat_diff_distrib nat_power_eq)
qed

lemma CompanyID_cast_index:
  "CompanyID_bits env \<le> 32 \<Longrightarrow> CompanyID_cast env (index_as_int n) = n mod 2 ^ CompanyID_bits env"
  by (simp add: CompanyID_cast_def narrow_index_as_int)


lemma sample_cast [simp]:
  "CompanyID_bits sample_env = 8" "CompanyID_cast sample_env (- 1) = 255"
  by (simp_all add: CompanyID_cast_minus1, simp_all add: sample_env_def)

lemma sample_cast_index [simp]: "CompanyID_cast sample_env (index_as_int n) = n mod 256"
  by (simp add: CompanyID_cast_index)

lemma menu_cast [simp]: "CompanyID_cast menu_env i = CompanyID_cast sample_env i"
  by (simp add: CompanyID_cast_def menu_env_def)

lemma Load_loop_record:
  assumes "i < SL_ARRAY_END" and "length body < 2 ^ 32"
  shows "Load_loop env slt (SlSetArrayIndex i @ SlAutolength body @ rest) w =
           (if CompanyID_cast env (index_as_int i) = CompanyID_cast env (- 1) then Inr w
            else (case Load_record env slt (CompanyID_cast env (index_as_int i)) body w of
                    Inl ew \<Rightarrow> Inl ew
                  | Inr w' \<Rightarrow> Load_loop env slt rest w'))"
  using SlIterateArray_record[OF assms, of rest]
  by (subst Load_loop.simps) simp

lemma Load_loop_end: "Load_loop env slt (SlArrayEnd @ rest) w = Inr w"
  by (subst Load_loop.simps) (simp add: SlIterateArray_end)

lemma ai_company_desc_header:
  assumes "9 \<le> sl_max_length sp" and "sl_max_length sp < 2 ^ 32"
  shows "SlCompatTableHeader sp (ai_company_desc h) slct (SlTableHeader (ai_company_desc h) @ rest)
           = Inr (ai_company_desc h, rest)"
  using assms
  by (intro SlCompatTableHeader_SlTableHeader)
     (simp_all add: ai_company_desc_names, simp_all add: ai_company_desc_def SLEG_SSTR_def
        SLEG_CONDSSTR_def SLEG_CONDVAR_UINT32_def SLEG_CONDVAR_BOOL_def)

lemma company_desc_keeps_version:
  assumes "d \<in> set (ai_company_desc h)" and "SlIsObjectValidInSavegame sp d"
    and "\<not> (108 \<le> sl_version sp \<and> sl_version sp \<le> SL_MAX_VERSION h)"
  shows "ai_saveload_version (sl_set d v r) = ai_saveload_version r"
  using assms
  by (auto simp: ai_company_desc_def SLEG_SSTR_def SLEG_CONDSSTR_def SLEG_CONDVAR_UINT32_def
      SLEG_CONDVAR_BOOL_def SlIsObjectValidInSavegame_def is_conditional_def SLV_108_def
      split: sl_value.splits)

lemma company_desc_keeps_is_random:
  assumes "d \<in> set (ai_company_desc h)" and "SlIsObjectValidInSavegame sp d"
    and "\<not> (136 \<le> sl_version sp \<and> sl_version sp \<le> SLV_AI_LOCAL_CONFIG h)"
  shows "ai_saveload_is_random (sl_set d v r) = ai_saveload_is_random r"
  using assms
  by (auto simp: ai_company_desc_def SLEG_SSTR_def SLEG_CONDSSTR_def SLEG_CONDVAR_UINT32_def
      SLEG_CONDVAR_BOOL_def SlIsObjectValidInSavegame_def is_conditional_def SLV_136_def
      split: sl_value.splits)

lemma sample_company_body_length: "length sample_company_body = 24"
  by (simp add: sample_company_body_def sample_env_def sample_old_staging_def
      SlObject_save_ai_company_desc SlWriteString_def del: be_bytes.simps)

lemma sample_Load_fields:
  "Load_fields (sample_env\<lparr>game_mode := m\<rparr>) (ai_company_desc sample_env) sample_company_body w =
     Inr (w\<lparr>staged := sample_old_staging\<rparr>, [])"
  using ai_company_desc_save_then_load[of "sl_params sample_env" sample_old_staging sample_env
      "(staged w)\<lparr>ai_saveload_is_random := False, ai_saveload_version := - 1\<rparr>" "[]"]
  by (simp add: Load_fields_def sample_company_body_def Let_def,
      simp add: sample_env_def sample_old_staging_def)

lemma staged_Load_config [simp]: "staged (Load_config env i w) = staged w"
  by (simp add: Load_config_def Let_def)

lemma staged_set_company_config [simp]: "staged (set_company_config i c w) = staged w"
  by (simp add: set_company_config_def split: option.splits)

lemma running_desc_keeps_is_random:
  assumes "d \<in> set (ai_running_desc h)"
  shows "ai_saveload_is_random (sl_set d v r) = ai_saveload_is_random r"
  using assms
  by (auto simp: ai_running_desc_def SLEG_CONDSSTR_def SLEG_CONDVAR_UINT32_def
      split: sl_value.splits)

lemma running_desc_keeps_version:
  assumes "d \<in> set (ai_running_desc h)" and "SlIsObjectValidInSavegame sp d"
    and "\<not> (SLV_AI_LOCAL_CONFIG h \<le> sl_version sp \<and> sl_version sp \<le> SL_MAX_VERSION h)"
  shows "ai_saveload_version (sl_set d v r) = ai_saveload_version r"
  using assms
  by (auto simp: ai_running_desc_def SLEG_CONDSSTR_def SLEG_CONDVAR_UINT32_def
      SlIsObjectValidInSavegame_def is_conditional_def split: sl_value.splits)

lemma Load_skip_staged:
  assumes "Load_skip env i b w = Inr w'"
  shows "staged w' = staged w \<or>
         (\<exists>b'. SlObject_load (sl_params env) (ai_running_desc env) (staged w) b = Inr (staged w', b'))"
  using assms by (auto simp: Load_skip_def split: if_splits sum.splits)

lemma Load_running_staged:
  assumes "Load_running env i b w = Inr w'"
  shows "\<exists>st b'. SlObject_load (sl_params env) (ai_running_desc env) (staged w) b = Inr (st, b') \<and>
           (staged w' = st \<or> staged w' = st\<lparr>ai_saveload_version := - 1\<rparr>)"
  using assms by (auto simp: Load_running_def Let_def split: if_splits sum.splits)

lemma Load_record_staged:
  assumes "Load_record env slt index body w = Inr w'"
  shows "\<exists>w1 body1. Load_fields env slt body w = Inr (w1, body1) \<and>
           (staged w' = staged w1 \<or>
            (\<exists>st b'. SlObject_load (sl_params env) (ai_running_desc env) (staged w1) body1 = Inr (st, b') \<and>
               (staged w' = st \<or> staged w' = st\<lparr>ai_saveload_version := - 1\<rparr>)))"
proof -
  from assms obtain w1 body1 where f: "Load_fields env slt body w = Inr (w1, body1)"
    by (auto simp: Load_record_def split: if_splits sum.splits)
  show ?thesis
  proof (cases "game_mode env = GM_MENU \<or> (networking env \<and> \<not> network_server env)")
    case True
    then have "Load_skip env index body1 w1 = Inr w'"
      using assms f by (auto simp: Load_record_def split: if_splits)
    from Load_skip_staged[OF this] f show ?thesis by blast
  next
    case False
    then have r: "Load_running env index body1 (Load_config env index w1) = Inr w' \<or>
        w' = Load_config env index w1"
      using assms f by (auto simp: Load_record_def Let_def split: if_splits)
    then show ?thesis
    proof
      assume "Load_running env index body1 (Load_config env index w1) = Inr w'"
      from Load_running_staged[OF this] f show ?thesis by auto
    next
      assume "w' = Load_config env index w1"
      with f show ?thesis by simp
    qed
  qed
qed

lemma Load_loop_too_many:
  assumes "i < SL_ARRAY_END" and "length body < 2 ^ 32"
    and "CompanyID_cast env (index_as_int i) \<noteq> CompanyID_cast env (- 1)"
    and "MAX_COMPANIES env \<le> CompanyID_cast env (index_as_int i)"
  shows "Load_loop env slt (SlSetArrayIndex i @ SlAutolength body @ rest) w =
           Inl (SlErrorCorrupt ''Too many AI configs'', w)"
  using assms by (simp add: Load_loop_record Load_record_def)

lemma Load_loop_stops_at_bound:
  assumes "\<forall>r \<in> set recs. fst r < SL_ARRAY_END \<and> length (snd r) < 2 ^ 32 \<and>
             CompanyID_cast env (index_as_int (fst r)) \<noteq> CompanyID_cast env (- 1)"
    and "i < SL_ARRAY_END" and "length body < 2 ^ 32"
    and "CompanyID_cast env (index_as_int i) \<noteq> CompanyID_cast env (- 1)"
    and "MAX_COMPANIES env \<le> CompanyID_cast env (index_as_int i)"
    and "Load_loop env slt (SlWriteArray recs @ SlArrayEnd) w = Inr w'"
  shows "Load_loop env slt (SlWriteArray recs @ SlSetArrayIndex i @ SlAutolength body @ rest) w =
           Inl (SlErrorCorrupt ''Too many AI configs'', w')"
  using assms(1,6)
proof (induction recs arbitrary: w)
  case Nil
  then show ?case
    using Load_loop_end[of env slt "[]" w] Load_loop_too_many[OF assms(2,3,4,5)] by simp
next
  case (Cons r recs)
  have b: "fst r < SL_ARRAY_END" "length (snd r) < 2 ^ 32"
    and n: "CompanyID_cast env (index_as_int (fst r)) \<noteq> CompanyID_cast env (- 1)"
    using Cons.prems(1) by simp_all
  from Cons.prems(2) obtain w1 where
    r: "Load_record env slt (CompanyID_cast env (index_as_int (fst r))) (snd r) w = Inr w1" and
    l: "Load_loop env slt (SlWriteArray recs @ SlArrayEnd) w1 = Inr w'"
    using Load_loop_record[OF b, of env slt "SlWriteArray recs @ SlArrayEnd" w] n
    by (auto split: sum.splits)
  have "Load_loop env slt (SlWriteArray recs @ SlSetArrayIndex i @ SlAutolength body @ rest) w1 =
          Inl (SlErrorCorrupt ''Too many AI configs'', w')"
    using Cons.IH[OF _ l] Cons.prems(1) by simp
  then show ?case
    using Load_loop_record[OF b, of env slt
        "SlWriteArray recs @ SlSetArrayIndex i @ SlAutolength body @ rest" w] r n
    by simp
qed

lemma sample_Load_record:
  assumes "companies w 0 = None"
  shows "Load_record sample_env (ai_company_desc sample_env) 0 sample_company_body w =
     Inr (w\<lparr>staged := sample_old_staging,
            script_config_ai := (script_config_ai w)
              (0 := \<lparr>cfg_name = ''AdmiralAI'', cfg_version = 25,
                 cfg_info = Some (''AdmiralAI'', 25), cfg_settings = ''a=1'',
                 cfg_to_load_data = None\<rparr>),
            debug_out := debug_out w @ [Dbg_no_longer_available ''AdmiralAI'' 7, Dbg_latest_configured]\<rparr>)"
proof -
  have f: "Load_fields sample_env (ai_company_desc sample_env) sample_company_body w =
     Inr (w\<lparr>staged := sample_old_staging\<rparr>, [])"
    using sample_Load_fields[of GM_NORMAL w] by (simp add: sample_env_def)
  have c: "Load_config sample_env 0 (w\<lparr>staged := sample_old_staging\<rparr>) =
      w\<lparr>staged := sample_old_staging,
            script_config_ai := (script_config_ai w)
              (0 := \<lparr>cfg_name = ''AdmiralAI'', cfg_version = 25,
                 cfg_info = Some (''AdmiralAI'', 25), cfg_settings = ''a=1'',
                 cfg_to_load_data = None\<rparr>),
            debug_out := debug_out w @ [Dbg_no_longer_available ''AdmiralAI'' 7, Dbg_latest_configured]\<rparr>"
    by (simp add: Load_config_def sample_env_def sample_old_staging_def sample_FindInfo_def
        Change_Some HasScript_def StringToSettings_def Let_def)
  show ?thesis
    unfolding Load_record_def f
    using assms by (simp add: c IsValidAiID_def Let_def) (simp add: sample_env_def)
qed

lemma sample_header:
  "SlCompatTableHeader (sl_params sample_env) (ai_company_desc sample_env)
     (ai_company_sl_compat sample_env) (SlTableHeader (ai_company_desc sample_env) @ tail) =
   Inr (ai_company_desc sample_env, tail)"
  by (rule ai_company_desc_header) (simp_all add: sample_env_def)

lemma sample_Load_good:
  "Load sample_env (SlTableHeader (ai_company_desc sample_env) @
      SlWriteArray [(0, sample_company_body)] @ SlArrayEnd) sample_world = Inr sample_loaded"
proof -
  have n: "companies (Load_free_all sample_env sample_world) 0 = None"
    by (simp add: Load_free_all_def sample_world_def)
  show ?thesis
    using Load_loop_record[of 0 sample_company_body sample_env "ai_company_desc sample_env"
        SlArrayEnd "Load_free_all sample_env sample_world"]
      Load_loop_end[of sample_env "ai_company_desc sample_env" "[]"]
      sample_Load_record[OF n]
    by (simp add: Load_def sample_header SL_ARRAY_END_def sample_company_body_length
        sample_loaded_def Load_free_all_def sample_world_def)
qed

lemma set_company_config_twice:
  "set_company_config i c (set_company_config i c' w) = set_company_config i c w"
  by (cases "companies w i") (simp_all add: set_company_config_def)

lemma Load_running_available:
  assumes "SlObject_load (sl_params env) (ai_running_desc env) (staged w) body = Inr (st, body')"
    and "FindInfo env (ai_saveload_name st) (ai_saveload_version st) False = Some info"
    and "AIInstance_Load env (ai_saveload_version st) body' = Inr d"
  shows "Load_running env i body w =
     Inr ((set_company_config i
            \<lparr>cfg_name = ai_saveload_name st, cfg_version = snd info, cfg_info = Some info,
             cfg_settings = ai_saveload_settings st, cfg_to_load_data = d\<rparr> w)\<lparr>staged := st\<rparr>)"
proof -
  have "set_company_config i c ((set_company_config i c' w)\<lparr>staged := st, debug_out := debug_out w\<rparr>)
        = (set_company_config i c w)\<lparr>staged := st\<rparr>" for c c'
    by (cases "companies w i") (simp_all add: set_company_config_def)
  moreover have "HasScript (Change (FindInfo env) (Some (ai_saveload_name st))
      (ai_saveload_version st) False new_AIConfig)"
    using assms(2) by (simp add: Change_Some HasScript_def)
  ultimately show ?thesis
    using assms
    by (simp add: Load_running_def Change_Some StringToSettings_def SetToLoadData_def Let_def)
qed

lemma sample_chunk_header:
  "SlReadTableHeader (sl_max_length (sl_params sample_env)) sample_chunk =
     Inr (map (\<lambda>d. (sl_name d, sl_conv d)) (ai_company_desc sample_env),
          SlSetArrayIndex 0 @ SlAutolength sample_company_body @ SlArrayEnd)"
  unfolding sample_chunk_def
  by (rule SlReadTableHeader_SlTableHeader)
     (simp_all add: sample_env_def, simp_all add: ai_company_desc_def SLEG_SSTR_def
        SLEG_CONDSSTR_def SLEG_CONDVAR_UINT32_def SLEG_CONDVAR_BOOL_def)

lemma bogus_chunk_header:
  "SlReadTableHeader (sl_max_length (sl_params sample_env)) bogus_chunk =
     Inr ([(''name'', SLE_STR), (''bogus'', SLE_BOOL)],
          SlSetArrayIndex 0 @ SlAutolength sample_company_body @ SlArrayEnd)"
proof -
  have m: "sl_max_length (sl_params sample_env) = 255" by (simp add: sample_env_def)
  have t: "SlReadTableFields 255 2
      (SlWriteTableField (''name'', SLE_STR) @ SlWriteTableField (''bogus'', SLE_BOOL) @ rest) =
      Inr ([(''name'', SLE_STR), (''bogus'', SLE_BOOL)], rest)" for rest
  proof -
    have b: "(255 :: nat) < 2 ^ 32" by simp
    have l: "length [(''name'', SLE_STR), (''bogus'', SLE_BOOL)] = 2" by simp
    have "\<forall>f \<in> set [(''name'', SLE_STR), (''bogus'', SLE_BOOL)]. length (fst f) \<le> 255" by simp
    from SlReadTableFields_written[OF this b, of rest] show ?thesis
      unfolding l by (simp del: SlReadTableFields.simps)
  qed
  show ?thesis
    using SlReadUint_be_bytes[of 2 4]
    unfolding m bogus_chunk_def SlReadTableHeader_def
    by (simp add: t del: be_bytes.simps SlReadTableFields.simps)
qed

section \<open>A second load of the same chunk\<close>

lemma company_desc_member_lockstep:
  assumes "d \<in> set (ai_company_desc h) \<or> sl_cmd d = SL_NULL"
    and "ai_saveload_version st = ai_saveload_version st2"
    and "ai_saveload_is_random st = ai_saveload_is_random st2"
    and "SlObjectMember_load sp d st bs = Inr (st', bs')"
  shows "\<exists>st2'. SlObjectMember_load sp d st2 bs = Inr (st2', bs') \<and>
           ai_saveload_version st' = ai_saveload_version st2' \<and>
           ai_saveload_is_random st' = ai_saveload_is_random st2' \<and>
           (ai_saveload_name st = ai_saveload_name st2 \<or>
              (d \<in> set (ai_company_desc h) \<and> sl_name d = ''name'')
            \<longrightarrow> ai_saveload_name st' = ai_saveload_name st2') \<and>
           (ai_saveload_settings st = ai_saveload_settings st2 \<or>
              (d \<in> set (ai_company_desc h) \<and> sl_name d = ''settings'')
            \<longrightarrow> ai_saveload_settings st' = ai_saveload_settings st2')"
proof (cases "SlIsObjectValidInSavegame sp d")
  case False
  then show ?thesis
    using assms
    by (auto simp: SlObjectMember_load_def ai_company_desc_def SLEG_SSTR_def SLEG_CONDSSTR_def
        SLEG_CONDVAR_UINT32_def SLEG_CONDVAR_BOOL_def SlIsObjectValidInSavegame_def is_conditional_def)
next
  case True
  then obtain v where
    r: "SlReadValue (sl_max_length sp) (sl_conv d) bs = Inr (v, bs')" and
    s: "st' = (if sl_cmd d = SL_NULL then st else sl_set d v st)"
    using assms(4) by (auto simp: SlObjectMember_load_def split: sum.splits)
  have m: "SlObjectMember_load sp d st2 bs =
             Inr (if sl_cmd d = SL_NULL then st2 else sl_set d v st2, bs')"
    using True r by (simp add: SlObjectMember_load_def)
  show ?thesis
  proof (cases "sl_cmd d = SL_NULL")
    case True
    then have "d \<notin> set (ai_company_desc h)"
      by (auto simp: ai_company_desc_def SLEG_SSTR_def SLEG_CONDSSTR_def
        SLEG_CONDVAR_UINT32_def SLEG_CONDVAR_BOOL_def)
    then show ?thesis using True m s assms(2,3) by simp
  next
    case False
    then have "d \<in> set (ai_company_desc h)" using assms(1) by simp
    then show ?thesis
      using False m s assms(2,3) SlReadValue_kind[OF r]
      by (auto simp: ai_company_desc_def SLEG_SSTR_def SLEG_CONDSSTR_def
            SLEG_CONDVAR_UINT32_def SLEG_CONDVAR_BOOL_def)
  qed
qed

lemma company_desc_lockstep:
  assumes "\<forall>d \<in> set slt. d \<in> set (ai_company_desc h) \<or> sl_cmd d = SL_NULL"
    and "ai_saveload_version st = ai_saveload_version st2"
    and "ai_saveload_is_random st = ai_saveload_is_random st2"
    and "SlObject_load sp slt st bs = Inr (st', bs')"
  shows "\<exists>st2'. SlObject_load sp slt st2 bs = Inr (st2', bs') \<and>
           ai_saveload_version st' = ai_saveload_version st2' \<and>
           ai_saveload_is_random st' = ai_saveload_is_random st2' \<and>
           (ai_saveload_name st = ai_saveload_name st2 \<or> loads_field h slt ''name''
            \<longrightarrow> ai_saveload_name st' = ai_saveload_name st2') \<and>
           (ai_saveload_settings st = ai_saveload_settings st2 \<or> loads_field h slt ''settings''
            \<longrightarrow> ai_saveload_settings st' = ai_saveload_settings st2')"
  using assms
proof (induction slt arbitrary: st st2 bs)
  case Nil
  then show ?case by (simp add: loads_field_def)
next
  case (Cons d ds)
  from Cons.prems(4) obtain st1 bs1 where
    m: "SlObjectMember_load sp d st bs = Inr (st1, bs1)" and
    l: "SlObject_load sp ds st1 bs1 = Inr (st', bs')"
    by (auto split: sum.splits)
  have dm: "d \<in> set (ai_company_desc h) \<or> sl_cmd d = SL_NULL"
    using Cons.prems(1) by simp
  from company_desc_member_lockstep[OF dm Cons.prems(2,3) m] obtain st21 where
    m2: "SlObjectMember_load sp d st2 bs = Inr (st21, bs1)" and
    v1: "ai_saveload_version st1 = ai_saveload_version st21" and
    r1: "ai_saveload_is_random st1 = ai_saveload_is_random st21" and
    n1: "ai_saveload_name st = ai_saveload_name st2 \<or>
              (d \<in> set (ai_company_desc h) \<and> sl_name d = ''name'')
            \<longrightarrow> ai_saveload_name st1 = ai_saveload_name st21" and
    s1: "ai_saveload_settings st = ai_saveload_settings st2 \<or>
              (d \<in> set (ai_company_desc h) \<and> sl_name d = ''settings'')
            \<longrightarrow> ai_saveload_settings st1 = ai_saveload_settings st21"
    by blast
  have dsm: "\<forall>d \<in> set ds. d \<in> set (ai_company_desc h) \<or> sl_cmd d = SL_NULL"
    using Cons.prems(1) by simp
  from Cons.IH[OF dsm v1 r1 l] obtain st2' where
    l2: "SlObject_load sp ds st21 bs1 = Inr (st2', bs')" and
    v2: "ai_saveload_version st' = ai_saveload_version st2'" and
    r2: "ai_saveload_is_random st' = ai_saveload_is_random st2'" and
    n2: "ai_saveload_name st1 = ai_saveload_name st21 \<or> loads_field h ds ''name''
            \<longrightarrow> ai_saveload_name st' = ai_saveload_name st2'" and
    s2: "ai_saveload_settings st1 = ai_saveload_settings st21 \<or> loads_field h ds ''settings''
            \<longrightarrow> ai_saveload_settings st' = ai_saveload_settings st2'"
    by blast
  have "SlObject_load sp (d # ds) st2 bs = Inr (st2', bs')"
    using m2 l2 by simp
  moreover have "ai_saveload_name st = ai_saveload_name st2 \<or> loads_field h (d # ds) ''name''
            \<longrightarrow> ai_saveload_name st' = ai_saveload_name st2'"
    using n1 n2 by (auto simp: loads_field_def)
  moreover have "ai_saveload_settings st = ai_saveload_settings st2 \<or> loads_field h (d # ds) ''settings''
            \<longrightarrow> ai_saveload_settings st' = ai_saveload_settings st2'"
    using s1 s2 by (auto simp: loads_field_def)
  ultimately show ?case using v2 r2 by blast
qed

lemma Load_fields_lockstep:
  assumes "\<forall>d \<in> set slt. d \<in> set (ai_company_desc env) \<or> sl_cmd d = SL_NULL"
    and "loads_field env slt ''name''" and "loads_field env slt ''settings''"
    and "Load_fields env slt body a = Inr (a1, body1)"
  shows "a1 = a\<lparr>staged := staged a1\<rparr> \<and>
         Load_fields env slt body b = Inr (b\<lparr>staged := staged a1\<rparr>, body1)"
proof -
  let ?sa = "(staged a)\<lparr>ai_saveload_is_random := False, ai_saveload_version := - 1\<rparr>"
  let ?sb = "(staged b)\<lparr>ai_saveload_is_random := False, ai_saveload_version := - 1\<rparr>"
  from assms(4) have
    l: "SlObject_load (sl_params env) slt ?sa body = Inr (staged a1, body1)" and
    e: "a1 = a\<lparr>staged := staged a1\<rparr>"
    by (auto simp: Load_fields_def Let_def split: sum.splits)
  from company_desc_lockstep[OF assms(1) _ _ l, of ?sb] assms(2,3) obtain st2' where
    l2: "SlObject_load (sl_params env) slt ?sb body = Inr (st2', body1)" and
    f: "ai_saveload_version (staged a1) = ai_saveload_version st2'"
       "ai_saveload_is_random (staged a1) = ai_saveload_is_random st2'"
       "ai_saveload_name (staged a1) = ai_saveload_name st2'"
       "ai_saveload_settings (staged a1) = ai_saveload_settings st2'"
    by auto
  have "st2' = staged a1"
    by (rule ai_saveload.equality) (simp_all add: f)
  then show ?thesis using l2 e by (simp add: Load_fields_def Let_def)
qed

lemma alike_refl_converge: "alike a b \<Longrightarrow> converge a b a b"
  by (simp add: converge_def)

lemma converge_alike: "converge a b a' b' \<Longrightarrow> alike a' b'"
  by (simp add: converge_def)

lemma converge_trans:
  assumes "converge a b a1 b1" and "converge a1 b1 a' b'"
  shows "converge a b a' b'"
  unfolding converge_def
proof (intro conjI allI)
  show "alike a' b'" using assms(2) by (simp add: converge_def)
  show "staged a' = staged b' \<or> (staged a' = staged a \<and> staged b' = staged b)"
    using assms unfolding converge_def by metis
  show "cfg_name (script_config_ai a' c) = cfg_name (script_config_ai b' c) \<or>
           (cfg_name (script_config_ai a' c) = cfg_name (script_config_ai a c) \<and>
            cfg_name (script_config_ai b' c) = cfg_name (script_config_ai b c))" for c
  proof -
    have 1: "cfg_name (script_config_ai a1 c) = cfg_name (script_config_ai b1 c) \<or>
           (cfg_name (script_config_ai a1 c) = cfg_name (script_config_ai a c) \<and>
            cfg_name (script_config_ai b1 c) = cfg_name (script_config_ai b c))"
      using assms(1) by (simp add: converge_def)
    have 2: "cfg_name (script_config_ai a' c) = cfg_name (script_config_ai b' c) \<or>
           (cfg_name (script_config_ai a' c) = cfg_name (script_config_ai a1 c) \<and>
            cfg_name (script_config_ai b' c) = cfg_name (script_config_ai b1 c))"
      using assms(2) by (simp add: converge_def)
    from 1 2 show ?thesis by metis
  qed
  show "company_config a' i = company_config b' i \<or>
           (company_config a' i = company_config a i \<and>
            company_config b' i = company_config b i)" for i
  proof -
    have 1: "company_config a1 i = company_config b1 i \<or>
           (company_config a1 i = company_config a i \<and> company_config b1 i = company_config b i)"
      using assms(1) by (simp add: converge_def)
    have 2: "company_config a' i = company_config b' i \<or>
           (company_config a' i = company_config a1 i \<and> company_config b' i = company_config b1 i)"
      using assms(2) by (simp add: converge_def)
    from 1 2 show ?thesis by metis
  qed
qed

lemma alike_IsValidAiID: "alike a b \<Longrightarrow> IsValidAiID a i = IsValidAiID b i"
proof -
  assume "alike a b"
  then have "company_kind a i = company_kind b i" by (simp add: alike_def)
  then show ?thesis
    by (cases "companies a i"; cases "companies b i")
       (auto simp: company_kind_def IsValidAiID_def)
qed

lemma converge_staged:
  assumes "alike a b"
  shows "converge a b (a\<lparr>staged := s\<rparr>) (b\<lparr>staged := s\<rparr>)"
  using assms by (simp add: converge_def alike_def company_kind_def company_config_def)

lemma Load_skip_lockstep:
  assumes "alike a b" and "staged a = staged b" and "Load_skip env i body a = Inr a'"
  shows "\<exists>b'. Load_skip env i body b = Inr b' \<and> converge a b a' b'"
proof (cases "IsValidAiID a i")
  case False
  then have "a' = a" "Load_skip env i body b = Inr b"
    using assms alike_IsValidAiID[OF assms(1), of i] by (simp_all add: Load_skip_def)
  then show ?thesis using alike_refl_converge[OF assms(1)] by simp
next
  case True
  then have vb: "IsValidAiID b i" using alike_IsValidAiID[OF assms(1), of i] by simp
  from True assms(3) obtain st body' where
    l: "SlObject_load (sl_params env) (ai_running_desc env) (staged a) body = Inr (st, body')" and
    e: "a' = a\<lparr>staged := st\<rparr>" and
    u: "AIInstance_LoadEmpty env body' = Inr ()"
    by (auto simp: Load_skip_def split: sum.splits)
  have "Load_skip env i body b = Inr (b\<lparr>staged := st\<rparr>)"
    using vb l u assms(2) by (simp add: Load_skip_def)
  then show ?thesis using e converge_staged[OF assms(1), of st] by simp
qed

lemma Load_config_lockstep:
  assumes "alike a b" and "staged a = staged b"
  shows "converge a b (Load_config env i a) (Load_config env i b)"
proof -
  have r: "same_cfg_rest (script_config_ai a c) (script_config_ai b c)" for c
    using assms(1) by (simp add: alike_def)
  have k: "company_kind (Load_config env i x) = company_kind x"
          "company_config (Load_config env i x) = company_config x" for x j
    by (simp_all add: fun_eq_iff Load_config_def company_kind_def company_config_def Let_def)
  let ?A = "script_config_ai (Load_config env i a)"
  let ?B = "script_config_ai (Load_config env i b)"
  have o: "?A c = script_config_ai a c" "?B c = script_config_ai b c" if "c \<noteq> i" for c
    using that by (simp_all add: Load_config_def Let_def)
  have s: "same_cfg_rest (?A i) (?B i) \<and>
           (cfg_name (?A i) = cfg_name (?B i) \<or>
            (cfg_name (?A i) = cfg_name (script_config_ai a i) \<and>
             cfg_name (?B i) = cfg_name (script_config_ai b i)))"
    using assms(2)
    by (simp add: Load_config_def Let_def Change_def HasScript_def StringToSettings_def
        same_cfg_rest_def)
  have al: "alike (Load_config env i a) (Load_config env i b)"
    unfolding alike_def k
  proof (intro conjI allI)
    show "company_kind a j = company_kind b j" for j using assms(1) by (simp add: alike_def)
    show "same_cfg_rest (?A c) (?B c)" for c
      using s r[of c] o[of c] by (cases "c = i") simp_all
  qed
  show ?thesis
    unfolding converge_def k
  proof (intro conjI allI)
    show "alike (Load_config env i a) (Load_config env i b)" by (rule al)
    show "staged (Load_config env i a) = staged (Load_config env i b) \<or>
       (staged (Load_config env i a) = staged a \<and> staged (Load_config env i b) = staged b)"
      by simp
    show "cfg_name (?A c) = cfg_name (?B c) \<or>
           (cfg_name (?A c) = cfg_name (script_config_ai a c) \<and>
            cfg_name (?B c) = cfg_name (script_config_ai b c))" for c
      using s o[of c] by (cases "c = i") simp_all
    show "company_config a j = company_config b j \<or>
          (company_config a j = company_config a j \<and> company_config b j = company_config b j)" for j
      by simp
  qed
qed

lemma company_kind_set_company_config [simp]:
  "company_kind (set_company_config i c w) j = company_kind w j"
  by (cases "companies w i") (auto simp: set_company_config_def company_kind_def)

lemma company_config_set_company_config:
  "company_config (set_company_config i c w) j =
     (if j = i \<and> companies w i \<noteq> None then Some c else company_config w j)"
  by (cases "companies w i") (auto simp: set_company_config_def company_config_def)

lemma script_config_ai_set_company_config [simp]:
  "script_config_ai (set_company_config i c w) = script_config_ai w"
  by (cases "companies w i") (simp_all add: set_company_config_def)

lemma companies_set_company_config_None [simp]:
  "companies (set_company_config i c w) j = None \<longleftrightarrow> companies w j = None"
  by (cases "companies w i") (simp_all add: set_company_config_def)

lemma company_kind_updates [simp]:
  "company_kind (w\<lparr>staged := s\<rparr>) j = company_kind w j"
  "company_kind (w\<lparr>debug_out := m\<rparr>) j = company_kind w j"
  by (simp_all add: company_kind_def)

lemma company_config_updates [simp]:
  "company_config (w\<lparr>staged := s\<rparr>) j = company_config w j"
  "company_config (w\<lparr>debug_out := m\<rparr>) j = company_config w j"
  by (simp_all add: company_config_def)

lemma alike_company_None: "alike a b \<Longrightarrow> companies a i = None \<longleftrightarrow> companies b i = None"
proof -
  assume "alike a b"
  then have "company_kind a i = company_kind b i" by (simp add: alike_def)
  then show ?thesis
    by (cases "companies a i"; cases "companies b i") (simp_all add: company_kind_def)
qed

lemma Load_running_lockstep:
  assumes al: "alike a b" and sa: "staged a = staged b" and va: "IsValidAiID a i"
    and ra: "Load_running env i body a = Inr a'"
  shows "\<exists>b'. Load_running env i body b = Inr b' \<and> converge a b a' b'"
proof -
  from ra obtain st body' where
    l: "SlObject_load (sl_params env) (ai_running_desc env) (staged a) body = Inr (st, body')"
    by (auto simp: Load_running_def split: sum.splits)
  define config1 where
    "config1 = Change (FindInfo env) (Some (ai_saveload_name st)) (ai_saveload_version st) False new_AIConfig"
  define config2 where
    "config2 = Change (FindInfo env) (Some (ai_saveload_name st)) (- 1) False config1"
  define msgs where
    "msgs = (if \<not> HasScript config1
             then (if \<not> HasScript config2
                   then (if ai_saveload_name st \<noteq> ''%_dummy''
                         then [Dbg_no_longer_available (ai_saveload_name st) (ai_saveload_version st),
                               Dbg_random_other_loaded]
                         else [Dbg_no_ais_at_saving, Dbg_random_available_loaded])
                   else [Dbg_no_longer_available (ai_saveload_name st) (ai_saveload_version st),
                         Dbg_latest_loaded_without_data])
             else [])"
  define st' where
    "st' = (if \<not> HasScript config1 then st\<lparr>ai_saveload_version := - 1\<rparr> else st)"
  define config' where
    "config' = StringToSettings (ai_saveload_settings st')
                 (if \<not> HasScript config1 then config2 else config1)"
  define W where
    "W = (\<lambda>w. (set_company_config i config' w)\<lparr>staged := st', debug_out := debug_out w @ msgs\<rparr>)"
  have eqn: "Load_running env i body w =
      (case AIInstance_Load env (ai_saveload_version st') body' of
         Inl e \<Rightarrow> Inl (e, W w)
       | Inr d \<Rightarrow> Inr (set_company_config i (SetToLoadData d config') (W w)))"
    if "staged w = staged a" for w
    using l that
    by (simp add: Load_running_def Let_def W_def config'_def st'_def msgs_def config2_def config1_def
        split del: if_split cong: if_cong sum.case_cong)
  from ra eqn[of a] obtain d where
    d: "AIInstance_Load env (ai_saveload_version st') body' = Inr d" and
    a': "a' = set_company_config i (SetToLoadData d config') (W a)"
    by (auto split: sum.splits)
  let ?b' = "set_company_config i (SetToLoadData d config') (W b)"
  have rb: "Load_running env i body b = Inr ?b'"
    using eqn[of b] sa d by simp
  have na: "companies a i \<noteq> None"
    using va by (auto simp: IsValidAiID_def split: option.splits)
  then have nb: "companies b i \<noteq> None"
    using alike_company_None[OF al, of i] by simp
  have "converge a b a' ?b'"
    unfolding converge_def
  proof (intro conjI allI)
    show "alike a' ?b'"
      using al by (simp add: alike_def a' W_def)
    show "staged a' = staged ?b' \<or> (staged a' = staged a \<and> staged ?b' = staged b)"
      by (simp add: a' W_def)
    show "cfg_name (script_config_ai a' c) = cfg_name (script_config_ai ?b' c) \<or>
           (cfg_name (script_config_ai a' c) = cfg_name (script_config_ai a c) \<and>
            cfg_name (script_config_ai ?b' c) = cfg_name (script_config_ai b c))" for c
      by (simp add: a' W_def)
    show "company_config a' j = company_config ?b' j \<or>
           (company_config a' j = company_config a j \<and>
            company_config ?b' j = company_config b j)" for j
      using na nb by (simp add: a' W_def company_config_set_company_config)
  qed
  with rb show ?thesis by blast
qed

lemma Load_record_lockstep:
  assumes "\<forall>d \<in> set slt. d \<in> set (ai_company_desc env) \<or> sl_cmd d = SL_NULL"
    and "loads_field env slt ''name''" and "loads_field env slt ''settings''"
    and al: "alike a b"
    and ra: "Load_record env slt index body a = Inr a'"
  shows "\<exists>b'. Load_record env slt index body b = Inr b' \<and> converge a b a' b'"
proof -
  from ra have ix: "\<not> MAX_COMPANIES env \<le> index"
    by (auto simp: Load_record_def split: if_splits)
  from ra ix obtain a1 body1 where
    fa: "Load_fields env slt body a = Inr (a1, body1)"
    by (auto simp: Load_record_def split: sum.splits)
  from Load_fields_lockstep[OF assms(1,2,3) fa, of b] have
    a1: "a1 = a\<lparr>staged := staged a1\<rparr>" and
    fb: "Load_fields env slt body b = Inr (b\<lparr>staged := staged a1\<rparr>, body1)"
    by simp_all
  let ?b1 = "b\<lparr>staged := staged a1\<rparr>"
  have c1: "converge a b a1 ?b1"
    using converge_staged[OF al, of "staged a1"] a1 by simp
  have al1: "alike a1 ?b1" using c1 by (rule converge_alike)
  have s1: "staged a1 = staged ?b1" by simp
  show ?thesis
  proof (cases "game_mode env = GM_MENU \<or> (networking env \<and> \<not> network_server env)")
    case True
    then have "Load_skip env index body1 a1 = Inr a'"
      using ra ix fa by (auto simp: Load_record_def)
    from Load_skip_lockstep[OF al1 s1 this] obtain b' where
      "Load_skip env index body1 ?b1 = Inr b'" "converge a1 ?b1 a' b'"
      by blast
    then show ?thesis
      using True ix fb converge_trans[OF c1] by (auto simp: Load_record_def)
  next
    case False
    let ?a2 = "Load_config env index a1"
    let ?b2 = "Load_config env index ?b1"
    have c2: "converge a1 ?b1 ?a2 ?b2"
      using Load_config_lockstep[OF al1 s1] .
    have c12: "converge a b ?a2 ?b2"
      using converge_trans[OF c1 c2] .
    have al2: "alike ?a2 ?b2" using c2 by (rule converge_alike)
    have s2: "staged ?a2 = staged ?b2" by simp
    show ?thesis
    proof (cases "IsValidAiID ?a2 index")
      case v: False
      then have "a' = ?a2"
        using ra ix fa False by (auto simp: Load_record_def Let_def)
      moreover have "Load_record env slt index body b = Inr ?b2"
        using v alike_IsValidAiID[OF al2, of index] ix fb False
        by (auto simp: Load_record_def Let_def)
      ultimately show ?thesis using c12 by simp
    next
      case v: True
      then have "Load_running env index body1 ?a2 = Inr a'"
        using ra ix fa False by (auto simp: Load_record_def Let_def)
      from Load_running_lockstep[OF al2 s2 v this] obtain b' where
        rb: "Load_running env index body1 ?b2 = Inr b'" and c3: "converge ?a2 ?b2 a' b'"
        by blast
      have "Load_record env slt index body b = Inr b'"
        using v alike_IsValidAiID[OF al2, of index] ix fb False rb
        by (auto simp: Load_record_def Let_def)
      then show ?thesis using converge_trans[OF c12 c3] by blast
    qed
  qed
qed

lemma Load_loop_lockstep:
  assumes "\<forall>d \<in> set slt. d \<in> set (ai_company_desc env) \<or> sl_cmd d = SL_NULL"
    and "loads_field env slt ''name''" and "loads_field env slt ''settings''"
    and "alike a b"
    and "Load_loop env slt bs a = Inr a'"
  shows "\<exists>b'. Load_loop env slt bs b = Inr b' \<and> converge a b a' b'"
  using assms
proof (induction env slt bs a arbitrary: b rule: Load_loop.induct)
  case (1 env slt bs a)
  from "1.prems"(5) obtain index body rest where
    it: "SlIterateArray bs = Inr (index, body, rest)"
    by (subst (asm) Load_loop.simps) (auto split: sum.splits)
  show ?case
  proof (cases "CompanyID_cast env index = CompanyID_cast env (- 1)")
    case True
    then have "a' = a" "Load_loop env slt bs b = Inr b"
      using "1.prems"(5) it by (simp_all add: Load_loop.simps[of env slt bs])
    then show ?thesis using alike_refl_converge[OF "1.prems"(4)] by simp
  next
    case False
    from "1.prems"(5) it False obtain a1 where
      ra: "Load_record env slt (CompanyID_cast env index) body a = Inr a1" and
      la: "Load_loop env slt rest a1 = Inr a'"
      by (subst (asm) Load_loop.simps) (auto split: sum.splits)
    from Load_record_lockstep[OF "1.prems"(1,2,3,4) ra] obtain b1 where
      rb: "Load_record env slt (CompanyID_cast env index) body b = Inr b1" and c1: "converge a b a1 b1"
      by blast
    from "1.IH"[OF it refl refl False ra "1.prems"(1,2,3) converge_alike[OF c1] la]
    obtain b' where
      lb: "Load_loop env slt rest b1 = Inr b'" and c2: "converge a1 b1 a' b'"
      by blast
    have "Load_loop env slt bs b = Inr b'"
      using it False rb lb by (simp add: Load_loop.simps[of env slt bs])
    then show ?thesis using converge_trans[OF c1 c2] by blast
  qed
qed

lemma Load_fields_frame:
  "Load_fields env slt body a = Inr (a1, body1) \<Longrightarrow>
   script_config_ai a1 = script_config_ai a \<and> companies a1 = companies a"
  by (auto simp: Load_fields_def Let_def split: sum.splits)

lemma Load_skip_frame:
  "Load_skip env i body a = Inr a' \<Longrightarrow>
   script_config_ai a' = script_config_ai a \<and> companies a' = companies a"
  by (auto simp: Load_skip_def split: if_splits sum.splits)

lemma Load_config_frame:
  "companies (Load_config env i a) = companies a \<and>
   (c \<noteq> i \<longrightarrow> script_config_ai (Load_config env i a) c = script_config_ai a c)"
  by (simp add: Load_config_def Let_def)

lemma Load_running_frame:
  assumes "Load_running env i body a = Inr a'"
  shows "script_config_ai a' = script_config_ai a \<and> company_kind a' j = company_kind a j \<and>
         (j \<noteq> i \<longrightarrow> companies a' j = companies a j)"
  using assms
  by (auto simp: Load_running_def Let_def company_kind_def set_company_config_def
      split: sum.splits option.splits)

lemma Load_record_frame:
  assumes "Load_record env slt index body a = Inr a'"
  shows "index < MAX_COMPANIES env \<and> company_kind a' j = company_kind a j \<and>
         (c \<noteq> index \<longrightarrow> script_config_ai a' c = script_config_ai a c \<and>
            companies a' c = companies a c)"
proof -
  from assms have ix: "index < MAX_COMPANIES env"
    by (auto simp: Load_record_def split: if_splits)
  from assms ix obtain a1 body1 where
    fa: "Load_fields env slt body a = Inr (a1, body1)"
    by (auto simp: Load_record_def split: sum.splits)
  note f1 = Load_fields_frame[OF fa]
  show ?thesis
  proof (cases "game_mode env = GM_MENU \<or> (networking env \<and> \<not> network_server env)")
    case True
    then have "Load_skip env index body1 a1 = Inr a'"
      using assms ix fa by (auto simp: Load_record_def)
    from Load_skip_frame[OF this] f1 ix show ?thesis by (simp add: company_kind_def)
  next
    case False
    let ?a2 = "Load_config env index a1"
    have f2: "companies ?a2 = companies a"
        "c \<noteq> index \<longrightarrow> script_config_ai ?a2 c = script_config_ai a c"
      using Load_config_frame[of env index a1 c] f1 by auto
    from assms ix fa False have
      "a' = ?a2 \<or> Load_running env index body1 ?a2 = Inr a'"
      by (auto simp: Load_record_def Let_def split: if_splits)
    then show ?thesis
    proof
      assume "a' = ?a2"
      then show ?thesis using f2 ix by (simp add: company_kind_def)
    next
      assume r: "Load_running env index body1 ?a2 = Inr a'"
      from Load_running_frame[OF r, of j] Load_running_frame[OF r, of c] f2 ix
      show ?thesis by (simp add: company_kind_def)
    qed
  qed
qed

lemma Load_loop_frame:
  assumes "Load_loop env slt bs a = Inr a'"
  shows "company_kind a' j = company_kind a j \<and>
         (MAX_COMPANIES env \<le> c \<longrightarrow> script_config_ai a' c = script_config_ai a c)"
  using assms
proof (induction env slt bs a rule: Load_loop.induct)
  case (1 env slt bs a)
  from "1.prems" obtain index body rest where
    it: "SlIterateArray bs = Inr (index, body, rest)"
    by (subst (asm) Load_loop.simps) (auto split: sum.splits)
  show ?case
  proof (cases "CompanyID_cast env index = CompanyID_cast env (- 1)")
    case True
    then have "a' = a"
      using "1.prems" it by (simp add: Load_loop.simps[of env slt bs])
    then show ?thesis by simp
  next
    case False
    from "1.prems" it False obtain a1 where
      ra: "Load_record env slt (CompanyID_cast env index) body a = Inr a1" and
      la: "Load_loop env slt rest a1 = Inr a'"
      by (subst (asm) Load_loop.simps) (auto split: sum.splits)
    from Load_record_frame[OF ra, of j c] "1.IH"[OF it refl refl False ra la]
    show ?thesis by auto
  qed
qed

lemma same_cfg_rest_eq:
  "same_cfg_rest c c' \<Longrightarrow> cfg_name c = cfg_name c' \<Longrightarrow> c = c'"
  by (cases c; cases c') (simp add: same_cfg_rest_def)

lemma company_eq:
  assumes "company_kind a i = company_kind b i" and "company_config a i = company_config b i"
  shows "companies a i = companies b i"
  using assms
  by (cases "companies a i"; cases "companies b i")
     (auto simp: company_kind_def company_config_def)

lemma Load_free_all_facts:
  "staged (Load_free_all env w) = staged w"
  "companies (Load_free_all env w) = companies w"
  "cfg_name (script_config_ai (Load_free_all env w) c) = cfg_name (script_config_ai w c)"
  "c < MAX_COMPANIES env \<Longrightarrow> \<not> HasScript (script_config_ai (Load_free_all env w) c)"
  "c < MAX_COMPANIES env \<Longrightarrow>
     same_cfg_rest (script_config_ai (Load_free_all env w) c) (script_config_ai (Load_free_all env v) c)"
  "\<not> c < MAX_COMPANIES env \<Longrightarrow> script_config_ai (Load_free_all env w) c = script_config_ai w c"
  by (simp_all add: Load_free_all_def Change_def HasScript_def same_cfg_rest_def)

lemma Load_loop_twice:
  assumes el: "\<forall>d \<in> set slt. d \<in> set (ai_company_desc env) \<or> sl_cmd d = SL_NULL"
    and ln: "loads_field env slt ''name''" and ls: "loads_field env slt ''settings''"
    and l1: "Load_loop env slt rest (Load_free_all env w) = Inr w1"
  shows "\<exists>w2. Load_loop env slt rest (Load_free_all env w1) = Inr w2 \<and> staged w2 = staged w1 \<and>
           script_config_ai w2 = script_config_ai w1 \<and> companies w2 = companies w1"
proof -
  let ?a = "Load_free_all env w"
  let ?b = "Load_free_all env w1"
  note fr = Load_loop_frame[OF l1]
  have al: "alike ?a ?b"
    unfolding alike_def
  proof (intro conjI allI)
    show "company_kind ?a i = company_kind ?b i" for i
      using fr[of i 0] by (simp add: company_kind_def Load_free_all_facts)
    show "same_cfg_rest (script_config_ai ?a c) (script_config_ai ?b c)" for c
    proof (cases "c < MAX_COMPANIES env")
      case True
      then show ?thesis by (rule Load_free_all_facts)
    next
      case False
      then have "script_config_ai ?b c = script_config_ai ?a c"
        using fr[of 0 c] by (simp add: Load_free_all_facts)
      then show ?thesis by (simp add: same_cfg_rest_def)
    qed
  qed
  from Load_loop_lockstep[OF el ln ls al l1] obtain w2 where
    l2: "Load_loop env slt rest ?b = Inr w2" and c: "converge ?a ?b w1 w2"
    by blast
  have st: "staged w2 = staged w1"
    using c by (auto simp: converge_def Load_free_all_facts)
  have sc: "script_config_ai w2 c = script_config_ai w1 c" for c
  proof -
    have "same_cfg_rest (script_config_ai w1 c) (script_config_ai w2 c)"
      using c by (simp add: converge_def alike_def)
    moreover have "cfg_name (script_config_ai w1 c) = cfg_name (script_config_ai w2 c)"
      using c unfolding converge_def by (metis Load_free_all_facts(3))
    ultimately show ?thesis using same_cfg_rest_eq by metis
  qed
  have co: "companies w2 i = companies w1 i" for i
  proof -
    have "company_kind w1 i = company_kind w2 i"
      using c by (simp add: converge_def alike_def)
    moreover have "company_config w1 i = company_config w2 i"
    proof -
      have "company_config ?b i = company_config w1 i"
        by (simp add: company_config_def Load_free_all_facts)
      then show ?thesis using c unfolding converge_def by metis
    qed
    ultimately show ?thesis using company_eq[of w2 i w1] by simp
  qed
  from l2 st sc co show ?thesis by (auto simp: fun_eq_iff)
qed

lemma stale_header_resolved:
  "SlCompatTableHeader (sl_params sample_env) (ai_company_desc sample_env)
     (ai_company_sl_compat sample_env) (stale_header @ tail) = Inr ([settings_desc], tail)"
proof -
  have "SlReadTableFields 255 (length [(''settings'', SLE_STR)])
          (concat (map SlWriteTableField [(''settings'', SLE_STR)]) @ tail) =
        Inr ([(''settings'', SLE_STR)], tail)"
    by (rule SlReadTableFields_written) simp_all
  then have "SlReadTableHeader 255 (stale_header @ tail) = Inr ([(''settings'', SLE_STR)], tail)"
    using SlReadUint_be_bytes[of 1 4 "SlWriteTableField (''settings'', SLE_STR) @ tail"]
    by (simp add: SlReadTableHeader_def stale_header_def del: be_bytes.simps SlReadTableFields.simps)
  then show ?thesis
    by (simp add: SlCompatTableHeader_def sample_env_def SlResolveField_def ai_company_desc_def
        settings_desc_def SLEG_SSTR_def SLEG_CONDSSTR_def SLEG_CONDVAR_UINT32_def SLEG_CONDVAR_BOOL_def)
qed

lemma stale_body_length: "length stale_body = 34"
  by (simp add: stale_body_def sample_env_def stale_running_def ai_running_desc_def
      SLEG_CONDSSTR_def SLEG_CONDVAR_UINT32_def SlObjectMember_save_def
      SlIsObjectValidInSavegame_def is_conditional_def SlWriteString_def del: be_bytes.simps)

lemma stale_Load_fields:
  "Load_fields sample_env [settings_desc] stale_body w =
     Inr (w\<lparr>staged := (staged w)\<lparr>ai_saveload_is_random := False, ai_saveload_version := - 1,
                                  ai_saveload_settings := ''a=1''\<rparr>\<rparr>,
          SlObject_save (sl_params sample_env) (ai_running_desc sample_env) stale_running @ [1, 2, 3])"
  using SlReadString_SlWriteString[of "''a=1''" 255
      "SlObject_save (sl_params sample_env) (ai_running_desc sample_env) stale_running @ [1, 2, 3]"]
  by (simp add: Load_fields_def Let_def stale_body_def settings_desc_def SLEG_SSTR_def
      SLEG_CONDSSTR_def SlObjectMember_load_def SlIsObjectValidInSavegame_def is_conditional_def,
      simp add: sample_env_def)

lemma stale_running_load:
  "SlObject_load (sl_params sample_env) (ai_running_desc sample_env) st
     (SlObject_save (sl_params sample_env) (ai_running_desc sample_env) stale_running @ [1, 2, 3]) =
   Inr (st\<lparr>ai_saveload_name := ''AdmiralAI'', ai_saveload_settings := ''b=2'',
            ai_saveload_version := 25\<rparr>, [1, 2, 3])"
  by (simp add: sample_env_def stale_running_def ai_running_desc_def sl_eval del: be_bytes.simps)

lemma stale_Load_record:
  assumes "companies w 1 = Some \<lparr>is_ai = True, ai_config = x\<rparr>"
    and "ai_saveload_name (staged w) \<noteq> []"
  shows "\<exists>w'. Load_record sample_env [settings_desc] 1 stale_body w = Inr w' \<and>
           cfg_info (script_config_ai w' 1) = sample_FindInfo (ai_saveload_name (staged w)) (- 1) False \<and>
           ai_saveload_name (staged w') = ''AdmiralAI'' \<and>
           (\<exists>y. companies w' 1 = Some \<lparr>is_ai = True, ai_config = y\<rparr>)"
proof -
  let ?w1 = "w\<lparr>staged := (staged w)\<lparr>ai_saveload_is_random := False, ai_saveload_version := - 1,
                                  ai_saveload_settings := ''a=1''\<rparr>\<rparr>"
  let ?w2 = "Load_config sample_env 1 ?w1"
  have c: "cfg_info (script_config_ai ?w2 1) = sample_FindInfo (ai_saveload_name (staged w)) (- 1) False"
    using assms(2)
    by (simp add: Load_config_def Let_def Change_def HasScript_def StringToSettings_def sample_env_def)
  have s: "staged ?w2 = staged ?w1" "companies ?w2 = companies w"
    by (simp_all add: Load_config_def Let_def)
  have v: "IsValidAiID ?w2 1"
    using assms(1) s by (simp add: IsValidAiID_def)
  have l: "SlObject_load (sl_params sample_env) (ai_running_desc sample_env) (staged ?w2)
     (SlObject_save (sl_params sample_env) (ai_running_desc sample_env) stale_running @ [1, 2, 3]) =
     Inr ((staged ?w1)\<lparr>ai_saveload_name := ''AdmiralAI'', ai_saveload_settings := ''b=2'',
            ai_saveload_version := 25\<rparr>, [1, 2, 3])"
    unfolding s by (rule stale_running_load)
  have a: "AIInstance_Load sample_env 25 [1, 2, 3] = Inr (Some [1, 2, 3])"
    by (simp add: sample_env_def)
  have f: "FindInfo sample_env ''AdmiralAI'' 25 False = Some (''AdmiralAI'', 25)"
    by (simp add: sample_env_def sample_FindInfo_def)
  define w' where "w' = (set_company_config 1
            \<lparr>cfg_name = ''AdmiralAI'', cfg_version = 25, cfg_info = Some (''AdmiralAI'', 25),
             cfg_settings = ''b=2'', cfg_to_load_data = Some [1, 2, 3]\<rparr> ?w2)
          \<lparr>staged := (staged ?w1)\<lparr>ai_saveload_name := ''AdmiralAI'', ai_saveload_settings := ''b=2'',
            ai_saveload_version := 25\<rparr>\<rparr>"
  have r: "Load_running sample_env 1
      (SlObject_save (sl_params sample_env) (ai_running_desc sample_env) stale_running @ [1, 2, 3]) ?w2
      = Inr w'"
    using Load_running_available[OF l, of "(''AdmiralAI'', 25)" "Some [1, 2, 3]" 1] a f
    by (simp add: w'_def)
  have p: "script_config_ai w' = script_config_ai ?w2" "ai_saveload_name (staged w') = ''AdmiralAI''"
       "\<exists>y. companies w' 1 = Some \<lparr>is_ai = True, ai_config = y\<rparr>"
    using assms(1) s(2) by (simp_all add: w'_def set_company_config_def)
  have "Load_record sample_env [settings_desc] 1 stale_body w = Inr w'"
    unfolding Load_record_def stale_Load_fields
    using v r by (simp add: Let_def) (simp add: sample_env_def)
  then show ?thesis using c p by auto
qed

lemma stale_Load:
  assumes "companies w 1 = Some \<lparr>is_ai = True, ai_config = x\<rparr>"
    and "ai_saveload_name (staged w) \<noteq> []"
  shows "\<exists>w'. Load sample_env stale_chunk w = Inr w' \<and>
           cfg_info (script_config_ai w' 1) = sample_FindInfo (ai_saveload_name (staged w)) (- 1) False \<and>
           ai_saveload_name (staged w') = ''AdmiralAI'' \<and>
           (\<exists>y. companies w' 1 = Some \<lparr>is_ai = True, ai_config = y\<rparr>)"
proof -
  let ?w0 = "Load_free_all sample_env w"
  have "companies ?w0 1 = Some \<lparr>is_ai = True, ai_config = x\<rparr>"
       "ai_saveload_name (staged ?w0) \<noteq> []" "staged ?w0 = staged w"
    using assms by (simp_all add: Load_free_all_facts)
  from stale_Load_record[OF this(1,2)] this(3) obtain w' where
    r: "Load_record sample_env [settings_desc] 1 stale_body ?w0 = Inr w'" and
    p: "cfg_info (script_config_ai w' 1) = sample_FindInfo (ai_saveload_name (staged w)) (- 1) False"
       "ai_saveload_name (staged w') = ''AdmiralAI''"
       "\<exists>y. companies w' 1 = Some \<lparr>is_ai = True, ai_config = y\<rparr>"
    by auto
  have "Load sample_env stale_chunk w = Inr w'"
    using Load_loop_record[of 1 stale_body sample_env "[settings_desc]" SlArrayEnd ?w0]
      Load_loop_end[of sample_env "[settings_desc]" "[]" w'] r
    by (simp add: Load_def stale_chunk_def stale_header_resolved SL_ARRAY_END_def stale_body_length)
  then show ?thesis using p by blast
qed

section \<open>Records written and records applied\<close>







lemma Load_fields_keeps:
  "script_config_ai (state_after (case Load_fields env slt body w of Inl ew \<Rightarrow> Inl ew | Inr (w1, b) \<Rightarrow> Inr w1))
     = script_config_ai w \<and>
   companies (state_after (case Load_fields env slt body w of Inl ew \<Rightarrow> Inl ew | Inr (w1, b) \<Rightarrow> Inr w1))
     = companies w \<and>
   debug_out (state_after (case Load_fields env slt body w of Inl ew \<Rightarrow> Inl ew | Inr (w1, b) \<Rightarrow> Inr w1))
     = debug_out w"
  by (simp add: Load_fields_def state_after_def Let_def split: sum.splits prod.splits)

lemma Load_skip_keeps:
  "script_config_ai (state_after (Load_skip env i body w)) = script_config_ai w \<and>
   companies (state_after (Load_skip env i body w)) = companies w \<and>
   debug_out (state_after (Load_skip env i body w)) = debug_out w"
  by (simp add: Load_skip_def state_after_def split: sum.splits prod.splits)

lemma Load_record_skips:
  assumes "game_mode env = GM_MENU \<or> (networking env \<and> \<not> network_server env)"
  shows "script_config_ai (state_after (Load_record env slt index body w)) = script_config_ai w \<and>
         companies (state_after (Load_record env slt index body w)) = companies w \<and>
         debug_out (state_after (Load_record env slt index body w)) = debug_out w"
proof (cases "MAX_COMPANIES env \<le> index")
  case True
  then show ?thesis by (simp add: Load_record_def state_after_def)
next
  case False
  show ?thesis
  proof (cases "Load_fields env slt body w")
    case (Inl ew)
    then show ?thesis
      using False Load_fields_keeps[of env slt body w] by (simp add: Load_record_def)
  next
    case (Inr x)
    obtain w1 b where x: "x = (w1, b)" by (cases x)
    have "script_config_ai w1 = script_config_ai w \<and> companies w1 = companies w \<and>
          debug_out w1 = debug_out w"
      using Load_fields_keeps[of env slt body w] Inr x by (simp add: state_after_def)
    then show ?thesis
      using False assms Inr x Load_skip_keeps[of env index b w1] by (auto simp: Load_record_def)
  qed
qed

lemma Load_loop_skips:
  assumes "game_mode env = GM_MENU \<or> (networking env \<and> \<not> network_server env)"
  shows "script_config_ai (state_after (Load_loop env slt bs w)) = script_config_ai w \<and>
         companies (state_after (Load_loop env slt bs w)) = companies w \<and>
         debug_out (state_after (Load_loop env slt bs w)) = debug_out w"
  using assms
proof (induction env slt bs w rule: Load_loop.induct)
  case (1 env slt bs w)
  show ?case
  proof (cases "SlIterateArray bs")
    case (Inl e)
    then show ?thesis by (simp add: Load_loop.simps[of env slt bs] state_after_def)
  next
    case (Inr x)
    obtain i body rest where x: "x = (i, body, rest)" by (cases x)
    show ?thesis
    proof (cases "CompanyID_cast env i = CompanyID_cast env (- 1)")
      case True
      then show ?thesis using Inr x by (simp add: Load_loop.simps[of env slt bs] state_after_def)
    next
      case False
      note k = Load_record_skips[OF "1.prems", of slt "CompanyID_cast env i" body w]
      show ?thesis
      proof (cases "Load_record env slt (CompanyID_cast env i) body w")
        case (Inl ew)
        then show ?thesis
          using Inr x False k by (simp add: Load_loop.simps[of env slt bs])
      next
        case r: (Inr w')
        have "Load_loop env slt bs w = Load_loop env slt rest w'"
          using Inr x False r by (simp add: Load_loop.simps[of env slt bs])
        then show ?thesis
          using "1.IH"[OF Inr _ _ False r "1.prems"] x k r by (simp add: state_after_def)
      qed
    qed
  qed
qed

lemma Load_skips:
  assumes "game_mode env = GM_MENU \<or> (networking env \<and> \<not> network_server env)"
  shows "script_config_ai (state_after (Load env bs w)) =
           (case SlCompatTableHeader (sl_params env) (ai_company_desc env) (ai_company_sl_compat env) bs of
              Inl e \<Rightarrow> script_config_ai w
            | Inr x \<Rightarrow> script_config_ai (Load_free_all env w)) \<and>
         companies (state_after (Load env bs w)) = companies w \<and>
         debug_out (state_after (Load env bs w)) = debug_out w"
proof (cases "SlCompatTableHeader (sl_params env) (ai_company_desc env) (ai_company_sl_compat env) bs")
  case (Inl e)
  then show ?thesis by (simp add: Load_def state_after_def)
next
  case (Inr x)
  obtain slt rest where x: "x = (slt, rest)" by (cases x)
  show ?thesis
    using Inr x Load_loop_skips[OF assms, of slt rest "Load_free_all env w"]
    by (simp add: Load_def Load_free_all_def)
qed

lemma sample_Load_fields_more:
  assumes "sl_params env = sl_params sample_env"
  shows "Load_fields env (ai_company_desc sample_env) (sample_company_body @ ys) w =
     Inr (w\<lparr>staged := sample_old_staging\<rparr>, ys)"
  using ai_company_desc_save_then_load[of "sl_params sample_env" sample_old_staging sample_env
      "(staged w)\<lparr>ai_saveload_is_random := False, ai_saveload_version := - 1\<rparr>" ys]
  by (simp add: Load_fields_def sample_company_body_def Let_def assms,
      simp add: sample_env_def sample_old_staging_def)




lemma sample_Load_record_client:
  "Load_record client_env (ai_company_desc sample_env) 1 running_record sample_world =
     Inr (sample_world\<lparr>staged := sample_old_staging\<rparr>)"
proof -
  have f: "Load_fields client_env (ai_company_desc sample_env) running_record sample_world =
     Inr (sample_world\<lparr>staged := sample_old_staging\<rparr>, sample_running_body)"
    unfolding running_record_def
    by (rule sample_Load_fields_more) (simp add: client_env_def)
  have l: "SlObject_load (sl_params sample_env) (ai_running_desc sample_env) sample_old_staging
     sample_running_body = Inr (sample_old_staging, [1, 2, 3])"
    by (simp add: sample_running_body_def sample_env_def sample_old_staging_def
        sample_running_staging_def ai_running_desc_def sl_eval del: be_bytes.simps)
  have e: "sl_params client_env = sl_params sample_env"
      "ai_running_desc client_env = ai_running_desc sample_env"
    by (simp_all add: client_env_def ai_running_desc_def)
  have s: "Load_skip client_env 1 sample_running_body (sample_world\<lparr>staged := sample_old_staging\<rparr>) =
      Inr (sample_world\<lparr>staged := sample_old_staging\<rparr>)"
    unfolding Load_skip_def e
    by (simp add: l IsValidAiID_def) (simp add: sample_world_def client_env_def sample_env_def)
  have g: "networking client_env" "\<not> network_server client_env" "\<not> MAX_COMPANIES client_env \<le> 1"
    by (simp_all add: client_env_def sample_env_def)
  show ?thesis
    unfolding Load_record_def f
    using g s by simp
qed


section \<open>The claims\<close>

text \<open>
  C1 (round trip). For a well-formed table and a record populated within its fields' valid
  ranges, the record engine in save direction followed by the load direction, at the same
  version marker, succeeds, consumes exactly the bytes written, and leaves every active
  field with the value the original had (a field outside its version range is not transcoded
  and keeps what the destination held). For the company record of \<^verbatim>\<open>AIPL\<close>:
  name and settings always survive, version survives from version 108 on, is_random on
  its range.
\<close>

theorem SlObject_round_trip:
  assumes "sl_max_length sl < 2 ^ 32"
  shows "(table_ok (sl_max_length sl) ds \<and> populated sl ds r \<longrightarrow>
           (\<exists>r'. SlObject_load sl ds r0 (SlObject_save sl ds r @ ys) = Inr (r', ys) \<and>
              (\<forall>d \<in> set ds. sl_get d r' =
                 (if SlIsObjectValidInSavegame sl d then sl_get d r else sl_get d r0)))) \<and>
         (length (ai_saveload_name st) \<le> sl_max_length sl \<and>
          length (ai_saveload_settings st) \<le> sl_max_length sl \<longrightarrow>
            SlObject_load sl (ai_company_desc h) st0 (SlObject_save sl (ai_company_desc h) st @ ys) =
              Inr (st\<lparr>ai_saveload_version :=
                        if 108 \<le> sl_version sl \<and> sl_version sl \<le> SL_MAX_VERSION h
                        then ai_saveload_version st else ai_saveload_version st0,
                      ai_saveload_is_random :=
                        if 136 \<le> sl_version sl \<and> sl_version sl \<le> SLV_AI_LOCAL_CONFIG h
                        then ai_saveload_is_random st else ai_saveload_is_random st0\<rparr>, ys))"
proof (intro conjI impI)
  have m: "sl_max_length sl < 256 ^ 4" using assms by simp
  show "\<exists>r'. SlObject_load sl ds r0 (SlObject_save sl ds r @ ys) = Inr (r', ys) \<and>
              (\<forall>d \<in> set ds. sl_get d r' =
                 (if SlIsObjectValidInSavegame sl d then sl_get d r else sl_get d r0))"
    if "table_ok (sl_max_length sl) ds \<and> populated sl ds r"
    using SlObject_save_then_load[of sl ds r r0 ys] that m by blast
  show "SlObject_load sl (ai_company_desc h) st0 (SlObject_save sl (ai_company_desc h) st @ ys) =
      Inr (st\<lparr>ai_saveload_version :=
                        if 108 \<le> sl_version sl \<and> sl_version sl \<le> SL_MAX_VERSION h
                        then ai_saveload_version st else ai_saveload_version st0,
                      ai_saveload_is_random :=
                        if 136 \<le> sl_version sl \<and> sl_version sl \<le> SLV_AI_LOCAL_CONFIG h
                        then ai_saveload_is_random st else ai_saveload_is_random st0\<rparr>, ys)"
    if "length (ai_saveload_name st) \<le> sl_max_length sl \<and>
          length (ai_saveload_settings st) \<le> sl_max_length sl"
    using ai_company_desc_save_then_load[OF assms, of st h st0 ys] that by blast
qed

theorem SlObject_round_trip_witness:
  "sl_max_length \<lparr>sl_version = 200, sl_max_length = 255\<rparr> < 2 ^ 32 \<and>
   table_ok 255 (ai_company_desc sample_h) \<and>
   populated \<lparr>sl_version = 200, sl_max_length = 255\<rparr> (ai_company_desc sample_h) sample_staging \<and>
   length (ai_saveload_name sample_staging) \<le> 255 \<and>
   length (ai_saveload_settings sample_staging) \<le> 255 \<and>
   SlObject_load \<lparr>sl_version = 200, sl_max_length = 255\<rparr> (ai_company_desc sample_h) empty_staging
     (SlObject_save \<lparr>sl_version = 200, sl_max_length = 255\<rparr> (ai_company_desc sample_h) sample_staging @ [7])
     = Inr (sample_staging, [7])"
proof -
  have p: "populated \<lparr>sl_version = 200, sl_max_length = 255\<rparr> (ai_company_desc sample_h) sample_staging"
    by (simp add: populated_def ai_company_desc_def SLEG_SSTR_def SLEG_CONDSSTR_def
        SLEG_CONDVAR_UINT32_def SLEG_CONDVAR_BOOL_def sample_staging_def)
  show ?thesis
    using SlObject_round_trip[where sl = "\<lparr>sl_version = 200, sl_max_length = 255\<rparr>"
      and ds = "ai_company_desc sample_h" and r = sample_staging and r0 = empty_staging
      and ys = "[7]" and st = sample_staging and h = sample_h and ?st0.0 = empty_staging]
      p ai_company_desc_ok[of 255 sample_h]
    by (simp add: sample_staging_def sample_h_def empty_staging_def)
qed

text \<open>
  C2 (version gating). A conditional descriptor is transcoded, on save and on load, if and
  only if \<open>version_from \<le> v \<le> version_to\<close> for the active version \<open>v\<close>.
  The field \<^verbatim>\<open>version\<close> of the company table contributes no bytes to a stream
  written for a target version below 108, and \<^verbatim>\<open>is_random\<close> is active exactly on
  the inclusive range from 136 to \<^verbatim>\<open>SLV_AI_LOCAL_CONFIG\<close>.
\<close>

theorem version_gating:
  "(is_conditional d \<longrightarrow>
      (SlIsObjectValidInSavegame sl d \<longleftrightarrow>
         version_from d \<le> sl_version sl \<and> sl_version sl \<le> version_to d) \<and>
      SlObject_save sl [d] r =
        (if version_from d \<le> sl_version sl \<and> sl_version sl \<le> version_to d
         then SlWriteValue (sl_conv d) (sl_get d r) else []) \<and>
      SlObject_load sl [d] r bs =
        (if version_from d \<le> sl_version sl \<and> sl_version sl \<le> version_to d
         then (case SlReadValue (sl_max_length sl) (sl_conv d) bs of
                 Inl e \<Rightarrow> Inl (e, r)
               | Inr (v, rest) \<Rightarrow> Inr (sl_set d v r, rest))
         else Inr (r, bs))) \<and>
   (sl_version sl < 108 \<longrightarrow>
      (\<forall>d' \<in> set (ai_company_desc h). sl_name d' = ''version'' \<longrightarrow>
         SlObjectMember_save sl d' st = []) \<and>
      SlObject_save sl (ai_company_desc h) st =
        SlWriteString (ai_saveload_name st) @ SlWriteString (ai_saveload_settings st)) \<and>
   (\<forall>d' \<in> set (ai_company_desc h). sl_name d' = ''is_random'' \<longrightarrow>
      version_from d' = 136 \<and> version_to d' = SLV_AI_LOCAL_CONFIG h \<and>
      (SlIsObjectValidInSavegame sl d' \<longleftrightarrow>
         136 \<le> sl_version sl \<and> sl_version sl \<le> SLV_AI_LOCAL_CONFIG h))"
proof (intro conjI impI)
  assume c: "is_conditional d"
  then have n: "sl_cmd d \<noteq> SL_NULL" by (auto simp: is_conditional_def)
  show "SlIsObjectValidInSavegame sl d \<longleftrightarrow>
         version_from d \<le> sl_version sl \<and> sl_version sl \<le> version_to d"
    using c by (simp add: SlIsObjectValidInSavegame_def)
  show "SlObject_save sl [d] r =
        (if version_from d \<le> sl_version sl \<and> sl_version sl \<le> version_to d
         then SlWriteValue (sl_conv d) (sl_get d r) else [])"
    using c n by (simp add: SlIsObjectValidInSavegame_def SlObjectMember_save_def)
  show "SlObject_load sl [d] r bs =
        (if version_from d \<le> sl_version sl \<and> sl_version sl \<le> version_to d
         then (case SlReadValue (sl_max_length sl) (sl_conv d) bs of
                 Inl e \<Rightarrow> Inl (e, r)
               | Inr (v, rest) \<Rightarrow> Inr (sl_set d v r, rest))
         else Inr (r, bs))"
    using c n
    by (simp add: SlIsObjectValidInSavegame_def SlObjectMember_load_def split: sum.splits)
next
  assume "sl_version sl < 108"
  then show "\<forall>d' \<in> set (ai_company_desc h). sl_name d' = ''version'' \<longrightarrow>
         SlObjectMember_save sl d' st = []"
    by (simp add: ai_company_desc_def SLEG_SSTR_def SLEG_CONDSSTR_def SLEG_CONDVAR_UINT32_def
      SLEG_CONDVAR_BOOL_def SlObjectMember_save_def SlIsObjectValidInSavegame_def
      is_conditional_def SLV_108_def)
next
  assume "sl_version sl < 108"
  then show "SlObject_save sl (ai_company_desc h) st =
        SlWriteString (ai_saveload_name st) @ SlWriteString (ai_saveload_settings st)"
    by (simp add: SlObject_save_ai_company_desc)
next
  show "\<forall>d' \<in> set (ai_company_desc h). sl_name d' = ''is_random'' \<longrightarrow>
      version_from d' = 136 \<and> version_to d' = SLV_AI_LOCAL_CONFIG h \<and>
      (SlIsObjectValidInSavegame sl d' \<longleftrightarrow>
         136 \<le> sl_version sl \<and> sl_version sl \<le> SLV_AI_LOCAL_CONFIG h)"
    by (simp add: ai_company_desc_def SLEG_SSTR_def SLEG_CONDSSTR_def SLEG_CONDVAR_UINT32_def
      SLEG_CONDVAR_BOOL_def SlIsObjectValidInSavegame_def is_conditional_def SLV_136_def)
qed

theorem version_gating_witness:
  "is_conditional (ai_company_desc sample_h ! 2) \<and>
   sl_version \<lparr>sl_version = 107, sl_max_length = 255\<rparr> < 108 \<and>
   \<not> SlIsObjectValidInSavegame \<lparr>sl_version = 107, sl_max_length = 255\<rparr> (ai_company_desc sample_h ! 2) \<and>
   ai_company_desc sample_h ! 2 \<in> set (ai_company_desc sample_h) \<and>
   sl_name (ai_company_desc sample_h ! 2) = ''version'' \<and>
   SlObjectMember_save \<lparr>sl_version = 107, sl_max_length = 255\<rparr> (ai_company_desc sample_h ! 2) sample_staging = [] \<and>
   SlObject_save \<lparr>sl_version = 107, sl_max_length = 255\<rparr> (ai_company_desc sample_h) sample_staging =
     [0, 0, 0, 9, 65, 100, 109, 105, 114, 97, 108, 65, 73, 0, 0, 0, 3, 97, 61, 49]"
  using version_gating[of "ai_company_desc sample_h ! 2" "\<lparr>sl_version = 107, sl_max_length = 255\<rparr>"
      sample_staging "[]" sample_h sample_staging]
  by (simp add: ai_company_desc_def SLEG_SSTR_def SLEG_CONDSSTR_def SLEG_CONDVAR_UINT32_def
      SLEG_CONDVAR_BOOL_def is_conditional_def SLV_108_def sample_h_def sample_staging_def
      SlWriteString_def byte_of_char_def be_bytes_4 SlIsObjectValidInSavegame_def SlObjectMember_save_def del: be_bytes.simps)

text \<open>
  The claim C3 as it was stated fails in the main menu (and likewise on a network client):
  there the record is read and the slot is not configured at all. Below, a chunk with one
  record that names \<^verbatim>\<open>AdmiralAI\<close> version 7 is loaded in the menu; the scanner
  does not have version 7 and has version 25 as the latest, and the slot ends without a
  script.
\<close>

theorem menu_mode_configures_nothing:
  "FindInfo menu_env ''AdmiralAI'' 7 False = None \<and>
   FindInfo menu_env ''AdmiralAI'' (- 1) False = Some (''AdmiralAI'', 25) \<and>
   Load menu_env sample_chunk sample_world =
     Inr ((Load_free_all menu_env sample_world)\<lparr>staged := sample_old_staging\<rparr>) \<and>
   cfg_info (script_config_ai ((Load_free_all menu_env sample_world)\<lparr>staged := sample_old_staging\<rparr>) 0)
     = None"
proof -
  have e: "ai_company_desc menu_env = ai_company_desc sample_env"
    by (simp add: menu_env_def ai_company_desc_def sample_env_def)
  have h: "SlCompatTableHeader (sl_params menu_env) (ai_company_desc sample_env)
      (ai_company_sl_compat menu_env)
      (SlTableHeader (ai_company_desc sample_env) @
         SlSetArrayIndex 0 @ SlAutolength sample_company_body @ SlArrayEnd) =
      Inr (ai_company_desc sample_env, SlSetArrayIndex 0 @ SlAutolength sample_company_body @ SlArrayEnd)"
    by (rule ai_company_desc_header) (simp_all add: menu_env_def sample_env_def)
  have r: "Load_record menu_env (ai_company_desc sample_env) 0 sample_company_body w =
      Inr (w\<lparr>staged := sample_old_staging\<rparr>)" if "companies w 0 = None" for w
    using sample_Load_fields[of GM_MENU w] that
    by (simp add: Load_record_def menu_env_def[symmetric])
       (simp add: menu_env_def sample_env_def Load_skip_def IsValidAiID_def)
  have l: "Load_loop menu_env (ai_company_desc sample_env)
      (SlSetArrayIndex 0 @ SlAutolength sample_company_body @ SlArrayEnd) w =
      Inr (w\<lparr>staged := sample_old_staging\<rparr>)" if "companies w 0 = None" for w
    using Load_loop_record[of 0 sample_company_body menu_env "ai_company_desc sample_env" SlArrayEnd w]
      Load_loop_end[of menu_env "ai_company_desc sample_env" "[]"] r[OF that]
    by (simp add: SL_ARRAY_END_def sample_company_body_length)
  have "Load menu_env sample_chunk sample_world =
     Inr ((Load_free_all menu_env sample_world)\<lparr>staged := sample_old_staging\<rparr>)"
    unfolding Load_def sample_chunk_def e h
    by (simp add: l Load_free_all_def sample_world_def)
  then show ?thesis
    by (simp add: menu_env_def sample_env_def sample_FindInfo_def Load_free_all_def Change_def)
qed

text \<open>
  C3 (fallback for an unavailable script), as amended. Outside the main menu and outside a
  network client, a record with a non-empty name that is not flagged random and whose
  name and version the scanner does not find never aborts the load for that reason: the
  slot is configured with the latest version of the same name where the scanner finds
  one, and is left without a script (the random AI) where it finds none; the only other
  effect is the debug output (none for the name \<^verbatim>\<open>%_dummy\<close>). What can still fail
  is reading the running AI's record and the AI's own data. In the main menu and on a
  network client the record is read (its fields, and the running AI's record where the
  company is run by an AI) and nothing is configured: whether the record or the whole load
  succeeds or fails, the slots are those the load started with (freed, once the header has
  resolved), and the companies and the debug output are untouched.
\<close>

theorem unavailable_script_falls_back:
  "(index < MAX_COMPANIES env \<and>
    game_mode env \<noteq> GM_MENU \<and> \<not> (networking env \<and> \<not> network_server env) \<and>
    Load_fields env slt body w = Inr (w1, body1) \<and>
    ai_saveload_name (staged w1) \<noteq> [] \<and> \<not> ai_saveload_is_random (staged w1) \<and>
    FindInfo env (ai_saveload_name (staged w1)) (ai_saveload_version (staged w1)) False = None \<longrightarrow>
    Load_record env slt index body w =
     (let name = ai_saveload_name (staged w1);
          version = ai_saveload_version (staged w1);
          latest = FindInfo env name (- 1) False;
          config = \<lparr>cfg_name = name,
                    cfg_version = (case latest of None \<Rightarrow> - 1 | Some i \<Rightarrow> snd i),
                    cfg_info = latest,
                    cfg_settings = ai_saveload_settings (staged w1),
                    cfg_to_load_data = None\<rparr>;
          msgs = (case latest of
                    Some i \<Rightarrow> [Dbg_no_longer_available name version, Dbg_latest_configured]
                  | None \<Rightarrow>
                      if name \<noteq> ''%_dummy''
                      then [Dbg_no_longer_available name version, Dbg_switched_to_random]
                      else []);
          w2 = w1\<lparr>script_config_ai := (script_config_ai w1)(index := config),
                  debug_out := debug_out w1 @ msgs\<rparr>
      in if IsValidAiID w1 index then Load_running env index body1 w2 else Inr w2)) \<and>
   (\<forall>e w'. Load_running env i b v = Inl (e, w') \<longrightarrow>
      (\<exists>st. SlObject_load (sl_params env) (ai_running_desc env) (staged v) b = Inl (e, st)) \<or>
      (\<exists>st b' ver. SlObject_load (sl_params env) (ai_running_desc env) (staged v) b = Inr (st, b') \<and>
         AIInstance_Load env ver b' = Inl e)) \<and>
   (game_mode env = GM_MENU \<or> (networking env \<and> \<not> network_server env) \<longrightarrow>
      (index < MAX_COMPANIES env \<longrightarrow>
         Load_record env slt index body w =
           (case Load_fields env slt body w of
              Inl ew \<Rightarrow> Inl ew
            | Inr (x, rest) \<Rightarrow> Load_skip env index rest x)) \<and>
      script_config_ai (state_after (Load_record env slt index body w)) = script_config_ai w \<and>
      companies (state_after (Load_record env slt index body w)) = companies w \<and>
      debug_out (state_after (Load_record env slt index body w)) = debug_out w \<and>
      script_config_ai (state_after (Load env bs v)) =
        (case SlCompatTableHeader (sl_params env) (ai_company_desc env) (ai_company_sl_compat env) bs of
           Inl e \<Rightarrow> script_config_ai v
         | Inr x \<Rightarrow> script_config_ai (Load_free_all env v)) \<and>
      companies (state_after (Load env bs v)) = companies v \<and>
      debug_out (state_after (Load env bs v)) = debug_out v)"
proof (intro conjI allI impI)
  assume a: "index < MAX_COMPANIES env \<and>
    game_mode env \<noteq> GM_MENU \<and> \<not> (networking env \<and> \<not> network_server env) \<and>
    Load_fields env slt body w = Inr (w1, body1) \<and>
    ai_saveload_name (staged w1) \<noteq> [] \<and> \<not> ai_saveload_is_random (staged w1) \<and>
    FindInfo env (ai_saveload_name (staged w1)) (ai_saveload_version (staged w1)) False = None"
  let ?name = "ai_saveload_name (staged w1)"
  let ?latest = "FindInfo env ?name (- 1) False"
  have c: "Load_config env index w1 =
     w1\<lparr>script_config_ai := (script_config_ai w1)(index :=
             \<lparr>cfg_name = ?name,
              cfg_version = (case ?latest of None \<Rightarrow> - 1 | Some i \<Rightarrow> snd i),
              cfg_info = ?latest,
              cfg_settings = ai_saveload_settings (staged w1),
              cfg_to_load_data = None\<rparr>),
         debug_out := debug_out w1 @
           (case ?latest of
              Some i \<Rightarrow> [Dbg_no_longer_available ?name (ai_saveload_version (staged w1)),
                          Dbg_latest_configured]
            | None \<Rightarrow>
                if ?name \<noteq> ''%_dummy''
                then [Dbg_no_longer_available ?name (ai_saveload_version (staged w1)),
                      Dbg_switched_to_random]
                else [])\<rparr>"
    using a
    by (cases ?latest)
       (simp_all add: Load_config_def Change_Some HasScript_def StringToSettings_def Let_def)
  have v: "IsValidAiID (Load_config env index w1) index = IsValidAiID w1 index"
    by simp
  show "Load_record env slt index body w =
     (let name = ai_saveload_name (staged w1);
          version = ai_saveload_version (staged w1);
          latest = FindInfo env name (- 1) False;
          config = \<lparr>cfg_name = name,
                    cfg_version = (case latest of None \<Rightarrow> - 1 | Some i \<Rightarrow> snd i),
                    cfg_info = latest,
                    cfg_settings = ai_saveload_settings (staged w1),
                    cfg_to_load_data = None\<rparr>;
          msgs = (case latest of
                    Some i \<Rightarrow> [Dbg_no_longer_available name version, Dbg_latest_configured]
                  | None \<Rightarrow>
                      if name \<noteq> ''%_dummy''
                      then [Dbg_no_longer_available name version, Dbg_switched_to_random]
                      else []);
          w2 = w1\<lparr>script_config_ai := (script_config_ai w1)(index := config),
                  debug_out := debug_out w1 @ msgs\<rparr>
      in if IsValidAiID w1 index then Load_running env index body1 w2 else Inr w2)"
    using a v unfolding Load_record_def Let_def c[symmetric]
    by auto
next
  fix e w'
  assume "Load_running env i b v = Inl (e, w')"
  then show "(\<exists>st. SlObject_load (sl_params env) (ai_running_desc env) (staged v) b = Inl (e, st)) \<or>
        (\<exists>st b' ver. SlObject_load (sl_params env) (ai_running_desc env) (staged v) b = Inr (st, b') \<and>
           AIInstance_Load env ver b' = Inl e)"
    by (rule Load_running_failure)
next
  assume m: "game_mode env = GM_MENU \<or> (networking env \<and> \<not> network_server env)"
  show "Load_record env slt index body w =
           (case Load_fields env slt body w of
              Inl ew \<Rightarrow> Inl ew
            | Inr (x, rest) \<Rightarrow> Load_skip env index rest x)"
    if "index < MAX_COMPANIES env"
    using that m by (auto simp: Load_record_def split: sum.splits)
  show "script_config_ai (state_after (Load_record env slt index body w)) = script_config_ai w"
       "companies (state_after (Load_record env slt index body w)) = companies w"
       "debug_out (state_after (Load_record env slt index body w)) = debug_out w"
    using Load_record_skips[OF m, of slt index body w] by simp_all
  show "script_config_ai (state_after (Load env bs v)) =
        (case SlCompatTableHeader (sl_params env) (ai_company_desc env) (ai_company_sl_compat env) bs of
           Inl e \<Rightarrow> script_config_ai v
         | Inr x \<Rightarrow> script_config_ai (Load_free_all env v))"
       "companies (state_after (Load env bs v)) = companies v"
       "debug_out (state_after (Load env bs v)) = debug_out v"
    using Load_skips[OF m, of bs v] by simp_all
qed

theorem unavailable_script_falls_back_witness:
  "(0 :: nat) < MAX_COMPANIES sample_env \<and>
   game_mode sample_env \<noteq> GM_MENU \<and>
   \<not> (networking sample_env \<and> \<not> network_server sample_env) \<and>
   Load_fields sample_env (ai_company_desc sample_env) sample_company_body sample_world =
     Inr (sample_world\<lparr>staged := sample_old_staging\<rparr>, []) \<and>
   FindInfo sample_env ''AdmiralAI'' 7 False = None \<and>
   FindInfo sample_env ''AdmiralAI'' (- 1) False = Some (''AdmiralAI'', 25) \<and>
   Load_record sample_env (ai_company_desc sample_env) 0 sample_company_body sample_world =
     Inr (sample_world
           \<lparr>staged := sample_old_staging,
            script_config_ai := (script_config_ai sample_world)
               (0 := \<lparr>cfg_name = ''AdmiralAI'', cfg_version = 25,
                      cfg_info = Some (''AdmiralAI'', 25), cfg_settings = ''a=1'',
                      cfg_to_load_data = None\<rparr>),
            debug_out := [Dbg_no_longer_available ''AdmiralAI'' 7, Dbg_latest_configured]\<rparr>) \<and>
   networking client_env \<and> \<not> network_server client_env \<and> game_mode client_env \<noteq> GM_MENU \<and>
   (1 :: nat) < MAX_COMPANIES client_env \<and> IsValidAiID sample_world 1 \<and>
   FindInfo client_env ''AdmiralAI'' (- 1) False = Some (''AdmiralAI'', 25) \<and>
   Load_fields client_env (ai_company_desc sample_env) running_record sample_world =
     Inr (sample_world\<lparr>staged := sample_old_staging\<rparr>, sample_running_body) \<and>
   Load_skip client_env 1 sample_running_body (sample_world\<lparr>staged := sample_old_staging\<rparr>) =
     Inr (sample_world\<lparr>staged := sample_old_staging\<rparr>) \<and>
   Load_record client_env (ai_company_desc sample_env) 1 running_record sample_world =
     Inr (sample_world\<lparr>staged := sample_old_staging\<rparr>) \<and>
   script_config_ai (state_after (Load client_env sample_chunk sample_world)) =
     script_config_ai (Load_free_all client_env sample_world) \<and>
   cfg_info (script_config_ai (state_after (Load client_env sample_chunk sample_world)) 0) = None"
proof -
  have f: "Load_fields sample_env (ai_company_desc sample_env) sample_company_body sample_world =
     Inr (sample_world\<lparr>staged := sample_old_staging\<rparr>, [])"
    using sample_Load_fields[of GM_NORMAL sample_world] by (simp add: sample_env_def)
  have n: "Load_record sample_env (ai_company_desc sample_env) 0 sample_company_body sample_world =
     Inr (sample_world
           \<lparr>staged := sample_old_staging,
            script_config_ai := (script_config_ai sample_world)
               (0 := \<lparr>cfg_name = ''AdmiralAI'', cfg_version = 25,
                      cfg_info = Some (''AdmiralAI'', 25), cfg_settings = ''a=1'',
                      cfg_to_load_data = None\<rparr>),
            debug_out := [Dbg_no_longer_available ''AdmiralAI'' 7, Dbg_latest_configured]\<rparr>)"
    using unavailable_script_falls_back[of 0 sample_env "ai_company_desc sample_env"
        sample_company_body sample_world "sample_world\<lparr>staged := sample_old_staging\<rparr>" "[]"
        0 "[]" sample_world "[]"] f
    by (simp add: sample_env_def sample_old_staging_def sample_FindInfo_def sample_world_def
        IsValidAiID_def Let_def)
  have g: "networking client_env" "\<not> network_server client_env" "game_mode client_env \<noteq> GM_MENU"
      "(1 :: nat) < MAX_COMPANIES client_env"
      "FindInfo client_env ''AdmiralAI'' (- 1) False = Some (''AdmiralAI'', 25)"
      "ai_company_desc client_env = ai_company_desc sample_env"
      "sl_params client_env = sl_params sample_env"
      "ai_company_sl_compat client_env = ai_company_sl_compat sample_env"
    by (simp_all add: client_env_def sample_env_def sample_FindInfo_def ai_company_desc_def)
  have fc: "Load_fields client_env (ai_company_desc sample_env) running_record sample_world =
     Inr (sample_world\<lparr>staged := sample_old_staging\<rparr>, sample_running_body)"
    unfolding running_record_def by (rule sample_Load_fields_more) (rule g(7))
  have v: "IsValidAiID sample_world 1" by (simp add: IsValidAiID_def sample_world_def)
  have h: "SlCompatTableHeader (sl_params sample_env) (ai_company_desc sample_env)
      (ai_company_sl_compat sample_env) sample_chunk =
      Inr (ai_company_desc sample_env, SlSetArrayIndex 0 @ SlAutolength sample_company_body @ SlArrayEnd)"
    unfolding sample_chunk_def by (rule sample_header)
  note t = unavailable_script_falls_back[of 1 client_env "ai_company_desc sample_env"
        running_record sample_world sample_world "[]" 0 "[]" sample_world sample_chunk]
  have r: "Load_record client_env (ai_company_desc sample_env) 1 running_record sample_world =
     Inr (sample_world\<lparr>staged := sample_old_staging\<rparr>)"
    by (rule sample_Load_record_client)
  have s: "Load_skip client_env 1 sample_running_body (sample_world\<lparr>staged := sample_old_staging\<rparr>) =
     Inr (sample_world\<lparr>staged := sample_old_staging\<rparr>)"
    using t g(1,2,4) fc r by simp
  have l: "script_config_ai (state_after (Load client_env sample_chunk sample_world)) =
     script_config_ai (Load_free_all client_env sample_world)"
    using t g(1,2) h by (simp add: g(6,7,8))
  have z: "cfg_info (script_config_ai (Load_free_all client_env sample_world) 0) = None"
    by (simp add: Load_free_all_def Change_def client_env_def sample_env_def)
  show ?thesis
    using f n g(1,2,3,4,5) v fc s r l z
    by (simp add: sample_env_def sample_FindInfo_def)
qed


text \<open>
  C9 (staged values do not leak). For a table resolved from a header against
  \<^verbatim>\<open>_ai_company_desc\<close>, whatever the staging variables held before (the previous
  record's values included): after lines 91 to 93, also when reading the fields fails,
  \<^verbatim>\<open>_ai_saveload_version\<close> is \<open>- 1\<close> if the range of \<^verbatim>\<open>version\<close> excludes the
  file's version, and \<^verbatim>\<open>_ai_saveload_is_random\<close> is false if the range of
  \<^verbatim>\<open>is_random\<close> excludes it. The same holds when the loop body has ended, for the
  version provided the range of \<^verbatim>\<open>running_version\<close> excludes the file's version
  as well.
\<close>

theorem staged_defaults_do_not_leak:
  assumes "SlResolveHeader (ai_company_desc env) slct fs = Inr slt"
  shows "(Load_fields env slt body w = Inr (w1, body1) \<or> Load_fields env slt body w = Inl (e, w1) \<longrightarrow>
           (\<not> (108 \<le> sl_version (sl_params env) \<and> sl_version (sl_params env) \<le> SL_MAX_VERSION env)
              \<longrightarrow> ai_saveload_version (staged w1) = - 1) \<and>
           (\<not> (136 \<le> sl_version (sl_params env) \<and> sl_version (sl_params env) \<le> SLV_AI_LOCAL_CONFIG env)
              \<longrightarrow> ai_saveload_is_random (staged w1) = False)) \<and>
         (Load_record env slt index body w = Inr w' \<longrightarrow>
           (\<not> (108 \<le> sl_version (sl_params env) \<and> sl_version (sl_params env) \<le> SL_MAX_VERSION env) \<and>
            \<not> (SLV_AI_LOCAL_CONFIG env \<le> sl_version (sl_params env) \<and>
                 sl_version (sl_params env) \<le> SL_MAX_VERSION env)
              \<longrightarrow> ai_saveload_version (staged w') = - 1) \<and>
           (\<not> (136 \<le> sl_version (sl_params env) \<and> sl_version (sl_params env) \<le> SLV_AI_LOCAL_CONFIG env)
              \<longrightarrow> ai_saveload_is_random (staged w') = False))"
proof -
  let ?sp = "sl_params env"
  let ?v = "sl_version ?sp"
  have el: "\<forall>d \<in> set slt. d \<in> set (ai_company_desc env) \<or> sl_cmd d = SL_NULL"
    using assms(1) by (rule SlResolveHeader_elements)
  have fields: "(\<not> (108 \<le> ?v \<and> ?v \<le> SL_MAX_VERSION env) \<longrightarrow> ai_saveload_version (staged x) = - 1) \<and>
           (\<not> (136 \<le> ?v \<and> ?v \<le> SLV_AI_LOCAL_CONFIG env) \<longrightarrow> ai_saveload_is_random (staged x) = False)"
    if lf: "Load_fields env slt body w = Inr (x, b) \<or> Load_fields env slt body w = Inl (e', x)"
    for x b e'
  proof -
    let ?st = "(staged w)\<lparr>ai_saveload_is_random := False, ai_saveload_version := - 1\<rparr>"
    have r: "SlObject_load ?sp slt ?st body = Inr (staged x, b) \<or>
             SlObject_load ?sp slt ?st body = Inl (e', staged x)"
      using lf by (auto simp: Load_fields_def Let_def split: sum.splits)
    have frame: "f (staged x) = f ?st"
      if "\<forall>d \<in> set slt. SlIsObjectValidInSavegame ?sp d \<and> sl_cmd d \<noteq> SL_NULL \<longrightarrow>
            (\<forall>v r. f (sl_set d v r) = f r)" for f :: "ai_saveload \<Rightarrow> 'b"
      using r SlObject_load_frame[of ?sp slt ?st body "staged x" b f]
        SlObject_load_frame_error[of ?sp slt ?st body e' "staged x" f] that by blast
    show ?thesis
    proof (intro conjI impI)
      assume n: "\<not> (108 \<le> ?v \<and> ?v \<le> SL_MAX_VERSION env)"
      have "ai_saveload_version (staged x) = ai_saveload_version ?st"
        using el company_desc_keeps_version[OF _ _ n] by (intro frame) blast
      then show "ai_saveload_version (staged x) = - 1" by simp
    next
      assume n: "\<not> (136 \<le> ?v \<and> ?v \<le> SLV_AI_LOCAL_CONFIG env)"
      have "ai_saveload_is_random (staged x) = ai_saveload_is_random ?st"
        using el company_desc_keeps_is_random[OF _ _ n] by (intro frame) blast
      then show "ai_saveload_is_random (staged x) = False" by simp
    qed
  qed
  have rec: "(\<not> (108 \<le> ?v \<and> ?v \<le> SL_MAX_VERSION env) \<and>
              \<not> (SLV_AI_LOCAL_CONFIG env \<le> ?v \<and> ?v \<le> SL_MAX_VERSION env)
                \<longrightarrow> ai_saveload_version (staged w') = - 1) \<and>
             (\<not> (136 \<le> ?v \<and> ?v \<le> SLV_AI_LOCAL_CONFIG env)
                \<longrightarrow> ai_saveload_is_random (staged w') = False)"
    if lr: "Load_record env slt index body w = Inr w'"
  proof -
    from Load_record_staged[OF lr] obtain x b where
      f: "Load_fields env slt body w = Inr (x, b)" and
      s: "staged w' = staged x \<or>
            (\<exists>st b'. SlObject_load ?sp (ai_running_desc env) (staged x) b = Inr (st, b') \<and>
               (staged w' = st \<or> staged w' = st\<lparr>ai_saveload_version := - 1\<rparr>))"
      by blast
    note fx = fields[of x b "SlErrorCorrupt []", OF disjI1, OF f]
    show ?thesis
    proof (intro conjI impI)
      assume n: "\<not> (108 \<le> ?v \<and> ?v \<le> SL_MAX_VERSION env) \<and>
              \<not> (SLV_AI_LOCAL_CONFIG env \<le> ?v \<and> ?v \<le> SL_MAX_VERSION env)"
      show "ai_saveload_version (staged w') = - 1"
        using s
      proof
        assume "staged w' = staged x"
        then show ?thesis using fx n by simp
      next
        assume "\<exists>st b'. SlObject_load ?sp (ai_running_desc env) (staged x) b = Inr (st, b') \<and>
               (staged w' = st \<or> staged w' = st\<lparr>ai_saveload_version := - 1\<rparr>)"
        then obtain st b' where
          l: "SlObject_load ?sp (ai_running_desc env) (staged x) b = Inr (st, b')" and
          c: "staged w' = st \<or> staged w' = st\<lparr>ai_saveload_version := - 1\<rparr>"
          by blast
        have "ai_saveload_version st = ai_saveload_version (staged x)"
          using running_desc_keeps_version[of _ env ?sp] n
          by (intro SlObject_load_frame[OF l]) blast
        then show ?thesis using c fx n by auto
      qed
    next
      assume n: "\<not> (136 \<le> ?v \<and> ?v \<le> SLV_AI_LOCAL_CONFIG env)"
      show "ai_saveload_is_random (staged w') = False"
        using s
      proof
        assume "staged w' = staged x"
        then show ?thesis using fx n by simp
      next
        assume "\<exists>st b'. SlObject_load ?sp (ai_running_desc env) (staged x) b = Inr (st, b') \<and>
               (staged w' = st \<or> staged w' = st\<lparr>ai_saveload_version := - 1\<rparr>)"
        then obtain st b' where
          l: "SlObject_load ?sp (ai_running_desc env) (staged x) b = Inr (st, b')" and
          c: "staged w' = st \<or> staged w' = st\<lparr>ai_saveload_version := - 1\<rparr>"
          by blast
        have "ai_saveload_is_random st = ai_saveload_is_random (staged x)"
          using running_desc_keeps_is_random[of _ env]
          by (intro SlObject_load_frame[OF l]) blast
        then show ?thesis using c fx n by auto
      qed
    qed
  qed
  show ?thesis using fields[of w1 body1 e] rec by blast
qed

theorem staged_defaults_do_not_leak_witness:
  "SlResolveHeader (ai_company_desc old_env) []
     (map (\<lambda>d. (sl_name d, sl_conv d)) (ai_company_desc old_env)) = Inr (ai_company_desc old_env) \<and>
   \<not> (108 \<le> sl_version (sl_params old_env) \<and> sl_version (sl_params old_env) \<le> SL_MAX_VERSION old_env) \<and>
   \<not> (SLV_AI_LOCAL_CONFIG old_env \<le> sl_version (sl_params old_env) \<and>
        sl_version (sl_params old_env) \<le> SL_MAX_VERSION old_env) \<and>
   \<not> (136 \<le> sl_version (sl_params old_env) \<and> sl_version (sl_params old_env) \<le> SLV_AI_LOCAL_CONFIG old_env) \<and>
   ai_saveload_version (staged sample_world) = 25 \<and>
   ai_saveload_is_random (staged sample_world) = True \<and>
   Load_fields old_env (ai_company_desc old_env) old_company_body sample_world =
     Inr (sample_world\<lparr>staged := sample_old_staging\<lparr>ai_saveload_version := - 1\<rparr>\<rparr>, []) \<and>
   ai_saveload_version (staged (sample_world\<lparr>staged := sample_old_staging\<lparr>ai_saveload_version := - 1\<rparr>\<rparr>)) = - 1 \<and>
   ai_saveload_is_random (staged (sample_world\<lparr>staged := sample_old_staging\<lparr>ai_saveload_version := - 1\<rparr>\<rparr>)) = False \<and>
   (\<exists>w'. Load_record old_env (ai_company_desc old_env) 0 old_company_body sample_world = Inr w' \<and>
      ai_saveload_version (staged w') = - 1 \<and> ai_saveload_is_random (staged w') = False)"
proof -
  have r: "SlResolveHeader (ai_company_desc old_env) []
     (map (\<lambda>d. (sl_name d, sl_conv d)) (ai_company_desc old_env)) = Inr (ai_company_desc old_env)"
    by (rule SlResolveHeader_own_aux) (simp_all add: ai_company_desc_names)
  have f: "Load_fields old_env (ai_company_desc old_env) old_company_body sample_world =
     Inr (sample_world\<lparr>staged := sample_old_staging\<lparr>ai_saveload_version := - 1\<rparr>\<rparr>, [])"
    using ai_company_desc_save_then_load[of "sl_params old_env" sample_old_staging old_env
      "(staged sample_world)\<lparr>ai_saveload_is_random := False, ai_saveload_version := - 1\<rparr>" "[]"]
    by (simp add: Load_fields_def old_company_body_def Let_def,
        simp add: old_env_def sample_env_def sample_old_staging_def)
  have v: "\<not> IsValidAiID (Load_config old_env 0
      (sample_world\<lparr>staged := sample_old_staging\<lparr>ai_saveload_version := - 1\<rparr>\<rparr>)) 0"
    by (simp add: IsValidAiID_def Load_config_def sample_world_def Let_def)
  have l: "Load_record old_env (ai_company_desc old_env) 0 old_company_body sample_world =
     Inr (Load_config old_env 0 (sample_world\<lparr>staged := sample_old_staging\<lparr>ai_saveload_version := - 1\<rparr>\<rparr>))"
    using f v by (simp add: Load_record_def old_env_def sample_env_def)
  show ?thesis
    using staged_defaults_do_not_leak[OF r, of old_company_body sample_world
        "sample_world\<lparr>staged := sample_old_staging\<lparr>ai_saveload_version := - 1\<rparr>\<rparr>" "[]"
        "SlErrorCorrupt []" 0
        "Load_config old_env 0 (sample_world\<lparr>staged := sample_old_staging\<lparr>ai_saveload_version := - 1\<rparr>\<rparr>)"]
      r f l
    by (simp add: old_env_def sample_env_def sample_world_def sample_staging_def)
qed

text \<open>
  C10 (the substitute gets no saved data). For a running AI's record whose name and version
  the scanner does not find while it finds a latest version of that name: the company is
  configured with the latest version, \<^verbatim>\<open>_ai_saveload_version\<close> is set to \<open>- 1\<close>, and
  \<^verbatim>\<open>AIInstance::Load\<close> is called with \<open>- 1\<close>, not with the saved version.
\<close>

theorem running_version_forced:
  assumes "SlObject_load (sl_params env) (ai_running_desc env) (staged w) body = Inr (st, body')"
    and "FindInfo env (ai_saveload_name st) (ai_saveload_version st) False = None"
    and "FindInfo env (ai_saveload_name st) (- 1) False = Some info"
  shows "Load_running env index body w =
     (let config = \<lparr>cfg_name = ai_saveload_name st, cfg_version = snd info, cfg_info = Some info,
                     cfg_settings = ai_saveload_settings st, cfg_to_load_data = None\<rparr>;
          w' = (set_company_config index config w)
                 \<lparr>staged := st\<lparr>ai_saveload_version := - 1\<rparr>,
                  debug_out := debug_out w @
                    [Dbg_no_longer_available (ai_saveload_name st) (ai_saveload_version st),
                     Dbg_latest_loaded_without_data]\<rparr>
      in case AIInstance_Load env (- 1) body' of
           Inl e \<Rightarrow> Inl (e, w')
         | Inr d \<Rightarrow> Inr (set_company_config index (config\<lparr>cfg_to_load_data := d\<rparr>) w'))"
  using assms
  by (simp add: Load_running_def Change_Some HasScript_def StringToSettings_def SetToLoadData_def
      Let_def split: sum.splits)

theorem running_version_forced_witness:
  "SlObject_load (sl_params sample_env) (ai_running_desc sample_env) (staged sample_world)
     sample_running_body = Inr (sample_running_staging\<lparr>ai_saveload_is_random := True\<rparr>, [1, 2, 3]) \<and>
   FindInfo sample_env ''AdmiralAI'' 7 False = None \<and>
   FindInfo sample_env ''AdmiralAI'' (- 1) False = Some (''AdmiralAI'', 25) \<and>
   AIInstance_Load sample_env 7 [1, 2, 3] = Inr (Some [1, 2, 3]) \<and>
   AIInstance_Load sample_env (- 1) [1, 2, 3] = Inr None \<and>
   Load_running sample_env 1 sample_running_body sample_world =
     Inr (sample_world
           \<lparr>staged := sample_running_staging\<lparr>ai_saveload_is_random := True, ai_saveload_version := - 1\<rparr>,
            companies := (companies sample_world)
              (1 := Some \<lparr>is_ai = True,
                          ai_config = Some \<lparr>cfg_name = ''AdmiralAI'', cfg_version = 25,
                             cfg_info = Some (''AdmiralAI'', 25), cfg_settings = ''a=1'',
                             cfg_to_load_data = None\<rparr>\<rparr>),
            debug_out := [Dbg_no_longer_available ''AdmiralAI'' 7, Dbg_latest_loaded_without_data]\<rparr>)"
proof -
  have l: "SlObject_load (sl_params sample_env) (ai_running_desc sample_env) (staged sample_world)
     sample_running_body = Inr (sample_running_staging\<lparr>ai_saveload_is_random := True\<rparr>, [1, 2, 3])"
    by (simp add: sample_running_body_def sample_env_def sample_world_def sample_staging_def
        sample_running_staging_def ai_running_desc_def sl_eval del: be_bytes.simps)
  show ?thesis
    using running_version_forced[OF l, of "(''AdmiralAI'', 25)" 1] l
    by (simp add: sample_env_def sample_FindInfo_def sample_running_staging_def sample_world_def
        set_company_config_def Let_def)
qed

text \<open>
  C4 (header resolution). A field listed in a table header resolves if and only if its name
  is the name of a descriptor of the current table or of an entry of the compatibility
  history. A name of the current table binds a descriptor of that name; a name only in the
  history binds a placeholder, which on load consumes exactly the bytes of the field's
  encoding and leaves the record as it was; any other name is corrupt-data. A header
  resolves if and only if all its fields do, and \<^verbatim>\<open>Load()\<close> of a chunk whose header
  lists an unknown name fails with corrupt-data before it changes anything.
\<close>

theorem header_resolution:
  "((\<exists>d. SlResolveField slt slct f = Inr d) \<longleftrightarrow>
      fst f \<in> sl_name ` set slt \<or> fst f \<in> slc_name ` set slct) \<and>
   (fst f \<in> sl_name ` set slt \<longrightarrow>
      (\<exists>d \<in> set slt. sl_name d = fst f \<and> SlResolveField slt slct f = Inr d)) \<and>
   (fst f \<notin> sl_name ` set slt \<and> fst f \<in> slc_name ` set slct \<longrightarrow>
      SlResolveField slt slct f = Inr (SlNullField (fst f) (snd f))) \<and>
   (fst f \<notin> sl_name ` set slt \<and> fst f \<notin> slc_name ` set slct \<longrightarrow>
      SlResolveField slt slct f = Inl (SlErrorCorrupt ''unknown field'')) \<and>
   ((\<exists>ds. SlResolveHeader slt slct fs = Inr ds) \<longleftrightarrow>
      (\<forall>g \<in> set fs. fst g \<in> sl_name ` set slt \<or> fst g \<in> slc_name ` set slct)) \<and>
   ((\<exists>g \<in> set fs. fst g \<notin> sl_name ` set slt \<and> fst g \<notin> slc_name ` set slct) \<longrightarrow>
      SlResolveHeader slt slct fs = Inl (SlErrorCorrupt ''unknown field'')) \<and>
   (value_ok (sl_max_length sp) ty v \<and> sl_max_length sp < 2 ^ 32 \<longrightarrow>
      SlObject_load sp [SlNullField n ty] r (SlWriteValue ty v @ rest) = Inr (r, rest)) \<and>
   (SlReadTableHeader (sl_max_length (sl_params env)) bs = Inr (hs, bs') \<and>
    (\<exists>g \<in> set hs. fst g \<notin> sl_name ` set (ai_company_desc env) \<and>
                      fst g \<notin> slc_name ` set (ai_company_sl_compat env)) \<longrightarrow>
      Load env bs w = Inl (SlErrorCorrupt ''unknown field'', w))"
proof (intro conjI impI)
  show "(\<exists>d. SlResolveField slt slct f = Inr d) \<longleftrightarrow>
      fst f \<in> sl_name ` set slt \<or> fst f \<in> slc_name ` set slct"
    using SlResolveHeader_ok_iff[of slt slct "[f]"] by (auto split: sum.splits)
  show "\<exists>d \<in> set slt. sl_name d = fst f \<and> SlResolveField slt slct f = Inr d"
    if "fst f \<in> sl_name ` set slt"
    using that by (rule SlResolveField_current)
  show "SlResolveField slt slct f = Inr (SlNullField (fst f) (snd f))"
    if "fst f \<notin> sl_name ` set slt \<and> fst f \<in> slc_name ` set slct"
    using that by (simp add: SlResolveField_removed)
  show "SlResolveField slt slct f = Inl (SlErrorCorrupt ''unknown field'')"
    if "fst f \<notin> sl_name ` set slt \<and> fst f \<notin> slc_name ` set slct"
    using that by (simp add: SlResolveField_unknown)
  show "(\<exists>ds. SlResolveHeader slt slct fs = Inr ds) \<longleftrightarrow>
      (\<forall>g \<in> set fs. fst g \<in> sl_name ` set slt \<or> fst g \<in> slc_name ` set slct)"
    by (rule SlResolveHeader_ok_iff)
  show "SlResolveHeader slt slct fs = Inl (SlErrorCorrupt ''unknown field'')"
    if "\<exists>g \<in> set fs. fst g \<notin> sl_name ` set slt \<and> fst g \<notin> slc_name ` set slct"
    using that by (rule SlResolveHeader_unknown)
  show "Load env bs w = Inl (SlErrorCorrupt ''unknown field'', w)"
    if "SlReadTableHeader (sl_max_length (sl_params env)) bs = Inr (hs, bs') \<and>
        (\<exists>g \<in> set hs. fst g \<notin> sl_name ` set (ai_company_desc env) \<and>
                      fst g \<notin> slc_name ` set (ai_company_sl_compat env))"
    using that SlResolveHeader_unknown[of hs "ai_company_desc env" "ai_company_sl_compat env"]
    by (simp add: Load_def SlCompatTableHeader_def)
  show "SlObject_load sp [SlNullField n ty] r (SlWriteValue ty v @ rest) = Inr (r, rest)"
    if "value_ok (sl_max_length sp) ty v \<and> sl_max_length sp < 2 ^ 32"
    using that SlReadValue_SlWriteValue[of "sl_max_length sp" ty v rest]
    by (simp add: SlNullField_load)
qed

theorem header_resolution_witness:
  "''difficulty'' \<notin> sl_name ` set (ai_company_desc sample_h) \<and>
   ''difficulty'' \<in> slc_name ` set [SLC_NULL ''difficulty''] \<and>
   ''name'' \<in> sl_name ` set (ai_company_desc sample_h) \<and>
   SlResolveField (ai_company_desc sample_h) [SLC_NULL ''difficulty''] (''difficulty'', SLE_UINT8) =
     Inr (SlNullField ''difficulty'' SLE_UINT8) \<and>
   value_ok 255 SLE_UINT8 (VInt 3) \<and>
   SlObject_load \<lparr>sl_version = 200, sl_max_length = 255\<rparr> [SlNullField ''difficulty'' SLE_UINT8]
     sample_staging (SlWriteValue SLE_UINT8 (VInt 3) @ [9]) = Inr (sample_staging, [9]) \<and>
   SlResolveHeader (ai_company_desc sample_h) [SLC_NULL ''difficulty'']
     [(''name'', SLE_STR), (''bogus'', SLE_BOOL)] = Inl (SlErrorCorrupt ''unknown field'') \<and>
   SlReadTableHeader (sl_max_length (sl_params sample_env)) bogus_chunk =
     Inr ([(''name'', SLE_STR), (''bogus'', SLE_BOOL)],
          SlSetArrayIndex 0 @ SlAutolength sample_company_body @ SlArrayEnd) \<and>
   Load sample_env bogus_chunk sample_world = Inl (SlErrorCorrupt ''unknown field'', sample_world)"
proof -
  have n: "sl_name ` set (ai_company_desc sample_h) = {''name'', ''settings'', ''version'', ''is_random''}"
    using ai_company_desc_names[of sample_h] unfolding set_map[symmetric] by simp
  have n': "sl_name ` set (ai_company_desc sample_env) = {''name'', ''settings'', ''version'', ''is_random''}"
    using ai_company_desc_names[of sample_env] unfolding set_map[symmetric] by simp
  have c: "slc_name ` set (ai_company_sl_compat sample_env) = {''difficulty''}"
    by (simp add: sample_env_def)
  show ?thesis
    using header_resolution[of "ai_company_desc sample_h" "[SLC_NULL ''difficulty'']"
      "(''difficulty'', SLE_UINT8)" "[(''name'', SLE_STR), (''bogus'', SLE_BOOL)]"
      "\<lparr>sl_version = 200, sl_max_length = 255\<rparr>" SLE_UINT8 "VInt 3" "''difficulty''"
      sample_staging "[9]" sample_env bogus_chunk "[(''name'', SLE_STR), (''bogus'', SLE_BOOL)]"
      "SlSetArrayIndex 0 @ SlAutolength sample_company_body @ SlArrayEnd" sample_world]
      bogus_chunk_header
    unfolding n n' c
    by (simp del: SlResolveHeader.simps SlObject_load.simps SlWriteValue.simps)
qed



text \<open>
  The claim C8 as it was stated fails: \<^verbatim>\<open>Load()\<close> writes to the global state as it
  goes and restores nothing when it throws. Below, a chunk with a record for index 0
  followed by a record for index 15 is loaded with \<^verbatim>\<open>MAX_COMPANIES\<close> 15: the load
  fails with corrupt-data, and at the throw slot 0 holds the script and the settings of
  the first record, which it did not hold before the load.
\<close>

theorem Load_failure_leaves_partial_state:
  "Load sample_env bad_chunk sample_world = Inl (SlErrorCorrupt ''Too many AI configs'', sample_loaded) \<and>
   cfg_info (script_config_ai sample_world 0) = None \<and>
   cfg_info (script_config_ai sample_loaded 0) = Some (''AdmiralAI'', 25) \<and>
   cfg_settings (script_config_ai sample_loaded 0) = ''a=1'' \<and>
   sample_loaded \<noteq> sample_world"
proof -
  have n: "companies (Load_free_all sample_env sample_world) 0 = None"
    by (simp add: Load_free_all_def sample_world_def)
  have t: "Load_loop sample_env (ai_company_desc sample_env)
       (SlSetArrayIndex 15 @ SlAutolength [] @ SlArrayEnd) sample_loaded =
       Inl (SlErrorCorrupt ''Too many AI configs'', sample_loaded)"
  proof (rule Load_loop_too_many)
    show "MAX_COMPANIES sample_env \<le> CompanyID_cast sample_env (index_as_int 15)"
      by simp (simp add: sample_env_def)
  qed (simp_all add: SL_ARRAY_END_def)
  have l: "Load sample_env bad_chunk sample_world =
      Inl (SlErrorCorrupt ''Too many AI configs'', sample_loaded)"
    using Load_loop_record[of 0 sample_company_body sample_env "ai_company_desc sample_env"
        "SlSetArrayIndex 15 @ SlAutolength [] @ SlArrayEnd" "Load_free_all sample_env sample_world"]
      sample_Load_record[OF n] t
    by (simp add: Load_def bad_chunk_def sample_header SL_ARRAY_END_def sample_company_body_length
        sample_loaded_def Load_free_all_def sample_world_def)
  have c: "cfg_info (script_config_ai sample_world 0) = None"
      "cfg_info (script_config_ai sample_loaded 0) = Some (''AdmiralAI'', 25)"
      "cfg_settings (script_config_ai sample_loaded 0) = ''a=1''"
    by (simp_all add: sample_world_def sample_loaded_def new_AIConfig_def)
  then have "sample_loaded \<noteq> sample_world" by auto
  with l c show ?thesis by simp
qed

text \<open>
  C8 (abort), as amended. A failure at the index bound check aborts \<^verbatim>\<open>Load()\<close> at
  once with corrupt-data: nothing of the failing record and of the records after it is
  applied, and the state at the throw is the state that loading the records before it
  alone would have produced: the slots freed and the earlier records applied stay so, since
  the handler rolls nothing back. Only a failure while the header is resolved leaves the
  state as it was before the load. Discarding a partly loaded state is left to the caller.
  The indices are those of the records as narrowed to \<^verbatim>\<open>CompanyID\<close>: the failing one
  is \<^verbatim>\<open>MAX_COMPANIES\<close> or more and none is \<^verbatim>\<open>(CompanyID)-1\<close>.
\<close>

theorem Load_aborts_without_rollback:
  assumes "\<forall>tail. SlCompatTableHeader (sl_params env) (ai_company_desc env)
             (ai_company_sl_compat env) (header @ tail) = Inr (slt, tail)"
    and "\<forall>r \<in> set recs. fst r < SL_ARRAY_END \<and> length (snd r) < 2 ^ 32 \<and>
           CompanyID_cast env (index_as_int (fst r)) \<noteq> CompanyID_cast env (- 1)"
    and "i < SL_ARRAY_END" and "length body < 2 ^ 32"
    and "CompanyID_cast env (index_as_int i) \<noteq> CompanyID_cast env (- 1)"
    and "MAX_COMPANIES env \<le> CompanyID_cast env (index_as_int i)"
    and "Load env (header @ SlWriteArray recs @ SlArrayEnd) w = Inr w'"
  shows "Load env (header @ SlWriteArray recs @ SlSetArrayIndex i @ SlAutolength body @ rest) w =
           Inl (SlErrorCorrupt ''Too many AI configs'', w') \<and>
         (SlCompatTableHeader (sl_params env) (ai_company_desc env) (ai_company_sl_compat env) bs = Inl e
            \<longrightarrow> Load env bs v = Inl (e, v))"
proof -
  have "Load_loop env slt (SlWriteArray recs @ SlArrayEnd) (Load_free_all env w) = Inr w'"
    using assms(1,7) by (simp add: Load_def)
  from Load_loop_stops_at_bound[OF assms(2,3,4,5,6) this, of rest] show ?thesis
    using assms(1) by (simp add: Load_def)
qed

theorem Load_aborts_without_rollback_witness:
  "(15 :: nat) < SL_ARRAY_END \<and>
   CompanyID_cast sample_env (index_as_int 0) = 0 \<and>
   CompanyID_cast sample_env (index_as_int 15) = 15 \<and>
   CompanyID_cast sample_env (- 1) = 255 \<and>
   MAX_COMPANIES sample_env \<le> 15 \<and>
   Load sample_env (SlTableHeader (ai_company_desc sample_env) @
      SlWriteArray [(0, sample_company_body)] @ SlArrayEnd) sample_world = Inr sample_loaded \<and>
   Load sample_env bad_chunk sample_world = Inl (SlErrorCorrupt ''Too many AI configs'', sample_loaded)"
proof -
  have h: "\<forall>tail. SlCompatTableHeader (sl_params sample_env) (ai_company_desc sample_env)
             (ai_company_sl_compat sample_env) (SlTableHeader (ai_company_desc sample_env) @ tail)
             = Inr (ai_company_desc sample_env, tail)"
    using sample_header by blast
  have r: "\<forall>r \<in> set [(0 :: nat, sample_company_body)]. fst r < SL_ARRAY_END \<and> length (snd r) < 2 ^ 32 \<and>
      CompanyID_cast sample_env (index_as_int (fst r)) \<noteq> CompanyID_cast sample_env (- 1)"
    by (simp add: SL_ARRAY_END_def sample_company_body_length)
  have m: "MAX_COMPANIES sample_env = 15" by (simp add: sample_env_def)
  have b: "(15 :: nat) < SL_ARRAY_END" "length ([] :: byte list) < 2 ^ 32"
      "CompanyID_cast sample_env (index_as_int 15) \<noteq> CompanyID_cast sample_env (- 1)"
      "MAX_COMPANIES sample_env \<le> CompanyID_cast sample_env (index_as_int 15)"
    by (simp_all add: SL_ARRAY_END_def m)
  show ?thesis
    using Load_aborts_without_rollback[OF h r b sample_Load_good, of SlArrayEnd] b sample_Load_good
    by (simp add: bad_chunk_def m)
qed
text \<open>
  The claim C6 as it was stated fails for a chunk whose header does not list the field
  \<^verbatim>\<open>name\<close>: the staging variable \<^verbatim>\<open>_ai_saveload_name\<close> is not reset between
  records or loads, so the first load configures slot 1 from the name staged before it
  (\<^verbatim>\<open>Zed\<close>, no such script) and the second load from the name the running AI's
  record of the first load left behind (\<^verbatim>\<open>AdmiralAI\<close>, available). The two end
  states differ.
\<close>

theorem reload_uses_stale_name:
  "Load sample_env stale_chunk stale_world = Inr stale_once \<and>
   Load sample_env stale_chunk stale_once = Inr stale_twice \<and>
   cfg_info (script_config_ai stale_once 1) = None \<and>
   cfg_info (script_config_ai stale_twice 1) = Some (''AdmiralAI'', 25) \<and>
   stale_twice \<noteq> stale_once"
proof -
  have "companies stale_world 1 = Some \<lparr>is_ai = True, ai_config = None\<rparr>"
       "ai_saveload_name (staged stale_world) = ''Zed''"
    by (simp_all add: stale_world_def sample_world_def)
  from stale_Load[OF this(1)] this(2) obtain w1 y where
    l1: "Load sample_env stale_chunk stale_world = Inr w1" and
    c1: "cfg_info (script_config_ai w1 1) = None" and
    n1: "ai_saveload_name (staged w1) = ''AdmiralAI''" and
    k1: "companies w1 1 = Some \<lparr>is_ai = True, ai_config = y\<rparr>"
    by (auto simp: sample_FindInfo_def)
  have o: "stale_once = w1" by (simp add: stale_once_def l1 state_after_def)
  from stale_Load[OF k1] n1 obtain w2 where
    l2: "Load sample_env stale_chunk w1 = Inr w2" and
    c2: "cfg_info (script_config_ai w2 1) = Some (''AdmiralAI'', 25)"
    by (auto simp: sample_FindInfo_def)
  have t: "stale_twice = w2" by (simp add: stale_twice_def o l2 state_after_def)
  from c1 c2 have "w2 \<noteq> w1" by auto
  then show ?thesis using l1 l2 c1 c2 o t by simp
qed

text \<open>
  C6 (reload), as amended. \<^verbatim>\<open>Load()\<close> frees every slot below \<^verbatim>\<open>MAX_COMPANIES\<close>
  before it reads the records. For a chunk whose header lists the fields \<^verbatim>\<open>name\<close>
  and \<^verbatim>\<open>settings\<close>, as every header written by \<^verbatim>\<open>Save()\<close> does, a second load
  of the same chunk, started in the state the first load reached, succeeds and reaches the
  same staging variables, the same slots and the same companies; only the debug output is
  written again.
\<close>

theorem Load_twice_is_Load_once:
  assumes "SlReadTableHeader (sl_max_length (sl_params env)) bs = Inr (fs, rest)"
    and "''name'' \<in> fst ` set fs" and "''settings'' \<in> fst ` set fs"
    and "Load env bs w = Inr w1"
  shows "(\<exists>slt. Load env bs w = Load_loop env slt rest (Load_free_all env w)) \<and>
         (\<forall>c < MAX_COMPANIES env. \<not> HasScript (script_config_ai (Load_free_all env w) c)) \<and>
         (\<exists>w2. Load env bs w1 = Inr w2 \<and> staged w2 = staged w1 \<and>
            script_config_ai w2 = script_config_ai w1 \<and> companies w2 = companies w1)"
proof -
  from assms(1,4) obtain slt where
    r: "SlResolveHeader (ai_company_desc env) (ai_company_sl_compat env) fs = Inr slt"
    by (auto simp: Load_def SlCompatTableHeader_def split: sum.splits)
  have h: "SlCompatTableHeader (sl_params env) (ai_company_desc env) (ai_company_sl_compat env) bs
           = Inr (slt, rest)"
    using assms(1) r by (simp add: SlCompatTableHeader_def)
  have l: "Load env bs v = Load_loop env slt rest (Load_free_all env v)" for v
    using h by (simp add: Load_def)
  have el: "\<forall>d \<in> set slt. d \<in> set (ai_company_desc env) \<or> sl_cmd d = SL_NULL"
    using r by (rule SlResolveHeader_elements)
  have names: "sl_name ` set (ai_company_desc env) = {''name'', ''settings'', ''version'', ''is_random''}"
    using ai_company_desc_names[of env] unfolding set_map[symmetric] by simp
  have ln: "loads_field env slt ''name''"
    unfolding loads_field_def
    using SlResolveHeader_loads_field[OF r assms(2)] names by simp
  have ls: "loads_field env slt ''settings''"
    unfolding loads_field_def
    using SlResolveHeader_loads_field[OF r assms(3)] names by simp
  have "Load_loop env slt rest (Load_free_all env w) = Inr w1"
    using assms(4) l by simp
  from Load_loop_twice[OF el ln ls this] show ?thesis
    using l by (auto simp: Load_free_all_facts)
qed

theorem Load_twice_is_Load_once_witness:
  "SlReadTableHeader (sl_max_length (sl_params sample_env)) sample_chunk =
     Inr (map (\<lambda>d. (sl_name d, sl_conv d)) (ai_company_desc sample_env),
          SlSetArrayIndex 0 @ SlAutolength sample_company_body @ SlArrayEnd) \<and>
   map fst (map (\<lambda>d. (sl_name d, sl_conv d)) (ai_company_desc sample_env)) =
     [''name'', ''settings'', ''version'', ''is_random''] \<and>
   Load sample_env sample_chunk sample_world = Inr sample_loaded \<and>
   cfg_info (script_config_ai sample_loaded 0) = Some (''AdmiralAI'', 25) \<and>
   (\<exists>w2. Load sample_env sample_chunk sample_loaded = Inr w2 \<and>
      staged w2 = staged sample_loaded \<and>
      script_config_ai w2 = script_config_ai sample_loaded \<and>
      companies w2 = companies sample_loaded)"
proof -
  have n: "map fst (map (\<lambda>d. (sl_name d, sl_conv d)) (ai_company_desc sample_env)) =
     [''name'', ''settings'', ''version'', ''is_random'']"
    using ai_company_desc_names[of sample_env] by (simp add: comp_def)
  have m: "''name'' \<in> fst ` set (map (\<lambda>d. (sl_name d, sl_conv d)) (ai_company_desc sample_env))"
      "''settings'' \<in> fst ` set (map (\<lambda>d. (sl_name d, sl_conv d)) (ai_company_desc sample_env))"
    using n unfolding set_map[symmetric] by simp_all
  have g: "Load sample_env sample_chunk sample_world = Inr sample_loaded"
    using sample_Load_good by (simp add: sample_chunk_def)
  have c: "cfg_info (script_config_ai sample_loaded 0) = Some (''AdmiralAI'', 25)"
    by (simp add: sample_loaded_def)
  from Load_twice_is_Load_once[OF sample_chunk_header m g] sample_chunk_header n g c
  show ?thesis by blast
qed

end
